(* ===== verification/Prelude.thy ===== *)
theory Prelude
  imports Main "HOL-Library.Word" "HOL-Library.Char_ord" "HOL-Library.List_Lexorder"
    "HOL-Library.Product_Lexorder"
begin

text \<open>
  Types, result values and small standard-library routines that every component shares.

  \<^item> A Rust \<open>String\<close> is a HOL \<open>string\<close> (its bytes); \<open>String\<close>'s \<open>Ord\<close> is the bytewise
    lexicographic order, which is the order of \<open>List_Lexorder\<close> over \<open>Char_ord\<close>.
  \<^item> \<open>u64\<close> and \<open>u8\<close> are words, so \<open>+\<close> wraps around as it does in the release profile the
    repository is built with.
  \<^item> \<open>DateTime<Utc>\<close> is the number of nanoseconds since the epoch, an \<open>int\<close>; every reading of
    \<open>Utc::now()\<close> is an argument of the operation that takes it.
  \<^item> \<open>Result<a, e>\<close> is the sum \<open>e + a\<close>, with \<open>Ok\<close> and \<open>Err\<close> for its injections.
\<close>

section \<open>Types\<close>

type_synonym u64 = "64 word"
type_synonym u32 = "32 word"
type_synonym u8 = "8 word"
type_synonym bytes = "u8 list"
type_synonym timestamp = int

text \<open>
  The identity of an mpsc channel. The channels are made by the tokio library: a handle is an
  input of the operation that creates the channel, and whether a send on it succeeds is a
  parameter \<open>send_ok\<close> of the operations that send.
\<close>
type_synonym chan = nat

type_synonym ('e, 'a) result = "'e + 'a"

abbreviation Ok :: "'a \<Rightarrow> ('e, 'a) result" where
  "Ok \<equiv> Inr"

abbreviation Err :: "'e \<Rightarrow> ('e, 'a) result" where
  "Err \<equiv> Inl"

section \<open>Option and result combinators\<close>

fun ok_or :: "'a option \<Rightarrow> 'e \<Rightarrow> ('e, 'a) result" where
  "ok_or None e = Err e"
| "ok_or (Some x) e = Ok x"

fun map_ok :: "('a \<Rightarrow> 'b) \<Rightarrow> ('e, 'a) result \<Rightarrow> ('e, 'b) result" where
  "map_ok f (Inl e) = Err e"
| "map_ok f (Inr x) = Ok (f x)"

fun map_err :: "('e \<Rightarrow> 'f) \<Rightarrow> ('e, 'a) result \<Rightarrow> ('f, 'a) result" where
  "map_err f (Inl e) = Err (f e)"
| "map_err f (Inr x) = Ok x"

fun unwrap_or :: "'a option \<Rightarrow> 'a \<Rightarrow> 'a" where
  "unwrap_or None d = d"
| "unwrap_or (Some x) d = x"

fun is_ok :: "('e, 'a) result \<Rightarrow> bool" where
  "is_ok (Inl e) = False"
| "is_ok (Inr x) = True"

lemma ok_or_Ok_iff [simp]: "ok_or m e = Ok x \<longleftrightarrow> m = Some x"
  by (cases m) auto

lemma ok_or_Err_iff [simp]: "ok_or m e = Err e' \<longleftrightarrow> m = None \<and> e = e'"
  by (cases m) auto

lemma is_ok_iff: "is_ok r \<longleftrightarrow> (\<exists>x. r = Ok x)"
  by (cases r) auto

lemma map_ok_Ok_iff [simp]: "map_ok f r = Ok y \<longleftrightarrow> (\<exists>x. r = Ok x \<and> y = f x)"
  by (cases r) auto

lemma map_err_Ok_iff [simp]: "map_err f r = Ok x \<longleftrightarrow> r = Ok x"
  by (cases r) auto

lemma map_err_Err_iff [simp]: "map_err f r = Err y \<longleftrightarrow> (\<exists>e. r = Err e \<and> y = f e)"
  by (cases r) auto

section \<open>Decimal output of an unsigned integer\<close>

fun show_nat :: "nat \<Rightarrow> string" where
  "show_nat n =
     (if n < 10 then [char_of (48 + n)] else show_nat (n div 10) @ [char_of (48 + n mod 10)])"

declare show_nat.simps [simp del]

lemma show_nat_digit: "n < 10 \<Longrightarrow> show_nat n = [char_of (48 + n)]"
  by (simp add: show_nat.simps)

section \<open>Words\<close>

lemma unat_Suc:
  fixes c :: "'a::len word"
  assumes "c \<noteq> - 1"
  shows "unat (c + 1) = Suc (unat c)"
proof -
  have "1 + c \<noteq> 0"
    using assms by (metis add.commute add_eq_0_iff)
  then show ?thesis
    by (simp add: unatSuc add.commute)
qed

lemma word_Suc_greater: "(c :: 'a::len word) \<noteq> - 1 \<Longrightarrow> c < c + 1"
  by (simp add: word_less_nat_alt unat_Suc)

lemma unat_of_nat_u64: "n < 2 ^ 64 \<Longrightarrow> unat (of_nat n :: u64) = n"
  by (simp add: unsigned_of_nat take_bit_nat_eq_self)

lemma max_u64: "(of_nat (2 ^ 64 - 1) :: u64) = - 1"
  by simp

lemma unat_max_u64: "unat (- 1 :: u64) = 2 ^ 64 - 1"
  unfolding max_u64 [symmetric] by (rule unat_of_nat_u64) simp

end
