(* ===== verification/Hash_Map.thy ===== *)
theory Hash_Map
  imports Prelude "HOL-Library.DAList" "HOL-Library.Multiset"
begin

text \<open>
  Rust's \<open>HashMap\<close> and \<open>HashSet\<close>. A map is an association list with distinct keys (the type
  \<open>alist\<close> of \<open>DAList\<close> carries that invariant), read through \<open>hm_get\<close>. Rust leaves the iteration
  order of a map open; here it is the order of the list, and the properties of the development
  speak of look-ups, of the set of the values or of their number, never of that order. Where a
  loop over a map changes state, the theories prove that the order does not matter.

  The locale \<open>keyed_store\<close> is the contract of a keyed store (what a look-up returns after an
  insertion or a removal). It is interpreted here for the map itself, and again by each component
  whose operations behave as such a store.
\<close>

named_theorems hm_eval \<open>evaluation of map operations on a concrete map\<close>

type_synonym ('k, 'v) hash_map = "('k, 'v) alist"
type_synonym 'k hash_set = "('k, unit) alist"

abbreviation hm_new :: "('k, 'v) hash_map" where
  "hm_new \<equiv> DAList.empty"

abbreviation hm_get :: "('k, 'v) hash_map \<Rightarrow> 'k \<Rightarrow> 'v option" where
  "hm_get \<equiv> DAList.lookup"

abbreviation hm_insert :: "'k \<Rightarrow> 'v \<Rightarrow> ('k, 'v) hash_map \<Rightarrow> ('k, 'v) hash_map" where
  "hm_insert \<equiv> DAList.update"

abbreviation hm_remove :: "'k \<Rightarrow> ('k, 'v) hash_map \<Rightarrow> ('k, 'v) hash_map" where
  "hm_remove \<equiv> DAList.delete"

definition hm_retain :: "('k \<Rightarrow> 'v \<Rightarrow> bool) \<Rightarrow> ('k, 'v) hash_map \<Rightarrow> ('k, 'v) hash_map" where
  "hm_retain p m = DAList.filter (\<lambda>(k, v). p k v) m"

definition hm_entries :: "('k, 'v) hash_map \<Rightarrow> ('k \<times> 'v) list" where
  "hm_entries m = DAList.impl_of m"

definition hm_keys :: "('k, 'v) hash_map \<Rightarrow> 'k list" where
  "hm_keys m = map fst (hm_entries m)"

definition hm_values :: "('k, 'v) hash_map \<Rightarrow> 'v list" where
  "hm_values m = map snd (hm_entries m)"

definition hm_len :: "('k, 'v) hash_map \<Rightarrow> nat" where
  "hm_len m = length (hm_entries m)"

definition hm_contains_key :: "('k, 'v) hash_map \<Rightarrow> 'k \<Rightarrow> bool" where
  "hm_contains_key m k \<longleftrightarrow> hm_get m k \<noteq> None"

text \<open>\<open>entry(k).or_insert(v)\<close>: the map with \<open>k\<close> present, and the value it then has.\<close>
definition hm_or_insert :: "'k \<Rightarrow> 'v \<Rightarrow> ('k, 'v) hash_map \<Rightarrow> ('k, 'v) hash_map" where
  "hm_or_insert k v m = (case hm_get m k of None \<Rightarrow> hm_insert k v m | Some _ \<Rightarrow> m)"

text \<open>\<open>iter().map(..).collect::<HashMap<_, _>>()\<close>: later pairs replace earlier ones.\<close>
definition hm_collect :: "('k \<times> 'v) list \<Rightarrow> ('k, 'v) hash_map" where
  "hm_collect ps = fold (\<lambda>(k, v). hm_insert k v) ps hm_new"

section \<open>Look-ups\<close>

lemma hm_get_new [simp]: "hm_get hm_new = Map.empty"
  by (simp add: fun_eq_iff)

lemma hm_get_insert [simp]: "hm_get (hm_insert k v m) = (hm_get m)(k \<mapsto> v)"
  by (simp add: lookup_update fun_eq_iff)

lemma hm_get_retain [simp]:
  "hm_get (hm_retain p m) k =
     (case hm_get m k of None \<Rightarrow> None | Some v \<Rightarrow> if p k v then Some v else None)"
proof -
  have "distinct (map fst xs) \<Longrightarrow> map_of (List.filter (\<lambda>(k, v). p k v) xs) k =
      (case map_of xs k of None \<Rightarrow> None | Some v \<Rightarrow> if p k v then Some v else None)" for xs
    by (induction xs) (force simp: map_of_eq_None_iff split: option.splits)+
  then show ?thesis
    by (simp add: hm_retain_def lookup.rep_eq filter.rep_eq)
qed

lemma hm_get_or_insert [simp]:
  "hm_get (hm_or_insert k v m) k' =
     (if k' = k then Some (unwrap_or (hm_get m k) v) else hm_get m k')"
  by (auto simp: hm_or_insert_def split: option.splits)

lemma hm_contains_key_insert [simp]:
  "hm_contains_key (hm_insert k v m) k' \<longleftrightarrow> k' = k \<or> hm_contains_key m k'"
  by (auto simp: hm_contains_key_def)

lemma hm_contains_key_remove [simp]:
  "hm_contains_key (hm_remove k m) k' \<longleftrightarrow> k' \<noteq> k \<and> hm_contains_key m k'"
  by (auto simp: hm_contains_key_def)

lemma hm_remove_missing: "hm_get m k = None \<Longrightarrow> hm_remove k m = m"
  by transfer (simp add: delete_id map_of_eq_None_iff)

lemma hm_contains_key_new [simp]: "\<not> hm_contains_key hm_new k"
  by (simp add: hm_contains_key_def)

lemma hm_contains_key_dom: "hm_contains_key m k \<longleftrightarrow> k \<in> dom (hm_get m)"
  by (auto simp: hm_contains_key_def)

section \<open>Iteration\<close>

lemma hm_entries_distinct [simp]: "distinct (map fst (hm_entries m))"
  by (simp add: hm_entries_def)

lemma hm_entries_iff [simp]: "(k, v) \<in> set (hm_entries m) \<longleftrightarrow> hm_get m k = Some v"
  by (simp add: hm_entries_def lookup.rep_eq)

lemma hm_get_map_of: "hm_get m = map_of (hm_entries m)"
  by (simp add: hm_entries_def lookup.rep_eq)

lemma set_hm_keys [simp]: "set (hm_keys m) = dom (hm_get m)"
  by (simp add: hm_keys_def hm_get_map_of dom_map_of_conv_image_fst)

lemma distinct_hm_keys [simp]: "distinct (hm_keys m)"
  by (simp add: hm_keys_def)

lemma in_hm_values_iff [simp]: "v \<in> set (hm_values m) \<longleftrightarrow> (\<exists>k. hm_get m k = Some v)"
proof -
  have "v \<in> set (hm_values m) \<longleftrightarrow> (\<exists>k. (k, v) \<in> set (hm_entries m))"
    by (force simp: hm_values_def simp del: hm_entries_iff)
  then show ?thesis by simp
qed

lemma set_hm_values: "set (hm_values m) = ran (hm_get m)"
  by (auto simp: ran_def)

lemma hm_len_card: "hm_len m = card (dom (hm_get m))"
proof -
  have "hm_len m = length (hm_keys m)"
    by (simp add: hm_len_def hm_keys_def)
  also have "\<dots> = card (set (hm_keys m))"
    by (simp add: distinct_card del: set_hm_keys)
  finally show ?thesis by simp
qed

lemma finite_dom_hm_get [simp]: "finite (dom (hm_get m))"
  by (metis List.finite_set set_hm_keys)

lemma hm_len_new [simp]: "hm_len hm_new = 0"
  by (simp add: hm_len_card)

lemma hm_len_insert [simp]:
  "hm_len (hm_insert k v m) = (if hm_contains_key m k then hm_len m else Suc (hm_len m))"
  by (auto simp: hm_len_card hm_contains_key_dom insert_absorb)

lemma hm_len_remove [simp]:
  "hm_len (hm_remove k m) = (if hm_contains_key m k then hm_len m - 1 else hm_len m)"
  by (auto simp: hm_len_card hm_contains_key_dom card_Diff_singleton)

lemma length_hm_values [simp]: "length (hm_values m) = hm_len m"
  by (simp add: hm_values_def hm_len_def)

text \<open>Maps with the same look-ups differ only in the order in which they are iterated.\<close>
lemma hm_entries_perm:
  assumes "hm_get m = hm_get m'"
  shows "mset (hm_entries m) = mset (hm_entries m')"
proof -
  have "distinct (hm_entries m)" "distinct (hm_entries m')"
    using distinct_map hm_entries_distinct by blast+
  moreover have "set (hm_entries m) = set (hm_entries m')"
    using assms by (auto simp del: hm_entries_iff simp: hm_entries_iff [of _ _ m] hm_entries_iff [of _ _ m'])
  ultimately show ?thesis by (simp add: set_eq_iff_mset_eq_distinct)
qed


section \<open>The contract of a keyed store\<close>

text \<open>
  \<open>put x\<close> stores the item of the request \<open>x\<close> under its key, replacing what was there;
  \<open>del k\<close> removes what is stored under \<open>k\<close>.
\<close>
locale keyed_store =
  fixes view :: "'s \<Rightarrow> 'k \<Rightarrow> 'v option"
    and key :: "'x \<Rightarrow> 'k"
    and item :: "'x \<Rightarrow> 'v"
    and put :: "'x \<Rightarrow> 's \<Rightarrow> 's"
    and del :: "'k \<Rightarrow> 's \<Rightarrow> 's"
  assumes view_put: "view (put x s) = (view s)(key x \<mapsto> item x)"
    and view_del: "view (del k s) = (view s)(k := None)"
begin

lemma put_then_found: "view (put x s) (key x) = Some (item x)"
  by (simp add: view_put)

lemma put_then_del: "view (del (key x) (put x s)) = (view s)(key x := None)"
  by (simp add: view_put view_del)

lemma put_replaces: "key x = key y \<Longrightarrow> view (put y (put x s)) = view (put y s)"
  by (simp add: view_put)

lemma puts_commute: "key x \<noteq> key y \<Longrightarrow> view (put y (put x s)) = view (put x (put y s))"
  by (simp add: view_put fun_upd_twist)

text \<open>After a sequence of insertions the last one for a key is the one found.\<close>
lemma view_put_all:
  "view (fold put xs s) k =
     (case find (\<lambda>x. key x = k) (rev xs) of None \<Rightarrow> view s k | Some x \<Rightarrow> Some (item x))"
proof (induction xs rule: rev_induct)
  case Nil
  then show ?case by simp
next
  case (snoc x xs)
  then show ?case by (simp add: view_put)
qed

end

interpretation hm: keyed_store hm_get fst snd "\<lambda>(k, v). hm_insert k v" hm_remove
  by unfold_locales auto

lemma hm_get_collect:
  "hm_get (hm_collect ps) k = map_option snd (find (\<lambda>p. fst p = k) (rev ps))"
  using hm.view_put_all [of ps hm_new k] by (simp add: hm_collect_def split: option.splits)

lemma hm_get_collect_None:
  "hm_get (hm_collect ps) k = None \<longleftrightarrow> k \<notin> fst ` set ps"
  by (force simp: hm_get_collect find_None_iff image_iff)

lemma hm_get_collect_distinct:
  assumes "distinct (map fst ps)" and "(k, v) \<in> set ps"
  shows "hm_get (hm_collect ps) k = Some v"
proof -
  obtain p where p: "find (\<lambda>p. fst p = k) (rev ps) = Some p"
    using assms(2) by (cases "find (\<lambda>p. fst p = k) (rev ps)") (force simp: find_None_iff)+
  then have "p \<in> set ps" "fst p = k"
    by (auto simp: find_Some_iff) (metis nth_mem length_rev set_rev)
  then have "p = (k, v)"
    using assms by (metis eq_key_imp_eq_value prod.collapse)
  with p show ?thesis by (simp add: hm_get_collect)
qed

section \<open>Evaluation\<close>

lemmas [hm_eval] = hm_entries_def hm_keys_def hm_values_def hm_len_def hm_retain_def
  DAList.update.rep_eq DAList.delete.rep_eq DAList.empty.rep_eq DAList.filter.rep_eq
  AList.delete_eq

end
