(* ===== verification/Vector_Clock.thy ===== *)
theory Vector_Clock
  imports Hash_Map
begin

text \<open>
  Vector clocks (\<open>VectorClock\<close> of \<open>p2p/src/room_state.rs\<close>). A clock maps agents to \<open>u64\<close>
  counters, a missing agent counts as 0. \<open>partial_cmp_clock\<close> is the code's loop over the union of
  the keys with its two flags; it is shown to decide the pointwise order, which makes clocks a
  \<open>preorder\<close> of the library. \<open>vc_merge\<close> is the code's loop over the other clock's entries; it is
  shown to be the least upper bound. The locale \<open>join_clock\<close> is the contract the room state
  relies on, proved once and interpreted on \<open>vc_merge\<close>.
\<close>

section \<open>The code\<close>

datatype vector_clock = VectorClock (clocks: "(string, u64) hash_map")

datatype clock_ordering = Before | After | Concurrent | Equal

definition vc_default :: vector_clock where
  "vc_default = VectorClock hm_new"

definition vc_tick :: "vector_clock \<Rightarrow> string \<Rightarrow> vector_clock \<times> u64" where
  "vc_tick self agent_id =
     (let m = hm_or_insert agent_id 0 (clocks self);
          entry = unwrap_or (hm_get m agent_id) 0 + 1
      in (VectorClock (hm_insert agent_id entry m), entry))"

definition vc_get :: "vector_clock \<Rightarrow> string \<Rightarrow> u64" where
  "vc_get self agent_id = unwrap_or (hm_get (clocks self) agent_id) 0"

fun vc_merge_step :: "string \<times> u64 \<Rightarrow> (string, u64) hash_map \<Rightarrow> (string, u64) hash_map" where
  "vc_merge_step (agent_id, v) m =
     (let m' = hm_or_insert agent_id 0 m
      in hm_insert agent_id (max (unwrap_or (hm_get m' agent_id) 0) v) m')"

definition vc_merge :: "vector_clock \<Rightarrow> vector_clock \<Rightarrow> vector_clock" where
  "vc_merge self other =
     VectorClock (fold vc_merge_step (hm_entries (clocks other)) (clocks self))"

fun cmp_scan :: "vector_clock \<Rightarrow> vector_clock \<Rightarrow> string list \<Rightarrow> bool \<Rightarrow> bool \<Rightarrow> bool \<times> bool" where
  "cmp_scan self other [] self_leq other_leq = (self_leq, other_leq)"
| "cmp_scan self other (k # ks) self_leq other_leq =
     (let s = vc_get self k; o' = vc_get other k
      in cmp_scan self other ks
           (if o' < s then False else self_leq)
           (if s < o' then False else other_leq))"

definition partial_cmp_clock :: "vector_clock \<Rightarrow> vector_clock \<Rightarrow> clock_ordering" where
  "partial_cmp_clock self other =
     (let all_keys = remdups (hm_keys (clocks self) @ hm_keys (clocks other))
      in case cmp_scan self other all_keys True True of
           (True, True) \<Rightarrow> Equal
         | (True, False) \<Rightarrow> Before
         | (False, True) \<Rightarrow> After
         | (False, False) \<Rightarrow> Concurrent)"

section \<open>Clocks as a preorder\<close>

instantiation vector_clock :: preorder
begin

definition less_eq_vector_clock :: "vector_clock \<Rightarrow> vector_clock \<Rightarrow> bool" where
  "a \<le> b \<longleftrightarrow> (\<forall>k. vc_get a k \<le> vc_get b k)"

definition less_vector_clock :: "vector_clock \<Rightarrow> vector_clock \<Rightarrow> bool" where
  "(a :: vector_clock) < b \<longleftrightarrow> a \<le> b \<and> \<not> b \<le> a"

instance
  by standard (auto simp: less_eq_vector_clock_def less_vector_clock_def intro: order_trans)

end

lemma vc_leI: "(\<And>k. vc_get a k \<le> vc_get b k) \<Longrightarrow> a \<le> b"
  by (simp add: less_eq_vector_clock_def)

lemma vc_leD: "a \<le> b \<Longrightarrow> vc_get a k \<le> vc_get b k"
  by (simp add: less_eq_vector_clock_def)

text \<open>The same counters everywhere, whatever keys are present with the value 0.\<close>
definition vc_eq :: "vector_clock \<Rightarrow> vector_clock \<Rightarrow> bool" where
  "vc_eq a b \<longleftrightarrow> a \<le> b \<and> b \<le> a"

lemma vc_eq_get: "vc_eq a b \<longleftrightarrow> vc_get a = vc_get b"
  by (auto simp: vc_eq_def less_eq_vector_clock_def fun_eq_iff intro: order.antisym)

section \<open>Reading the results\<close>

lemma vc_get_default [simp]: "vc_get vc_default a = 0"
  by (simp add: vc_get_def vc_default_def)

lemma vc_default_le [simp]: "vc_default \<le> c"
  by (simp add: less_eq_vector_clock_def)

lemma vc_get_tick: "vc_get (fst (vc_tick c a)) b = (if b = a then vc_get c a + 1 else vc_get c b)"
  by (simp add: vc_tick_def vc_get_def Let_def)

lemma snd_vc_tick: "snd (vc_tick c a) = vc_get (fst (vc_tick c a)) a"
  by (simp add: vc_tick_def vc_get_def Let_def)

text \<open>A tick is strictly later, unless the counter is at its maximum and wraps to 0.\<close>
lemma vc_tick_greater: "vc_get c a \<noteq> - 1 \<Longrightarrow> c < fst (vc_tick c a)"
  by (auto simp: less_vector_clock_def less_eq_vector_clock_def vc_get_tick
      dest: word_Suc_greater intro: order.strict_implies_order)

lemma vc_get_merge_fold:
  assumes "distinct (map fst ps)"
  shows "unwrap_or (hm_get (fold vc_merge_step ps m) k) 0 =
    max (unwrap_or (hm_get m k) 0) (unwrap_or (map_of ps k) 0)"
  using assms
proof (induction ps arbitrary: m)
  case Nil
  then show ?case by simp
next
  case (Cons p ps)
  obtain a v where p: "p = (a, v)" by (cases p)
  have IH: "unwrap_or (hm_get (fold vc_merge_step ps (vc_merge_step p m)) k) 0 =
    max (unwrap_or (hm_get (vc_merge_step p m) k) 0) (unwrap_or (map_of ps k) 0)"
    using Cons by simp
  show ?case
  proof (cases "k = a")
    case True
    have "map_of ps a = None"
      using Cons.prems by (simp add: p map_of_eq_None_iff)
    with IH True show ?thesis by (simp add: p Let_def)
  next
    case False
    with IH show ?thesis by (simp add: p Let_def)
  qed
qed

lemma vc_get_merge [simp]: "vc_get (vc_merge a b) k = max (vc_get a k) (vc_get b k)"
  using vc_get_merge_fold [of "hm_entries (clocks b)" "clocks a" k]
  by (simp add: vc_merge_def vc_get_def hm_get_map_of [of "clocks b", symmetric])

section \<open>Comparison\<close>

lemma cmp_scan_eq:
  "cmp_scan a b ks p q =
     (p \<and> (\<forall>k\<in>set ks. vc_get a k \<le> vc_get b k), q \<and> (\<forall>k\<in>set ks. vc_get b k \<le> vc_get a k))"
  by (induction ks arbitrary: p q) (auto simp: Let_def not_less not_le)

lemma vc_get_outside: "k \<notin> set (hm_keys (clocks a)) \<Longrightarrow> vc_get a k = 0"
  by (auto simp: vc_get_def domIff)

lemma vc_le_iff_keys:
  assumes "set (hm_keys (clocks a)) \<subseteq> set ks"
  shows "a \<le> b \<longleftrightarrow> (\<forall>k\<in>set ks. vc_get a k \<le> vc_get b k)"
  using assms vc_get_outside [of _ a] by (force simp: less_eq_vector_clock_def)

lemma partial_cmp_clock_le:
  "partial_cmp_clock a b =
     (if a \<le> b then if b \<le> a then Equal else Before else if b \<le> a then After else Concurrent)"
proof -
  let ?ks = "remdups (hm_keys (clocks a) @ hm_keys (clocks b))"
  have "a \<le> b \<longleftrightarrow> (\<forall>k\<in>set ?ks. vc_get a k \<le> vc_get b k)"
    by (rule vc_le_iff_keys) simp
  moreover have "b \<le> a \<longleftrightarrow> (\<forall>k\<in>set ?ks. vc_get b k \<le> vc_get a k)"
    by (rule vc_le_iff_keys) simp
  ultimately have "cmp_scan a b ?ks True True = (a \<le> b, b \<le> a)"
    by (simp only: cmp_scan_eq simp_thms)
  then show ?thesis
    by (simp only: partial_cmp_clock_def Let_def) (simp split: bool.splits)
qed

lemma partial_cmp_clock_iffs:
  "partial_cmp_clock a b = After \<longleftrightarrow> b < a"
  "partial_cmp_clock a b = Before \<longleftrightarrow> a < b"
  "partial_cmp_clock a b = Equal \<longleftrightarrow> vc_eq a b"
  "partial_cmp_clock a b = Concurrent \<longleftrightarrow> \<not> a \<le> b \<and> \<not> b \<le> a"
  by (auto simp: partial_cmp_clock_le less_vector_clock_def vc_eq_def)

lemma vc_le_code [code]:
  "a \<le> b \<longleftrightarrow> list_all (\<lambda>k. vc_get a k \<le> vc_get b k) (hm_keys (clocks a))"
  by (simp add: list_all_iff vc_le_iff_keys [of a "hm_keys (clocks a)"])

section \<open>Merging is the least upper bound\<close>

locale join_clock =
  fixes le :: "'c \<Rightarrow> 'c \<Rightarrow> bool"
    and join :: "'c \<Rightarrow> 'c \<Rightarrow> 'c"
  assumes le_refl: "le a a"
    and le_trans: "le a b \<Longrightarrow> le b c \<Longrightarrow> le a c"
    and join_ub1: "le a (join a b)"
    and join_ub2: "le b (join a b)"
    and join_least: "le a c \<Longrightarrow> le b c \<Longrightarrow> le (join a b) c"
begin

lemma join_mono: "le a b \<Longrightarrow> le (join a c) (join b c)"
  by (meson join_least join_ub1 join_ub2 le_trans)

lemma join_comm: "le (join a b) (join b a)"
  by (simp add: join_least join_ub1 join_ub2)

lemma join_assoc: "le (join (join a b) c) (join a (join b c))" "le (join a (join b c)) (join (join a b) c)"
  by (meson join_least join_ub1 join_ub2 le_trans)+

lemma join_absorb: "le b a \<Longrightarrow> le (join a b) a"
  by (simp add: join_least le_refl)

lemma fold_ub: "le a (fold (\<lambda>c s. join s c) cs a)"
  by (induction cs arbitrary: a) (auto intro: le_refl le_trans join_ub1)

lemma fold_ub_mem: "c \<in> set cs \<Longrightarrow> le c (fold (\<lambda>c s. join s c) cs a)"
proof (induction cs arbitrary: a)
  case Nil
  then show ?case by simp
next
  case (Cons d cs)
  then show ?case by (auto intro: le_trans [OF join_ub2 fold_ub])
qed

lemma fold_least: "le a u \<Longrightarrow> (\<And>c. c \<in> set cs \<Longrightarrow> le c u) \<Longrightarrow> le (fold (\<lambda>c s. join s c) cs a) u"
  by (induction cs arbitrary: a) (auto intro: join_least)

text \<open>The join of a collection depends on its elements only, not on their order.\<close>
lemma fold_order:
  "set cs = set ds \<Longrightarrow> le (fold (\<lambda>c s. join s c) cs a) (fold (\<lambda>c s. join s c) ds a)"
  by (rule fold_least) (auto intro: fold_ub fold_ub_mem)

end

interpretation vc: join_clock "(\<le>) :: vector_clock \<Rightarrow> vector_clock \<Rightarrow> bool" vc_merge
  by unfold_locales (auto simp: less_eq_vector_clock_def intro: order_trans)

lemma vc_le_merge1: "a \<le> b \<Longrightarrow> a \<le> vc_merge b c"
  by (rule order_trans [OF _ vc.join_ub1])

lemma vc_le_merge2: "a \<le> c \<Longrightarrow> a \<le> vc_merge b c"
  by (rule order_trans [OF _ vc.join_ub2])

lemmas vc_order = partial_cmp_clock_iffs less_vector_clock_def

section \<open>Properties\<close>

lemma word_not_le: "\<not> (\<forall>k. vc_get a k \<le> vc_get b k) \<longleftrightarrow> (\<exists>k. vc_get b k < vc_get a k)"
  by (auto simp: not_le)

text \<open>
  The comparison of two vector clocks is the causal order. \<open>partial_cmp_clock\<close>, a single scan of
  the union of the keys with two flags, answers \<open>Equal\<close> when every counter agrees, \<open>Before\<close> or
  \<open>After\<close> when one clock is below the other in every counter and strictly below in one, and
  \<open>Concurrent\<close> exactly when each clock has a counter above the other's; a missing agent counts as 0,
  and exchanging the arguments exchanges \<open>Before\<close> and \<open>After\<close>.
\<close>
theorem partial_cmp_clock_correct:
  "(partial_cmp_clock a b = Equal \<longleftrightarrow> (\<forall>k. vc_get a k = vc_get b k))
   \<and> (partial_cmp_clock a b = Before \<longleftrightarrow>
        (\<forall>k. vc_get a k \<le> vc_get b k) \<and> (\<exists>k. vc_get a k < vc_get b k))
   \<and> (partial_cmp_clock a b = After \<longleftrightarrow>
        (\<forall>k. vc_get b k \<le> vc_get a k) \<and> (\<exists>k. vc_get b k < vc_get a k))
   \<and> (partial_cmp_clock a b = Concurrent \<longleftrightarrow>
        (\<exists>k. vc_get b k < vc_get a k) \<and> (\<exists>k. vc_get a k < vc_get b k))
   \<and> (partial_cmp_clock b a = After \<longleftrightarrow> partial_cmp_clock a b = Before)"
proof -
  have "(partial_cmp_clock a b = Equal) = (\<forall>k. vc_get a k = vc_get b k)"
    by (auto simp: partial_cmp_clock_iffs vc_eq_get)
  then show ?thesis
    by (simp add: partial_cmp_clock_iffs less_vector_clock_def less_eq_vector_clock_def word_not_le)
      (auto simp: not_le)
qed

text \<open>
  Merging two clocks gives their least upper bound, agent by agent the larger counter, whatever
  the order in which the entries are visited; ticking raises one agent's counter by one and leaves
  the others, wrapping to 0 at the maximum of \<open>u64\<close>, and the clock after a tick is strictly after
  the one before it except when the counter wraps.
\<close>
theorem merge_and_tick_correct:
  "vc_get (vc_merge a b) k = max (vc_get a k) (vc_get b k)
   \<and> vc_get (fst (vc_tick a agent)) k = (if k = agent then vc_get a k + 1 else vc_get a k)
   \<and> snd (vc_tick a agent) = vc_get a agent + 1
   \<and> (partial_cmp_clock a (fst (vc_tick a agent)) = Before \<longleftrightarrow> vc_get a agent \<noteq> - 1)"
proof -
  note tick = vc_get_tick [of a agent]
  have "vc_get (fst (vc_tick a agent)) agent = 0" if "vc_get a agent = - 1"
    using that tick [of agent] by simp
  then have "\<not> a \<le> fst (vc_tick a agent)" if "vc_get a agent = - 1"
    using that by (auto simp: less_eq_vector_clock_def intro!: exI [of _ agent])
  then have "partial_cmp_clock a (fst (vc_tick a agent)) = Before \<longleftrightarrow> vc_get a agent \<noteq> - 1"
    using vc_tick_greater [of a agent] by (auto simp: partial_cmp_clock_iffs less_vector_clock_def)
  then show ?thesis
    using tick by (simp add: snd_vc_tick)
qed

end
