(* ===== verification/Newest_Wins.thy ===== *)
theory Newest_Wins
  imports Prelude
begin

text \<open>
  The contract of a replicated keyed store that keeps one item per key and lets an incoming item
  replace the stored one when it \<open>wins\<close>. Two components of the mesh are such stores: the peer
  registry (an entry wins by its \<open>last_seen\<close> time) and the state of a room (an entry wins by its
  vector clock, then by its time and author). The locale proves once what both rely on: when the
  winner is decided by a rank, the stored item is the highest-ranked one offered so far, so the
  final state depends on the set of offered items only, not on their order or repetition.
\<close>

text \<open>\<open>best_of rank C v\<close>: \<open>v\<close> is the item of \<open>C\<close> of the highest rank, if \<open>C\<close> has any.\<close>
definition best_of :: "('e \<Rightarrow> 'o::linorder) \<Rightarrow> 'e set \<Rightarrow> 'e option \<Rightarrow> bool" where
  "best_of rank C v \<longleftrightarrow>
     (case v of None \<Rightarrow> C = {} | Some m \<Rightarrow> m \<in> C \<and> (\<forall>c\<in>C. rank c \<le> rank m))"

text \<open>
  Among the items of \<open>S\<close> that compete for a key, an item wins exactly when its rank is higher,
  and no two of them have the same rank.
\<close>
definition ranked_on ::
    "('e \<Rightarrow> 'o::linorder) \<Rightarrow> ('e \<Rightarrow> 'e \<Rightarrow> bool) \<Rightarrow> ('e \<Rightarrow> 'k) \<Rightarrow> 'e set \<Rightarrow> bool" where
  "ranked_on rank wins key S \<longleftrightarrow>
     (\<forall>a\<in>S. \<forall>b\<in>S. key a = key b \<longrightarrow>
        (wins a b \<longleftrightarrow> rank b < rank a) \<and> (rank a = rank b \<longrightarrow> a = b))"

lemma ranked_onD:
  assumes "ranked_on rank wins key S" "a \<in> S" "b \<in> S" "key a = key b"
  shows "wins a b \<longleftrightarrow> rank b < rank a" and "rank a = rank b \<Longrightarrow> a = b"
  using assms by (auto simp: ranked_on_def)

lemma ranked_on_subset: "ranked_on rank wins key S \<Longrightarrow> T \<subseteq> S \<Longrightarrow> ranked_on rank wins key T"
  by (auto simp: ranked_on_def)

lemma best_of_unique:
  assumes "best_of rank C v" "best_of rank C w"
    and "\<And>a b. a \<in> C \<Longrightarrow> b \<in> C \<Longrightarrow> rank a = rank b \<Longrightarrow> a = b"
  shows "v = w"
proof (cases v)
  case None
  with assms show ?thesis by (auto simp: best_of_def split: option.splits)
next
  case (Some m)
  with assms(1) have m: "m \<in> C" "\<forall>c\<in>C. rank c \<le> rank m"
    by (auto simp: best_of_def)
  with assms(2) obtain n where n: "w = Some n" "n \<in> C" "\<forall>c\<in>C. rank c \<le> rank n"
    by (auto simp: best_of_def split: option.splits)
  have "rank m = rank n" using m n by (auto intro: order.antisym)
  with m n assms(3) Some show ?thesis by simp
qed

locale newest_wins =
  fixes view :: "'s \<Rightarrow> 'k \<Rightarrow> 'e option"
    and key :: "'e \<Rightarrow> 'k"
    and wins :: "'e \<Rightarrow> 'e \<Rightarrow> bool"
    and offer :: "'e \<Rightarrow> 's \<Rightarrow> 's"
  assumes view_offer:
    "view (offer e s) = (view s)(key e :=
       (case view s (key e) of None \<Rightarrow> Some e | Some x \<Rightarrow> if wins e x then Some e else Some x))"
begin

text \<open>Every stored item is stored under its own key.\<close>
definition keyed :: "'s \<Rightarrow> bool" where
  "keyed s \<longleftrightarrow> (\<forall>k x. view s k = Some x \<longrightarrow> key x = k)"

lemma keyed_offer: "keyed s \<Longrightarrow> keyed (offer e s)"
  by (auto simp: keyed_def view_offer split: option.splits if_splits)

lemma keyed_offers: "keyed s \<Longrightarrow> keyed (fold offer es s)"
  by (induction es arbitrary: s) (auto intro: keyed_offer)

lemma offer_other: "k \<noteq> key e \<Longrightarrow> view (offer e s) k = view s k"
  by (simp add: view_offer)

lemma offers_other: "k \<notin> key ` set es \<Longrightarrow> view (fold offer es s) k = view s k"
  by (induction es arbitrary: s) (auto simp: offer_other)

lemma offers_present:
  "view (fold offer es s) k = None \<longleftrightarrow> view s k = None \<and> k \<notin> key ` set es"
  by (induction es arbitrary: s) (auto simp: view_offer split: option.splits)

text \<open>What is stored was there before or was offered.\<close>
lemma offers_source:
  "view (fold offer es s) k = Some x \<Longrightarrow> view s k = Some x \<or> (x \<in> set es \<and> key x = k)"
proof (induction es arbitrary: s)
  case Nil
  then show ?case by simp
next
  case (Cons e es)
  from Cons.IH [of "offer e s"] Cons.prems
  have "view (offer e s) k = Some x \<or> (x \<in> set es \<and> key x = k)" by simp
  then show ?case
    by (auto simp: view_offer split: if_splits option.splits)
qed

definition contenders :: "'e list \<Rightarrow> 's \<Rightarrow> 'k \<Rightarrow> 'e set" where
  "contenders es s k = {e \<in> set es. key e = k} \<union> set_option (view s k)"

lemma offers_best:
  assumes "ranked_on rank wins key S" "keyed s" "set es \<union> ran (view s) \<subseteq> S"
  shows "best_of rank (contenders es s k) (view (fold offer es s) k)"
  using assms(2,3)
proof (induction es arbitrary: s)
  case Nil
  then show ?case
    by (auto simp: best_of_def contenders_def split: option.splits)
next
  case (Cons e es)
  have ran: "ran (view (offer e s)) \<subseteq> insert e (ran (view s))"
    by (auto simp: view_offer ran_def split: if_splits option.splits)
  have IH: "best_of rank (contenders es (offer e s) k) (view (fold offer es (offer e s)) k)"
    using Cons.prems ran by (intro Cons.IH) (auto intro: keyed_offer)
  show ?case
  proof (cases "key e = k \<and> view s k \<noteq> None")
    case False
    then have "contenders es (offer e s) k = contenders (e # es) s k"
      by (auto simp: contenders_def view_offer split: option.splits if_splits)
    with IH show ?thesis by simp
  next
    case True
    then obtain x where x: "view s k = Some x" and k: "key e = k" by auto
    have w: "wins e x \<longleftrightarrow> rank x < rank e"
      using Cons.prems x k by (intro ranked_onD(1) [OF assms(1)]) (auto simp: keyed_def ran_def)
    let ?m = "if wins e x then e else x"
    have C: "contenders es (offer e s) k = insert ?m {e \<in> set es. key e = k}"
      using x k by (auto simp: contenders_def view_offer)
    have C': "contenders (e # es) s k = insert e (insert x {e \<in> set es. key e = k})"
      using x k by (auto simp: contenders_def)
    show ?thesis
      using IH w unfolding C C' by (auto simp: best_of_def split: option.splits if_splits)
  qed
qed

text \<open>
  Strong eventual consistency: two replicas with the same starting view that were offered the
  same set of items, in whatever order and however often, have the same view.
\<close>
lemma offers_converge:
  assumes "ranked_on rank wins key S" "keyed s" "keyed t" "view s = view t"
    and "set es = set es'" "set es \<union> ran (view s) \<subseteq> S"
  shows "view (fold offer es s) = view (fold offer es' t)"
proof
  fix k
  have C: "contenders es' t k = contenders es s k"
    using assms(4,5) by (simp add: contenders_def)
  have inS: "contenders es s k \<subseteq> S"
    using assms(6) by (auto simp: contenders_def ran_def)
  have keys: "key c = k" if "c \<in> contenders es s k" for c
    using that assms(2) by (auto simp: contenders_def keyed_def)
  show "view (fold offer es s) k = view (fold offer es' t) k"
  proof (rule best_of_unique)
    show "best_of rank (contenders es s k) (view (fold offer es s) k)"
      using assms by (intro offers_best [OF assms(1)]) auto
    show "best_of rank (contenders es s k) (view (fold offer es' t) k)"
      unfolding C [symmetric] using assms by (intro offers_best [OF assms(1)]) auto
  qed (use inS keys ranked_onD(2) [OF assms(1)] in \<open>metis subsetD\<close>)
qed

text \<open>
  A batch with one item per key: each key sees at most one offer, so the order of the batch does
  not matter.
\<close>
lemma offers_distinct:
  assumes "distinct (map key es)"
  shows "view (fold offer es s) k =
     (case find (\<lambda>e. key e = k) es of
        None \<Rightarrow> view s k
      | Some e \<Rightarrow> view (offer e s) k)"
  using assms
proof (induction es arbitrary: s)
  case Nil
  then show ?case by simp
next
  case (Cons e es)
  show ?case
  proof (cases "key e = k")
    case True
    then have "k \<notin> key ` set es"
      using Cons.prems by auto
    with True show ?thesis by (simp add: offers_other)
  next
    case False
    have IH: "view (fold offer es (offer e s)) k =
        (case find (\<lambda>e. key e = k) es of
           None \<Rightarrow> view (offer e s) k
         | Some x \<Rightarrow> view (offer x (offer e s)) k)"
      using Cons.prems by (intro Cons.IH) simp
    show ?thesis
    proof (cases "find (\<lambda>e. key e = k) es")
      case None
      with False IH show ?thesis by (simp add: offer_other)
    next
      case (Some x)
      then have "key x = k" by (auto simp: find_Some_iff)
      with Some False IH show ?thesis by (simp add: view_offer)
    qed
  qed
qed

text \<open>Offering again what is stored, or what lost, changes nothing.\<close>
lemma offer_idem: "\<not> wins e e \<Longrightarrow> view (offer e (offer e s)) = view (offer e s)"
  by (auto simp: view_offer fun_eq_iff split: option.splits)

end


text \<open>
  Reconciliation by digests, on top of a newest-wins store whose items win by a stamp: a store
  describes its content by a digest, another store answers with the items the digest lacks or has
  older versions of, and the first store merges them.
\<close>
locale digest_sync = newest_wins view key wins offer
  for view :: "'s \<Rightarrow> 'k \<Rightarrow> 'e option" and key :: "'e \<Rightarrow> 'k" and wins :: "'e \<Rightarrow> 'e \<Rightarrow> bool"
    and offer :: "'e \<Rightarrow> 's \<Rightarrow> 's" +
  fixes stamp :: "'e \<Rightarrow> 'o::linorder"
    and digest :: "'s \<Rightarrow> 'd"
    and diff :: "'s \<Rightarrow> 'd \<Rightarrow> 'e list"
    and absorb :: "'e list \<Rightarrow> 's \<Rightarrow> 's"
  assumes wins_stamp: "wins e x \<longleftrightarrow> stamp x < stamp e"
    and view_absorb: "view (absorb es s) = view (fold offer es s)"
    and diff_spec: "keyed a \<Longrightarrow> keyed b \<Longrightarrow>
          e \<in> set (diff a (digest b)) \<longleftrightarrow>
            view a (key e) = Some e
            \<and> (\<forall>x. view b (key e) = Some x \<longrightarrow> stamp x < stamp e)"
    and diff_distinct: "keyed a \<Longrightarrow> distinct (map key (diff a d))"
begin

text \<open>One round: \<open>b\<close> sends its digest to \<open>a\<close> and merges the answer.\<close>
definition round :: "'s \<Rightarrow> 's \<Rightarrow> 's" where
  "round a b = absorb (diff a (digest b)) b"

text \<open>The newer of two optional items, the second one when neither is newer.\<close>
definition newer :: "'e option \<Rightarrow> 'e option \<Rightarrow> 'e option" where
  "newer u v = (case u of None \<Rightarrow> v | Some e \<Rightarrow>
     (case v of None \<Rightarrow> Some e | Some x \<Rightarrow> if stamp x < stamp e then Some e else Some x))"

lemma keyed_absorb: "keyed s \<Longrightarrow> keyed (absorb es s)"
  using keyed_offers [of s es] by (simp add: keyed_def view_absorb)

lemma keyed_round: "keyed b \<Longrightarrow> keyed (round a b)"
  by (simp add: round_def keyed_absorb)

lemma round_view:
  assumes "keyed a" "keyed b"
  shows "view (round a b) k = newer (view a k) (view b k)"
proof (cases "find (\<lambda>e. key e = k) (diff a (digest b))")
  case None
  then have "\<not> (\<exists>e\<in>set (diff a (digest b)). key e = k)"
    by (simp add: find_None_iff)
  moreover have "key e = k" if "view a k = Some e" for e
    using assms(1) that by (simp add: keyed_def)
  ultimately show ?thesis
    using None assms offers_distinct [OF diff_distinct [OF assms(1)], of "digest b" b k]
    by (auto simp: round_def view_absorb newer_def diff_spec split: option.splits)
next
  case (Some e)
  then have "e \<in> set (diff a (digest b))" "key e = k"
    by (auto simp: find_Some_iff)
  with Some assms offers_distinct [OF diff_distinct [OF assms(1)], of "digest b" b k] show ?thesis
    by (auto simp: round_def view_absorb newer_def diff_spec view_offer wins_stamp split: option.splits)
qed

lemma round_covers:
  assumes "keyed a" "keyed b" "view a k = Some e"
  shows "\<exists>x. view (round a b) k = Some x \<and> stamp e \<le> stamp x"
  using assms by (auto simp: round_view newer_def not_less split: option.splits)

text \<open>After a round a second one with the same partner has nothing to send.\<close>
lemma round_settles:
  assumes "keyed a" "keyed b"
  shows "diff a (digest (round a b)) = []"
proof -
  have "e \<notin> set (diff a (digest (round a b)))" for e
    using round_covers [OF assms, of "key e" e] assms
    by (auto simp: diff_spec keyed_round)
  then show ?thesis by (metis list.set_intros(1) neq_Nil_conv)
qed

text \<open>After a round in each direction both stores hold the same stamps.\<close>
lemma rounds_agree:
  assumes "keyed a" "keyed b"
  shows "map_option stamp (view (round (round a b) a) k) = map_option stamp (view (round a b) k)"
  using assms by (auto simp: round_view keyed_round newer_def not_less split: option.splits)

end

end
