(* ===== verification/Events.thy ===== *)
theory Events
  imports Prelude
begin

text \<open>
  The event bus (\<open>p2p/src/events.rs\<close>). \<open>Event\<close> is the datatype of the source. The bus is a tokio
  broadcast channel, whose operations are the parameters \<open>broadcast_lib\<close>; what its \<open>send\<close> answers
  (\<open>Ok\<close> of the number of receivers, or an error when there is none) is the argument \<open>bcast\<close> of \<open>emit\<close>. Every other component ignores the
  number \<open>emit\<close> returns, so its operations return the list of the events they emit, in order.
\<close>

datatype event =
    PeerAnnounced string string     \<comment> \<open>\<open>agent_id\<close>, \<open>mesh_id\<close>\<close>
  | PeerDeparted string string      \<comment> \<open>\<open>agent_id\<close>, \<open>mesh_id\<close>\<close>
  | SignalReceived string string    \<comment> \<open>\<open>from\<close>, \<open>to\<close>\<close>
  | RoomJoined string string        \<comment> \<open>\<open>agent_id\<close>, \<open>room_id\<close>\<close>
  | RoomLeft string string          \<comment> \<open>\<open>agent_id\<close>, \<open>room_id\<close>\<close>
  | PeerAuthenticated string string \<comment> \<open>\<open>agent_id\<close>, \<open>mesh_id\<close>\<close>
  | PeerAuthFailed string string    \<comment> \<open>\<open>agent_id\<close>, \<open>reason\<close>\<close>
  | ChannelEstablished string string \<comment> \<open>\<open>from\<close>, \<open>to\<close>\<close>
  | RoomStateChanged string string string \<comment> \<open>\<open>room_id\<close>, \<open>key\<close>, \<open>author\<close>\<close>
  | PatchReady string string        \<comment> \<open>\<open>mesh_id\<close>, \<open>description\<close>\<close>

definition DEFAULT_CAPACITY :: nat where
  "DEFAULT_CAPACITY = 256"

text \<open>\<open>broadcast::channel\<close> (its sender) and \<open>Sender::subscribe\<close>.\<close>
record ('ch, 'rx) broadcast_lib =
  bc_channel :: "nat \<Rightarrow> 'ch"
  bc_subscribe :: "'ch \<Rightarrow> 'ch \<times> 'rx"

record 'ch event_bus =
  eb_tx :: 'ch

definition event_bus_new :: "('ch, 'rx) broadcast_lib \<Rightarrow> nat \<Rightarrow> 'ch event_bus" where
  "event_bus_new lib capacity = \<lparr>eb_tx = bc_channel lib capacity\<rparr>"

definition event_bus_default :: "('ch, 'rx) broadcast_lib \<Rightarrow> 'ch event_bus" where
  "event_bus_default lib = event_bus_new lib DEFAULT_CAPACITY"

definition event_bus_subscribe ::
    "('ch, 'rx) broadcast_lib \<Rightarrow> 'ch event_bus \<Rightarrow> 'ch event_bus \<times> 'rx" where
  "event_bus_subscribe lib self =
     (let (tx, rx) = bc_subscribe lib (eb_tx self) in (self\<lparr>eb_tx := tx\<rparr>, rx))"

definition emit :: "(event \<Rightarrow> nat option) \<Rightarrow> event \<Rightarrow> nat" where
  "emit bcast ev = unwrap_or (bcast ev) 0"

definition emit_patch_ready :: "(event \<Rightarrow> nat option) \<Rightarrow> string \<Rightarrow> string \<Rightarrow> nat" where
  "emit_patch_ready bcast mesh_id description = emit bcast (PatchReady mesh_id description)"

end
