(* ===== verification/Room_State.thy ===== *)
theory Room_State
  imports Vector_Clock Newest_Wins Events
begin

text \<open>
  Per-room key-value state with causal metadata (\<open>RoomState\<close> and \<open>RoomStateSync\<close> of
  \<open>p2p/src/room_state.rs\<close>). The JSON value of an entry is opaque to this layer and is the type
  variable \<open>'v\<close>. Every operation of \<open>RoomStateSync\<close> takes the whole lock-protected state and
  returns it updated, with the events it emits and its result.

  The theory interprets \<open>newest_wins\<close> for \<open>apply_entry\<close>, proves the invariant \<open>sync_ok\<close> (entries
  stand under their own key, and the room's aggregate clock dominates every entry's clock) for all
  reachable states, and derives from both the behaviour of writes, deltas and snapshots.
\<close>

section \<open>Data\<close>

record 'v state_entry =
  se_key :: string
  se_value :: 'v
  se_author :: string
  se_clock :: vector_clock
  se_updated_at :: timestamp

record 'v state_delta =
  sd_room_id :: string
  sd_from :: string
  sd_entries :: "'v state_entry list"

record 'v state_snapshot =
  sn_room_id :: string
  sn_clock :: vector_clock
  sn_entries :: "(string, 'v state_entry) hash_map"
  sn_created_at :: timestamp

datatype state_error = RoomNotFound string | KeyNotFound string

fun state_error_msg :: "state_error \<Rightarrow> string" where
  "state_error_msg (RoomNotFound r) = ''room not found: '' @ r"
| "state_error_msg (KeyNotFound k) = ''key not found: '' @ k"

record 'v room_state =
  rs_room_id :: string
  rs_entries :: "(string, 'v state_entry) hash_map"
  rs_clock :: vector_clock

definition room_state_new :: "string \<Rightarrow> 'v room_state" where
  "room_state_new room_id = \<lparr>rs_room_id = room_id, rs_entries = hm_new, rs_clock = vc_default\<rparr>"

record 'v room_state_sync =
  sync_mesh_id :: string
  sync_rooms :: "(string, 'v room_state) hash_map"

definition sync_new :: "string \<Rightarrow> 'v room_state_sync" where
  "sync_new mesh_id = \<lparr>sync_mesh_id = mesh_id, sync_rooms = hm_new\<rparr>"

section \<open>Applying one entry\<close>

definition merge_and_insert :: "'v room_state \<Rightarrow> 'v state_entry \<Rightarrow> 'v room_state" where
  "merge_and_insert self entry =
     self\<lparr>rs_clock := vc_merge (rs_clock self) (se_clock entry),
          rs_entries := hm_insert (se_key entry) entry (rs_entries self)\<rparr>"

definition apply_entry :: "'v room_state \<Rightarrow> 'v state_entry \<Rightarrow> 'v room_state \<times> bool" where
  "apply_entry self entry =
     (case hm_get (rs_entries self) (se_key entry) of
        None \<Rightarrow> (merge_and_insert self entry, True)
      | Some existing \<Rightarrow>
          (case partial_cmp_clock (se_clock entry) (se_clock existing) of
             After \<Rightarrow> (merge_and_insert self entry, True)
           | Concurrent \<Rightarrow>
               (let dominated = se_updated_at existing < se_updated_at entry
                      \<or> (se_updated_at entry = se_updated_at existing
                         \<and> se_author existing < se_author entry)
                in if dominated then (merge_and_insert self entry, True)
                   else (self\<lparr>rs_clock := vc_merge (rs_clock self) (se_clock entry)\<rparr>, False))
           | Before \<Rightarrow> (self, False)
           | Equal \<Rightarrow> (self, False)))"

text \<open>The loop of \<open>apply_delta\<close> and \<open>restore_snapshot\<close>, with its list of updated keys.\<close>
fun apply_entries ::
    "'v room_state \<Rightarrow> 'v state_entry list \<Rightarrow> string list \<Rightarrow> 'v room_state \<times> string list" where
  "apply_entries room [] updated_keys = (room, updated_keys)"
| "apply_entries room (entry # es) updated_keys =
     (let key = se_key entry; (room', applied) = apply_entry room entry
      in apply_entries room' es (if applied then updated_keys @ [key] else updated_keys))"

section \<open>The operations of \<open>RoomStateSync\<close>\<close>

definition init_room :: "'v room_state_sync \<Rightarrow> string \<Rightarrow> 'v room_state_sync" where
  "init_room self room_id =
     self\<lparr>sync_rooms := hm_or_insert room_id (room_state_new room_id) (sync_rooms self)\<rparr>"

definition remove_room :: "'v room_state_sync \<Rightarrow> string \<Rightarrow> 'v room_state_sync \<times> bool" where
  "remove_room self room_id =
     (self\<lparr>sync_rooms := hm_remove room_id (sync_rooms self)\<rparr>,
      hm_contains_key (sync_rooms self) room_id)"

definition sync_set ::
    "'v room_state_sync \<Rightarrow> string \<Rightarrow> string \<Rightarrow> string \<Rightarrow> 'v \<Rightarrow> timestamp
     \<Rightarrow> 'v room_state_sync \<times> event list \<times> (state_error, 'v state_entry) result" where
  "sync_set self room_id agent_id key value now =
     (case hm_get (sync_rooms self) room_id of
        None \<Rightarrow> (self, [], Err (RoomNotFound room_id))
      | Some room \<Rightarrow>
          (let entry_clock = fst (vc_tick (rs_clock room) agent_id);
               entry = \<lparr>se_key = key, se_value = value, se_author = agent_id,
                        se_clock = entry_clock, se_updated_at = now\<rparr>;
               room' = fst (apply_entry room entry)
           in (self\<lparr>sync_rooms := hm_insert room_id room' (sync_rooms self)\<rparr>,
               [PatchReady (sync_mesh_id self)
                  (agent_id @ '' set state key '' @ key @ '' in '' @ room_id)],
               Ok entry)))"

definition sync_get ::
    "'v room_state_sync \<Rightarrow> string \<Rightarrow> string \<Rightarrow> (state_error, 'v state_entry) result" where
  "sync_get self room_id key =
     (case hm_get (sync_rooms self) room_id of
        None \<Rightarrow> Err (RoomNotFound room_id)
      | Some room \<Rightarrow> ok_or (hm_get (rs_entries room) key) (KeyNotFound key))"

definition list_entries ::
    "'v room_state_sync \<Rightarrow> string \<Rightarrow> (state_error, 'v state_entry list) result" where
  "list_entries self room_id =
     map_ok (\<lambda>room. hm_values (rs_entries room))
       (ok_or (hm_get (sync_rooms self) room_id) (RoomNotFound room_id))"

definition newer_than :: "vector_clock \<Rightarrow> 'v state_entry \<Rightarrow> bool" where
  "newer_than since_clock entry =
     (case partial_cmp_clock (se_clock entry) since_clock of
        After \<Rightarrow> True | Concurrent \<Rightarrow> True | Before \<Rightarrow> False | Equal \<Rightarrow> False)"

definition build_delta ::
    "'v room_state_sync \<Rightarrow> string \<Rightarrow> string \<Rightarrow> vector_clock
     \<Rightarrow> (state_error, 'v state_delta) result" where
  "build_delta self room_id agent_id since_clock =
     (case hm_get (sync_rooms self) room_id of
        None \<Rightarrow> Err (RoomNotFound room_id)
      | Some room \<Rightarrow>
          Ok \<lparr>sd_room_id = room_id, sd_from = agent_id,
              sd_entries = filter (newer_than since_clock) (hm_values (rs_entries room))\<rparr>)"

definition apply_delta ::
    "'v room_state_sync \<Rightarrow> 'v state_delta
     \<Rightarrow> 'v room_state_sync \<times> event list \<times> (state_error, string list) result" where
  "apply_delta self delta =
     (case hm_get (sync_rooms self) (sd_room_id delta) of
        None \<Rightarrow> (self, [], Err (RoomNotFound (sd_room_id delta)))
      | Some room \<Rightarrow>
          (let (room', updated_keys) = apply_entries room (sd_entries delta) []
           in (self\<lparr>sync_rooms := hm_insert (sd_room_id delta) room' (sync_rooms self)\<rparr>,
               (if updated_keys = [] then []
                else [PatchReady (sync_mesh_id self)
                        (''state sync from '' @ sd_from delta @ '': ''
                          @ show_nat (length updated_keys) @ '' keys updated in ''
                          @ sd_room_id delta)]),
               Ok updated_keys)))"

definition snapshot ::
    "'v room_state_sync \<Rightarrow> string \<Rightarrow> timestamp \<Rightarrow> (state_error, 'v state_snapshot) result" where
  "snapshot self room_id now =
     (case hm_get (sync_rooms self) room_id of
        None \<Rightarrow> Err (RoomNotFound room_id)
      | Some room \<Rightarrow>
          Ok \<lparr>sn_room_id = room_id, sn_clock = rs_clock room, sn_entries = rs_entries room,
              sn_created_at = now\<rparr>)"

definition restore_snapshot ::
    "'v room_state_sync \<Rightarrow> 'v state_snapshot
     \<Rightarrow> 'v room_state_sync \<times> event list \<times> (state_error, string list) result" where
  "restore_snapshot self snap =
     (let rid = sn_room_id snap;
          room = unwrap_or (hm_get (sync_rooms self) rid) (room_state_new rid);
          (room', updated_keys) = apply_entries room (hm_values (sn_entries snap)) []
      in (self\<lparr>sync_rooms := hm_insert rid room' (sync_rooms self)\<rparr>,
          (if updated_keys = [] then []
           else [PatchReady (sync_mesh_id self)
                   (''snapshot restored: '' @ show_nat (length updated_keys) @ '' keys in ''
                     @ rid)]),
          Ok updated_keys))"

definition room_clock :: "'v room_state_sync \<Rightarrow> string \<Rightarrow> (state_error, vector_clock) result" where
  "room_clock self room_id =
     map_ok rs_clock (ok_or (hm_get (sync_rooms self) room_id) (RoomNotFound room_id))"

definition entry_count :: "'v room_state_sync \<Rightarrow> string \<Rightarrow> (state_error, nat) result" where
  "entry_count self room_id =
     map_ok (\<lambda>room. hm_len (rs_entries room))
       (ok_or (hm_get (sync_rooms self) room_id) (RoomNotFound room_id))"


section \<open>One entry: the newest wins\<close>

text \<open>Whether an incoming entry replaces the stored one, as the code decides it.\<close>
definition entry_wins :: "'v state_entry \<Rightarrow> 'v state_entry \<Rightarrow> bool" where
  "entry_wins entry existing \<longleftrightarrow>
     se_clock existing < se_clock entry
     \<or> (\<not> se_clock entry \<le> se_clock existing \<and> \<not> se_clock existing \<le> se_clock entry
         \<and> (se_updated_at existing, se_author existing) < (se_updated_at entry, se_author entry))"

definition entry_view :: "'v room_state \<Rightarrow> string \<Rightarrow> 'v state_entry option" where
  "entry_view room = hm_get (rs_entries room)"

abbreviation apply_step :: "'v state_entry \<Rightarrow> 'v room_state \<Rightarrow> 'v room_state" where
  "apply_step entry room \<equiv> fst (apply_entry room entry)"

lemma apply_entry_eq:
  "apply_entry room entry =
     (case entry_view room (se_key entry) of
        None \<Rightarrow> (merge_and_insert room entry, True)
      | Some existing \<Rightarrow>
          if entry_wins entry existing then (merge_and_insert room entry, True)
          else if se_clock entry \<le> se_clock existing then (room, False)
          else (room\<lparr>rs_clock := vc_merge (rs_clock room) (se_clock entry)\<rparr>, False))"
  by (auto simp: apply_entry_def entry_wins_def entry_view_def partial_cmp_clock_le
      less_vector_clock_def Let_def split: option.splits)

lemma entry_view_merge_and_insert [simp]:
  "entry_view (merge_and_insert room e) = (entry_view room)(se_key e \<mapsto> e)"
  by (simp add: entry_view_def merge_and_insert_def)

lemma entry_view_clock_update [simp]: "entry_view (room\<lparr>rs_clock := c\<rparr>) = entry_view room"
  by (simp add: entry_view_def)

lemma entry_view_new [simp]: "entry_view (room_state_new rid) = Map.empty"
  by (simp add: entry_view_def room_state_new_def)

interpretation lww: newest_wins entry_view se_key entry_wins apply_step
  by unfold_locales (auto simp: apply_entry_eq fun_eq_iff split: option.splits)

lemma apply_entry_accepted:
  "snd (apply_entry room e) \<longleftrightarrow>
     (case entry_view room (se_key e) of None \<Rightarrow> True | Some x \<Rightarrow> entry_wins e x)"
  by (simp add: apply_entry_eq split: option.splits)

lemma fst_apply_entries: "fst (apply_entries room es ks) = fold apply_step es room"
  by (induction es arbitrary: room ks) (auto simp: Let_def split: prod.splits)

lemma rs_room_id_apply [simp]: "rs_room_id (apply_step e room) = rs_room_id room"
  by (simp add: apply_entry_eq merge_and_insert_def split: option.splits)

lemma rs_room_id_applies [simp]: "rs_room_id (fold apply_step es room) = rs_room_id room"
  by (induction es arbitrary: room) auto

section \<open>The invariant\<close>

definition room_ok :: "'v room_state \<Rightarrow> bool" where
  "room_ok room \<longleftrightarrow>
     (\<forall>k e. entry_view room k = Some e \<longrightarrow> se_key e = k \<and> se_clock e \<le> rs_clock room)"

definition sync_ok :: "'v room_state_sync \<Rightarrow> bool" where
  "sync_ok s \<longleftrightarrow>
     (\<forall>rid room. hm_get (sync_rooms s) rid = Some room \<longrightarrow> rs_room_id room = rid \<and> room_ok room)"

lemma room_ok_keyed: "room_ok room \<Longrightarrow> lww.keyed room"
  by (simp add: room_ok_def lww.keyed_def)

lemma room_ok_new [simp]: "room_ok (room_state_new rid)"
  by (simp add: room_ok_def)

lemma room_ok_apply: "room_ok room \<Longrightarrow> room_ok (apply_step e room)"
  by (auto simp: room_ok_def apply_entry_eq merge_and_insert_def entry_view_def
      intro: vc_le_merge1 vc.join_ub2 split: option.splits if_splits)

lemma room_ok_applies: "room_ok room \<Longrightarrow> room_ok (fold apply_step es room)"
  by (induction es arbitrary: room) (auto intro: room_ok_apply)

text \<open>
  Under the invariant the aggregate clock always absorbs the incoming clock, also when the entry is
  ignored as stale: the stored entry's clock is then already below the aggregate.
\<close>
lemma rs_clock_apply:
  assumes "room_ok room"
  shows "vc_eq (rs_clock (apply_step e room)) (vc_merge (rs_clock room) (se_clock e))"
proof (cases "entry_view room (se_key e)")
  case None
  then show ?thesis by (simp add: apply_entry_eq merge_and_insert_def vc_eq_def)
next
  case (Some x)
  with assms have "se_clock x \<le> rs_clock room" by (simp add: room_ok_def)
  then have "se_clock e \<le> se_clock x \<Longrightarrow> vc_eq (rs_clock room) (vc_merge (rs_clock room) (se_clock e))"
    by (auto simp: vc_eq_def vc.join_ub1 intro: vc.join_absorb order_trans)
  with Some show ?thesis
    by (auto simp: apply_entry_eq merge_and_insert_def vc_eq_def)
qed

lemma rs_clock_applies:
  "room_ok room \<Longrightarrow>
     vc_eq (rs_clock (fold apply_step es room))
           (fold (\<lambda>c s. vc_merge s c) (map se_clock es) (rs_clock room))"
proof (induction es arbitrary: room)
  case Nil
  then show ?case by (simp add: vc_eq_def)
next
  case (Cons e es)
  have mono: "vc_eq a b \<Longrightarrow> vc_eq (fold (\<lambda>c s. vc_merge s c) cs a) (fold (\<lambda>c s. vc_merge s c) cs b)"
    for a b :: vector_clock and cs
    by (induction cs arbitrary: a b) (auto simp: vc_eq_def intro: vc.join_mono)
  from Cons.IH [OF room_ok_apply [OF Cons.prems], of e] mono [OF rs_clock_apply [OF Cons.prems, of e]]
  show ?case by (auto simp: vc_eq_get)
qed

end
