(* ===== verification/Room_Sync.thy ===== *)
theory Room_Sync
  imports Room_State
begin

text \<open>
  What the room state promises (the properties of \<open>RoomStateSync\<close>): the invariant in every
  reachable state, read-your-writes, convergence of replicas, what a delta and a snapshot carry,
  and where the code falls short of it (clock skew, a wrapped counter, a missed update).
\<close>

section \<open>Steps and reachable states\<close>

inductive sync_step :: "'v room_state_sync \<Rightarrow> 'v room_state_sync \<Rightarrow> bool" where
  step_init: "sync_step s (init_room s rid)"
| step_remove: "sync_step s (fst (remove_room s rid))"
| step_set: "sync_step s (fst (sync_set s rid agent key v now))"
| step_delta: "sync_step s (fst (apply_delta s d))"
| step_restore: "sync_step s (fst (restore_snapshot s snap))"

inductive sync_reachable :: "string \<Rightarrow> 'v room_state_sync \<Rightarrow> bool" for mesh where
  sync_start: "sync_reachable mesh (sync_new mesh)"
| sync_next: "sync_reachable mesh s \<Longrightarrow> sync_step s t \<Longrightarrow> sync_reachable mesh t"

lemmas sync_ops = init_room_def remove_room_def sync_set_def apply_delta_def restore_snapshot_def

text \<open>What each operation leaves of the rooms.\<close>

lemma rooms_init_room:
  "hm_get (sync_rooms (init_room s rid)) rid' =
     (if rid' = rid then Some (unwrap_or (hm_get (sync_rooms s) rid) (room_state_new rid))
      else hm_get (sync_rooms s) rid')"
  by (simp add: init_room_def)

lemma rooms_sync_set:
  assumes "hm_get (sync_rooms s) rid = Some room"
  shows "hm_get (sync_rooms (fst (sync_set s rid agent key v now))) =
     (hm_get (sync_rooms s))(rid \<mapsto> apply_step
        \<lparr>se_key = key, se_value = v, se_author = agent,
         se_clock = fst (vc_tick (rs_clock room) agent), se_updated_at = now\<rparr> room)"
  using assms by (simp add: sync_set_def Let_def)

lemma rooms_apply_delta:
  assumes "hm_get (sync_rooms s) (sd_room_id d) = Some room"
  shows "hm_get (sync_rooms (fst (apply_delta s d))) =
     (hm_get (sync_rooms s))(sd_room_id d \<mapsto> fold apply_step (sd_entries d) room)"
  using assms by (simp add: apply_delta_def fst_apply_entries case_prod_beta)

lemma rooms_restore_snapshot:
  "hm_get (sync_rooms (fst (restore_snapshot s snap))) =
     (hm_get (sync_rooms s))(sn_room_id snap \<mapsto>
        fold apply_step (hm_values (sn_entries snap))
          (unwrap_or (hm_get (sync_rooms s) (sn_room_id snap)) (room_state_new (sn_room_id snap))))"
  by (simp add: restore_snapshot_def Let_def fst_apply_entries case_prod_beta)

lemmas rooms_after = rooms_init_room rooms_sync_set rooms_apply_delta rooms_restore_snapshot

lemma sync_ok_upd:
  assumes "sync_ok s" "rs_room_id room = rid" "room_ok room"
    and "hm_get (sync_rooms t) = (hm_get (sync_rooms s))(rid \<mapsto> room)"
  shows "sync_ok t"
  using assms by (simp add: sync_ok_def)

lemma sync_okD:
  assumes "sync_ok s" "hm_get (sync_rooms s) rid = Some room"
  shows "rs_room_id room = rid" "room_ok room"
  using assms by (auto simp: sync_ok_def)

lemma rs_room_id_new [simp]: "rs_room_id (room_state_new rid) = rid"
  by (simp add: room_state_new_def)

lemma sync_step_ok: "sync_step s t \<Longrightarrow> sync_ok s \<Longrightarrow> sync_ok t"
proof (induction rule: sync_step.induct)
  case (step_init s rid)
  then show ?case
    by (cases "hm_get (sync_rooms s) rid") (auto simp: sync_ok_def rooms_init_room)
next
  case (step_remove s rid)
  then show ?case by (auto simp: sync_ok_def remove_room_def)
next
  case (step_set s rid agent key v now)
  show ?case
  proof (cases "hm_get (sync_rooms s) rid")
    case None
    with step_set show ?thesis by (simp add: sync_set_def)
  next
    case (Some room)
    with step_set show ?thesis
      by (intro sync_ok_upd [OF step_set _ _ rooms_sync_set])
        (auto dest: sync_okD intro: room_ok_apply)
  qed
next
  case (step_delta s d)
  show ?case
  proof (cases "hm_get (sync_rooms s) (sd_room_id d)")
    case None
    with step_delta show ?thesis by (simp add: apply_delta_def)
  next
    case (Some room)
    with step_delta show ?thesis
      by (intro sync_ok_upd [OF step_delta _ _ rooms_apply_delta])
        (auto dest: sync_okD intro: room_ok_applies)
  qed
next
  case (step_restore s snap)
  then show ?case
    by (intro sync_ok_upd [OF step_restore _ _ rooms_restore_snapshot];
        cases "hm_get (sync_rooms s) (sn_room_id snap)")
      (auto dest: sync_okD intro: room_ok_applies)
qed

lemma sync_reachable_ok: "sync_reachable mesh s \<Longrightarrow> sync_ok s"
proof (induction rule: sync_reachable.induct)
  case sync_start
  show ?case by (simp add: sync_ok_def sync_new_def)
next
  case (sync_next s t)
  then show ?case by (blast intro: sync_step_ok)
qed

text \<open>
  C21: In every state reachable from an empty store by the operations of \<open>RoomStateSync\<close>, each
  room is stored under its own id, every entry that \<open>get\<close> returns has the key it was asked for, and
  the room's aggregate vector clock is at least the clock of every stored entry.
\<close>
theorem room_invariant_reachable:
  assumes "sync_reachable mesh s" and "hm_get (sync_rooms s) rid = Some room"
  shows "rs_room_id room = rid \<and>
     (\<forall>k e. sync_get s rid k = Ok e \<longrightarrow>
        se_key e = k \<and> (\<forall>a. vc_get (se_clock e) a \<le> vc_get (rs_clock room) a))"
  using sync_okD [OF sync_reachable_ok [OF assms(1)] assms(2)] assms(2)
  by (auto simp: sync_get_def room_ok_def entry_view_def less_eq_vector_clock_def)

text \<open>A room with one entry, set by an agent.\<close>
theorem room_invariant_reachable_witness:
  "let s = fst (sync_set (init_room (sync_new ''mesh:test'') ''room:a'') ''room:a'' ''agent:alice'' ''x'' (7::nat) 5)
   in \<exists>room e. hm_get (sync_rooms s) ''room:a'' = Some room \<and> rs_room_id room = ''room:a''
     \<and> sync_get s ''room:a'' ''x'' = Ok e \<and> se_key e = ''x'' \<and> vc_get (se_clock e) ''agent:alice'' = 1
     \<and> 1 \<le> vc_get (rs_clock room) ''agent:alice''"
proof -
  let ?start = "init_room (sync_new ''mesh:test'') ''room:a'' :: nat room_state_sync"
  let ?s = "fst (sync_set ?start ''room:a'' ''agent:alice'' ''x'' 7 5)"
  let ?e = "\<lparr>se_key = ''x'', se_value = 7 :: nat, se_author = ''agent:alice'',
    se_clock = fst (vc_tick (rs_clock (room_state_new ''room:a'' :: nat room_state)) ''agent:alice''), se_updated_at = 5\<rparr>"
  have start: "hm_get (sync_rooms ?start) ''room:a'' = Some (room_state_new ''room:a'')"
    by (simp add: rooms_init_room sync_new_def)
  have reach: "sync_reachable ''mesh:test'' ?s"
    by (rule sync_next [OF sync_next [OF sync_start step_init] step_set])
  have room: "hm_get (sync_rooms ?s) ''room:a'' = Some (apply_step ?e (room_state_new ''room:a''))"
    by (simp add: rooms_sync_set [OF start])
  then have get: "sync_get ?s ''room:a'' ''x'' = Ok ?e"
    by (simp add: sync_get_def apply_entry_eq merge_and_insert_def)
  have one: "vc_get (se_clock ?e) ''agent:alice'' = 1"
    by (simp add: vc_get_tick room_state_new_def)
  from room_invariant_reachable [OF reach room] get one room show ?thesis
    unfolding Let_def by metis
qed

section \<open>Writes\<close>

lemma tick_beats_room:
  assumes "room_ok room" "vc_get (rs_clock room) agent \<noteq> - 1"
    and "se_clock e = fst (vc_tick (rs_clock room) agent)"
  shows "entry_view (apply_step e room) = (entry_view room)(se_key e \<mapsto> e)"
proof -
  have "entry_wins e x" if "entry_view room (se_key e) = Some x" for x
  proof -
    have "se_clock x \<le> rs_clock room"
      using assms(1) that by (simp add: room_ok_def)
    also have "rs_clock room < se_clock e"
      using assms(2,3) by (simp add: vc_tick_greater)
    finally show ?thesis by (simp add: entry_wins_def)
  qed
  then show ?thesis
    by (auto simp: apply_entry_eq split: option.splits)
qed

text \<open>
  C22: Read your writes. In a state that satisfies the invariant, \<open>set\<close> on a known room returns
  the entry with the given value and author, its clock is strictly after the room's clock before
  the write, a following \<open>get\<close> of the key returns that entry, and every other key of every room
  reads as before. The writer's counter must not be at the maximum of \<open>u64\<close>.
\<close>
theorem set_then_get:
  assumes "sync_ok s" and "hm_get (sync_rooms s) rid = Some room"
    and "vc_get (rs_clock room) agent \<noteq> - 1"
  shows "\<exists>s' entry. sync_set s rid agent key v now
        = (s', [PatchReady (sync_mesh_id s) (agent @ '' set state key '' @ key @ '' in '' @ rid)],
           Ok entry)
      \<and> se_value entry = v \<and> se_author entry = agent \<and> rs_clock room < se_clock entry
      \<and> sync_get s' rid key = Ok entry
      \<and> (\<forall>rid' key'. (rid', key') \<noteq> (rid, key) \<longrightarrow> sync_get s' rid' key' = sync_get s rid' key')"
proof -
  let ?e = "\<lparr>se_key = key, se_value = v, se_author = agent,
    se_clock = fst (vc_tick (rs_clock room) agent), se_updated_at = now\<rparr>"
  let ?s = "fst (sync_set s rid agent key v now)"
  have view: "hm_get (rs_entries (apply_step ?e room)) = (hm_get (rs_entries room))(key \<mapsto> ?e)"
    using tick_beats_room [of room agent ?e] assms(3) sync_okD(2) [OF assms(1,2)]
    by (simp add: entry_view_def)
  have rooms: "hm_get (sync_rooms ?s) = (hm_get (sync_rooms s))(rid \<mapsto> apply_step ?e room)"
    by (rule rooms_sync_set [OF assms(2)])
  have get: "sync_get ?s rid key = Ok ?e"
    by (simp add: sync_get_def rooms view)
  have others: "sync_get ?s rid' key' = sync_get s rid' key'"
    if "(rid', key') \<noteq> (rid, key)" for rid' key'
    using that assms(2) by (auto simp: sync_get_def rooms view)
  have later: "rs_clock room < se_clock ?e"
    using assms(3) by (simp add: vc_tick_greater)
  have "sync_set s rid agent key v now = (?s,
      [PatchReady (sync_mesh_id s) (agent @ '' set state key '' @ key @ '' in '' @ rid)], Ok ?e)"
    using assms(2) by (simp add: sync_set_def Let_def)
  with get others later show ?thesis
    by (intro exI [of _ ?s] exI [of _ ?e] conjI allI impI) simp_all
qed

theorem set_then_get_witness:
  "\<exists>s' entry. sync_set (init_room (sync_new ''mesh:test'') ''room:a'') ''room:a'' ''agent:alice''
        ''x'' (7::nat) 5
      = (s', [PatchReady ''mesh:test'' ''agent:alice set state key x in room:a''], Ok entry)
    \<and> se_value entry = 7 \<and> sync_get s' ''room:a'' ''x'' = Ok entry"
proof -
  let ?s = "init_room (sync_new ''mesh:test'') ''room:a'' :: nat room_state_sync"
  have "sync_ok ?s"
    by (auto simp: sync_ok_def rooms_init_room sync_new_def)
  moreover have "hm_get (sync_rooms ?s) ''room:a'' = Some (room_state_new ''room:a'')"
    by (simp add: rooms_init_room sync_new_def)
  moreover have "vc_get (rs_clock (room_state_new ''room:a'' :: nat room_state)) ''agent:alice'' \<noteq> - 1"
    by (simp add: room_state_new_def)
  ultimately show ?thesis
    using set_then_get [of ?s "''room:a''" "room_state_new ''room:a''" "''agent:alice''" "''x''" 7 5]
    by (fastforce simp: init_room_def sync_new_def)
qed

text \<open>
  C40: A write whose counter wraps may be lost. If the writer's counter in the room is \<open>u64::MAX\<close>, the tick wraps it
  to 0 and \<open>set\<close> still answers \<open>Ok\<close> with the new value. A following \<open>get\<close> returns that value if the key
  was fresh. If the key had an entry, that entry stays, and the write is lost, exactly when it counts
  everything that the room has counted for the other agents, or when it counts something for the writer
  and its stamp is not below that of the write.
\<close>
theorem set_lost_on_wrapped_counter:
  assumes "sync_ok s" and "hm_get (sync_rooms s) rid = Some room"
    and "vc_get (rs_clock room) agent = - 1"
  shows "\<exists>s' evs entry. sync_set s rid agent key v now = (s', evs, Ok entry)
      \<and> se_value entry = v \<and> vc_get (se_clock entry) agent = 0
      \<and> sync_get s' rid key =
          (case sync_get s rid key of
             Inl _ \<Rightarrow> Ok entry
           | Inr old \<Rightarrow>
               if (\<forall>b. b \<noteq> agent \<longrightarrow> vc_get (rs_clock room) b \<le> vc_get (se_clock old) b)
                 \<or> (vc_get (se_clock old) agent \<noteq> 0
                     \<and> (now, agent) \<le> (se_updated_at old, se_author old))
               then Ok old else Ok entry)"
proof -
  let ?e = "\<lparr>se_key = key, se_value = v, se_author = agent,
    se_clock = fst (vc_tick (rs_clock room) agent), se_updated_at = now\<rparr>"
  let ?s = "fst (sync_set s rid agent key v now)"
  have clock: "vc_get (fst (vc_tick (rs_clock room) agent)) b = (if b = agent then 0 else vc_get (rs_clock room) b)" for b
    using assms(3) by (simp add: vc_get_tick)
  have wins: "entry_wins ?e old \<longleftrightarrow>
      \<not> ((\<forall>b. b \<noteq> agent \<longrightarrow> vc_get (rs_clock room) b \<le> vc_get (se_clock old) b)
         \<or> (vc_get (se_clock old) agent \<noteq> 0 \<and> (now, agent) \<le> (se_updated_at old, se_author old)))"
    if "entry_view room key = Some old" for old
  proof -
    have "se_clock old \<le> rs_clock room"
      using sync_okD(2) [OF assms(1,2)] that by (simp add: room_ok_def)
    then have old: "se_clock old \<le> se_clock ?e \<longleftrightarrow> vc_get (se_clock old) agent = 0"
      by (auto simp: less_eq_vector_clock_def clock dest: spec [of _ agent])
    have new: "se_clock ?e \<le> se_clock old \<longleftrightarrow>
        (\<forall>b. b \<noteq> agent \<longrightarrow> vc_get (rs_clock room) b \<le> vc_get (se_clock old) b)"
      by (auto simp: less_eq_vector_clock_def clock)
    show ?thesis
      unfolding entry_wins_def less_vector_clock_def old new by (auto simp: not_le)
  qed
  have view: "entry_view (apply_step ?e room) key =
      (case entry_view room key of None \<Rightarrow> Some ?e | Some old \<Rightarrow> if entry_wins ?e old then Some ?e else Some old)"
    by (simp add: apply_entry_eq split: option.split)
  have "sync_get ?s rid key = ok_or (entry_view (apply_step ?e room) key) (KeyNotFound key)"
    by (simp add: sync_get_def rooms_sync_set [OF assms(2)] entry_view_def)
  moreover have "sync_get s rid key = ok_or (entry_view room key) (KeyNotFound key)"
    using assms(2) by (simp add: sync_get_def entry_view_def)
  ultimately have "sync_get ?s rid key = (case sync_get s rid key of Inl _ \<Rightarrow> Ok ?e
      | Inr old \<Rightarrow> if (\<forall>b. b \<noteq> agent \<longrightarrow> vc_get (rs_clock room) b \<le> vc_get (se_clock old) b)
            \<or> (vc_get (se_clock old) agent \<noteq> 0 \<and> (now, agent) \<le> (se_updated_at old, se_author old))
          then Ok old else Ok ?e)"
    unfolding view by (cases "entry_view room key") (auto simp: wins)
  moreover have "sync_set s rid agent key v now = (?s, fst (snd (sync_set s rid agent key v now)), Ok ?e)"
    using assms(2) by (simp add: sync_set_def Let_def)
  moreover have "vc_get (se_clock ?e) agent = 0"
    by (simp add: clock)
  ultimately show ?thesis
    by (intro exI [of _ ?s] exI [of _ "fst (snd (sync_set s rid agent key v now))"] exI [of _ ?e]) simp
qed

text \<open>The state is reached by one delta from a remote peer; one key is lost to it, another is not.\<close>
theorem set_lost_on_wrapped_counter_witness:
  "let forged = \<lparr>se_key = ''x'', se_value = ''old'', se_author = ''agent:mallory'',
                 se_clock = VectorClock (hm_insert ''agent:alice'' (- 1) hm_new), se_updated_at = 0\<rparr>;
       s = fst (apply_delta (init_room (sync_new ''mesh:test'') ''room:a'')
             \<lparr>sd_room_id = ''room:a'', sd_from = ''agent:mallory'', sd_entries = [forged]\<rparr>)
   in (\<exists>s' evs entry. sync_set s ''room:a'' ''agent:alice'' ''x'' ''new'' 9 = (s', evs, Ok entry)
        \<and> se_value entry = ''new'' \<and> sync_get s' ''room:a'' ''x'' = Ok forged)
     \<and> (\<exists>s' evs entry. sync_set s ''room:a'' ''agent:alice'' ''y'' ''new'' 9 = (s', evs, Ok entry)
        \<and> se_value entry = ''new'' \<and> sync_get s' ''room:a'' ''y'' = Ok entry)"
proof -
  let ?c = "VectorClock (hm_insert ''agent:alice'' (- 1) hm_new)"
  let ?f = "\<lparr>se_key = ''x'', se_value = ''old'', se_author = ''agent:mallory'',
    se_clock = ?c, se_updated_at = 0\<rparr>"
  let ?room = "merge_and_insert (room_state_new ''room:a'') ?f"
  let ?s = "fst (apply_delta (init_room (sync_new ''mesh:test'') ''room:a'')
    \<lparr>sd_room_id = ''room:a'', sd_from = ''agent:mallory'', sd_entries = [?f]\<rparr>)"
  have r: "hm_get (sync_rooms ?s) ''room:a'' = Some ?room"
    by (simp add: rooms_apply_delta [of _ _ "room_state_new ''room:a''"] rooms_init_room
        sync_new_def apply_entry_eq)
  have "sync_reachable ''mesh:test'' ?s"
    by (rule sync_next [OF sync_next [OF sync_start step_init] step_delta])
  then have ok: "sync_ok ?s" by (rule sync_reachable_ok)
  have clock: "vc_get (rs_clock ?room) b = (if b = ''agent:alice'' then - 1 else 0)" for b
    by (simp add: merge_and_insert_def room_state_new_def) (simp add: vc_get_def)
  have "sync_get ?s ''room:a'' ''x'' = Ok ?f" "sync_get ?s ''room:a'' ''y'' = Err (KeyNotFound ''y'')"
    using r by (simp_all add: sync_get_def merge_and_insert_def room_state_new_def)
  with set_lost_on_wrapped_counter [OF ok r, of "''agent:alice''" "''x''" "''new''" 9]
    set_lost_on_wrapped_counter [OF ok r, of "''agent:alice''" "''y''" "''new''" 9]
  show ?thesis
    unfolding Let_def by (auto simp: clock)
qed

end
