(* ===== verification/Room_Replication.thy ===== *)
theory Room_Replication
  imports Room_Sync
begin

text \<open>
  Replication of room state: convergence of replicas that exchange deltas, the content of a delta,
  what a replica holds after applying one, and the restoration of a snapshot. The proofs are those
  of the locale \<open>newest_wins\<close>, reached through its interpretation \<open>lww\<close> for \<open>apply_entry\<close>.
\<close>

section \<open>Convergence\<close>

text \<open>The tiebreaker of concurrent writes: wall-clock time, then author.\<close>
definition stamp :: "'v state_entry \<Rightarrow> timestamp \<times> string" where
  "stamp e = (se_updated_at e, se_author e)"

text \<open>
  The wall-clock stamps of the writes to a key respect causality: a write that causally follows
  another has a later stamp, and equal clocks or equal stamps mean the same write.
\<close>
definition causal_stamps :: "'v state_entry set \<Rightarrow> bool" where
  "causal_stamps S \<longleftrightarrow>
     (\<forall>a\<in>S. \<forall>b\<in>S. se_key a = se_key b \<longrightarrow>
        (se_clock a < se_clock b \<longrightarrow> stamp a < stamp b)
        \<and> (vc_eq (se_clock a) (se_clock b) \<longrightarrow> a = b)
        \<and> (stamp a = stamp b \<longrightarrow> a = b))"

lemma causal_stamps_ranked:
  assumes "causal_stamps S"
  shows "ranked_on stamp entry_wins se_key S"
proof -
  have "entry_wins a b \<longleftrightarrow> stamp b < stamp a"
    if ab: "a \<in> S" "b \<in> S" "se_key a = se_key b" for a b
  proof -
    note C = assms [unfolded causal_stamps_def, rule_format]
    consider "se_clock b < se_clock a" | "se_clock a < se_clock b"
      | "vc_eq (se_clock a) (se_clock b)"
      | "\<not> se_clock a \<le> se_clock b" "\<not> se_clock b \<le> se_clock a"
      by (auto simp: less_vector_clock_def vc_eq_def)
    then show ?thesis
    proof cases
      case 1
      with C [OF ab(2,1)] ab(3) show ?thesis by (simp add: entry_wins_def)
    next
      case 2
      with C [OF ab] have "stamp a < stamp b" by simp
      with 2 show ?thesis by (auto simp: entry_wins_def less_vector_clock_def)
    next
      case 3
      with C [OF ab] have "a = b" by simp
      then show ?thesis by (simp add: entry_wins_def)
    next
      case 4
      then show ?thesis by (auto simp: entry_wins_def stamp_def less_vector_clock_def)
    qed
  qed
  then show ?thesis
    using assms by (auto simp: ranked_on_def causal_stamps_def)
qed

text \<open>A replica that receives a sequence of deltas.\<close>
definition apply_deltas :: "'v room_state_sync \<Rightarrow> 'v state_delta list \<Rightarrow> 'v room_state_sync" where
  "apply_deltas s ds = fold (\<lambda>d s. fst (apply_delta s d)) ds s"

definition delta_entries :: "'v state_delta list \<Rightarrow> 'v state_entry list" where
  "delta_entries ds = concat (map sd_entries ds)"

lemma rooms_apply_deltas:
  assumes "\<forall>d\<in>set ds. sd_room_id d = rid" "hm_get (sync_rooms s) rid = Some room"
  shows "hm_get (sync_rooms (apply_deltas s ds)) rid = Some (fold apply_step (delta_entries ds) room)"
  using assms
proof (induction ds arbitrary: s room)
  case Nil
  then show ?case by (simp add: apply_deltas_def delta_entries_def)
next
  case (Cons d ds)
  have "hm_get (sync_rooms (fst (apply_delta s d))) rid = Some (fold apply_step (sd_entries d) room)"
    using Cons.prems by (simp add: rooms_apply_delta [of s d room])
  from Cons.IH [OF _ this] Cons.prems(1) show ?case
    by (simp add: apply_deltas_def delta_entries_def)
qed

lemma fresh_replica:
  assumes "\<forall>d\<in>set ds. sd_room_id d = rid"
  shows "hm_get (sync_rooms (apply_deltas (init_room (sync_new mesh) rid) ds)) rid
    = Some (fold apply_step (delta_entries ds) (room_state_new rid))"
  using assms by (rule rooms_apply_deltas) (simp add: rooms_init_room sync_new_def)


text \<open>Three writes of a room: one by \<open>agent:alice\<close>, one that follows it, one concurrent.\<close>

definition write_of :: "string \<Rightarrow> (string \<times> u64) list \<Rightarrow> timestamp \<Rightarrow> string state_entry" where
  "write_of agent counters t =
     \<lparr>se_key = ''x'', se_value = agent, se_author = agent,
      se_clock = VectorClock (hm_collect counters), se_updated_at = t\<rparr>"

definition delta_of :: "string state_entry list \<Rightarrow> string state_delta" where
  "delta_of es = \<lparr>sd_room_id = ''room:a'', sd_from = ''agent:alice'', sd_entries = es\<rparr>"

lemma vc_le_example:
  "VectorClock a \<le> VectorClock b \<longleftrightarrow>
     (\<forall>k\<in>set (hm_keys a). unwrap_or (hm_get a k) 0 \<le> unwrap_or (hm_get b k) 0)"
  by (simp add: vc_le_iff_keys [of "VectorClock a" "hm_keys a"] vc_get_def)


section \<open>Clock skew\<close>

text \<open>The entry \<open>set\<close> makes of a write in a room with the given clock.\<close>
lemma set_returns:
  assumes "hm_get (sync_rooms s) rid = Some room"
  shows "snd (snd (sync_set s rid a k v now)) = Ok \<lparr>se_key = k, se_value = v, se_author = a,
    se_clock = fst (vc_tick (rs_clock room) a), se_updated_at = now\<rparr>"
  using assms by (simp add: sync_set_def Let_def)

lemma late_write_order:
  fixes ea eb ec :: "'v state_entry"
  assumes "se_key ea = k" "se_key eb = k" "se_key ec = k"
    and "se_clock ea < se_clock eb"
    and "\<not> se_clock ec \<le> se_clock ea" "\<not> se_clock ea \<le> se_clock ec"
    and "\<not> se_clock ec \<le> se_clock eb" "\<not> se_clock eb \<le> se_clock ec"
    and "stamp eb < stamp ec" "stamp ec < stamp ea"
  shows "entry_view (fold apply_step [ea, eb, ec] (room_state_new rid)) k = Some ec"
    and "entry_view (fold apply_step [ec, ea, eb] (room_state_new rid)) k = Some eb"
  using assms by (simp_all add: lww.view_offer entry_wins_def stamp_def)

text \<open>
  C35: Without that condition replicas diverge. In any room, let an agent \<open>a\<close> write a key at a time \<open>ta\<close>; let \<open>b\<close>,
  who has received that write, overwrite it, and let a third agent \<open>c\<close>, who has received nothing, write the key
  too. If the clocks show \<open>tb < tc < ta\<close>, that of \<open>a\<close> thus runs ahead of that of \<open>b\<close>, then two replicas that receive these
  three writes, each once, end with different entries: one with that of \<open>c\<close>, the other with that of \<open>b\<close>.
\<close>
theorem clock_skew_diverges:
  fixes u v w :: 'v
  assumes "a \<noteq> c" "b \<noteq> c" and "tb < tc" "tc < ta"
  shows "\<exists>ea eb ec.
     let fresh = init_room (sync_new m) rid;
         deliver = (\<lambda>es. fst (apply_delta fresh \<lparr>sd_room_id = rid, sd_from = a, sd_entries = es\<rparr>))
     in snd (snd (sync_set fresh rid a k u ta)) = Ok ea
      \<and> snd (snd (sync_set (deliver [ea]) rid b k v tb)) = Ok eb
      \<and> snd (snd (sync_set fresh rid c k w tc)) = Ok ec
      \<and> sync_get (deliver [ea, eb, ec]) rid k = Ok ec
      \<and> sync_get (deliver [ec, ea, eb]) rid k = Ok eb
      \<and> se_value ec = w \<and> se_value eb = v"
proof -
  let ?fresh = "init_room (sync_new m) rid :: 'v room_state_sync" and ?new = "room_state_new rid :: 'v room_state"
  define deliver where "deliver = (\<lambda>es. fst (apply_delta ?fresh \<lparr>sd_room_id = rid, sd_from = a, sd_entries = es\<rparr>))"
  define ea where "ea = \<lparr>se_key = k, se_value = u, se_author = a, se_clock = fst (vc_tick (rs_clock ?new) a), se_updated_at = ta\<rparr>"
  define eb where "eb = \<lparr>se_key = k, se_value = v, se_author = b,
    se_clock = fst (vc_tick (rs_clock (apply_step ea ?new)) b), se_updated_at = tb\<rparr>"
  define ec where "ec = \<lparr>se_key = k, se_value = w, se_author = c, se_clock = fst (vc_tick (rs_clock ?new) c), se_updated_at = tc\<rparr>"
  have start: "hm_get (sync_rooms ?fresh) rid = Some ?new"
    by (simp add: rooms_init_room sync_new_def)
  have rooms: "hm_get (sync_rooms (deliver es)) rid = Some (fold apply_step es ?new)" for es
    unfolding deliver_def using rooms_apply_delta [of ?fresh _ ?new] start by simp
  have ca: "vc_get (se_clock ea) x = (if x = a then 1 else 0)"
    and cc: "vc_get (se_clock ec) x = (if x = c then 1 else 0)" for x
    by (simp_all add: ea_def ec_def vc_get_tick room_state_new_def)
  have "vc_get (rs_clock (apply_step ea ?new)) x = vc_get (se_clock ea) x" for x
    by (simp add: apply_entry_eq merge_and_insert_def) (simp add: room_state_new_def)
  then have cb: "vc_get (se_clock eb) x = (if x = b then (if b = a then 2 else 1) else if x = a then 1 else 0)" for x
    by (simp add: eb_def vc_get_tick ca)
  have le: "se_clock ea \<le> se_clock eb"
    by (simp add: less_eq_vector_clock_def ca cb)
  have "\<not> (2 :: u64) \<le> 1"
    by (simp add: word_le_nat_alt)
  then have "\<not> se_clock eb \<le> se_clock ea"
    by (simp add: less_eq_vector_clock_def ca cb)
  with le have "se_clock ea < se_clock eb"
    by (simp add: less_vector_clock_def)
  moreover have "\<not> se_clock ec \<le> se_clock ea" "\<not> se_clock ec \<le> se_clock eb"
    using assms(1,2) by (auto simp: less_eq_vector_clock_def ca cb cc dest: spec [of _ c])
  moreover have "\<not> se_clock ea \<le> se_clock ec" "\<not> se_clock eb \<le> se_clock ec"
    using assms(1,2) by (auto simp: less_eq_vector_clock_def ca cb cc dest: spec [of _ a] spec [of _ b] split: if_splits)
  moreover have "se_key ea = k" "se_key eb = k" "se_key ec = k" "stamp eb < stamp ec" "stamp ec < stamp ea"
    using assms(3,4) by (simp_all add: ea_def eb_def ec_def stamp_def)
  ultimately have "entry_view (fold apply_step [ea, eb, ec] ?new) k = Some ec"
    "entry_view (fold apply_step [ec, ea, eb] ?new) k = Some eb"
    using late_write_order [of ea k eb ec rid] by blast+
  then have "sync_get (deliver [ea, eb, ec]) rid k = Ok ec" "sync_get (deliver [ec, ea, eb]) rid k = Ok eb"
    by (simp_all only: sync_get_def rooms entry_view_def option.case ok_or.simps)
  moreover have "snd (snd (sync_set ?fresh rid a k u ta)) = Ok ea" "snd (snd (sync_set ?fresh rid c k w tc)) = Ok ec"
    "snd (snd (sync_set (deliver [ea]) rid b k v tb)) = Ok eb"
    by (simp_all only: set_returns [OF start] set_returns [OF rooms] ea_def eb_def ec_def fold.simps comp_apply id_apply)
  ultimately show ?thesis
    unfolding Let_def deliver_def
    by (intro exI [of _ ea] exI [of _ eb] exI [of _ ec]) (simp add: eb_def ec_def)
qed

text \<open>Alice, Bob and Carol.\<close>
theorem clock_skew_diverges_witness:
  "\<exists>ea eb ec. let fresh = init_room (sync_new ''m'') ''room:a'';
         deliver = (\<lambda>es. fst (apply_delta fresh \<lparr>sd_room_id = ''room:a'', sd_from = ''agent:alice'', sd_entries = es\<rparr>))
     in snd (snd (sync_set fresh ''room:a'' ''agent:alice'' ''x'' (1::nat) 30)) = Ok ea
      \<and> snd (snd (sync_set (deliver [ea]) ''room:a'' ''agent:bob'' ''x'' 2 10)) = Ok eb
      \<and> snd (snd (sync_set fresh ''room:a'' ''agent:carol'' ''x'' 3 20)) = Ok ec
      \<and> sync_get (deliver [ea, eb, ec]) ''room:a'' ''x'' = Ok ec
      \<and> sync_get (deliver [ec, ea, eb]) ''room:a'' ''x'' = Ok eb
      \<and> se_value ec = 3 \<and> se_value eb = 2"
  by (rule clock_skew_diverges) simp_all

section \<open>Deltas\<close>

lemma newer_than_iff: "newer_than c e \<longleftrightarrow> \<not> se_clock e \<le> c"
  by (simp add: newer_than_def partial_cmp_clock_le)

lemma build_delta_eq:
  assumes "hm_get (sync_rooms s) rid = Some room"
  shows "build_delta s rid agent since = Ok \<lparr>sd_room_id = rid, sd_from = agent,
     sd_entries = filter (\<lambda>e. \<not> se_clock e \<le> since) (hm_values (rs_entries room))\<rparr>"
  using assms by (simp add: build_delta_def newer_than_iff [abs_def])

lemma values_entry_view:
  "room_ok room \<Longrightarrow> e \<in> set (hm_values (rs_entries room)) \<longleftrightarrow> entry_view room (se_key e) = Some e"
  by (auto simp: entry_view_def room_ok_def)

lemma distinct_room_keys:
  assumes "room_ok room"
  shows "map se_key (hm_values (rs_entries room)) = hm_keys (rs_entries room)"
  using assms
  by (auto simp: hm_values_def hm_keys_def room_ok_def entry_view_def hm_entries_iff [symmetric]
      simp del: hm_entries_iff)

lemma find_room_entry:
  assumes "room_ok room"
  shows "find (\<lambda>e. se_key e = k) (filter P (hm_values (rs_entries room))) =
     (case entry_view room k of None \<Rightarrow> None | Some e \<Rightarrow> if P e then Some e else None)"
proof (cases "find (\<lambda>e. se_key e = k) (filter P (hm_values (rs_entries room)))")
  case None
  with assms show ?thesis
    by (auto simp: find_None_iff entry_view_def room_ok_def split: option.splits)
next
  case (Some x)
  then have "x \<in> set (filter P (hm_values (rs_entries room)))" "se_key x = k"
    by (auto simp: find_Some_iff simp del: set_filter)
  then have "entry_view room k = Some x" "P x"
    using values_entry_view [OF assms, of x] by (auto simp del: in_hm_values_iff)
  with Some show ?thesis by simp
qed

text \<open>What a replica holds after a selection of another replica's entries was offered to it.\<close>
lemma view_after_offer:
  assumes "room_ok ra"
  shows "entry_view (fold apply_step (filter P (hm_values (rs_entries ra))) rb) k =
     (case entry_view ra k of
        None \<Rightarrow> entry_view rb k
      | Some e \<Rightarrow> if P e
          then (case entry_view rb k of None \<Rightarrow> Some e
                | Some x \<Rightarrow> if entry_wins e x then Some e else Some x)
          else entry_view rb k)"
proof -
  have "distinct (map se_key (hm_values (rs_entries ra)))"
    using assms by (simp add: distinct_room_keys)
  then have "distinct (map se_key (filter P (hm_values (rs_entries ra))))"
    by (rule distinct_map_filter)
  from lww.offers_distinct [OF this, of rb k] find_room_entry [OF assms, of k P] show ?thesis
    using assms by (auto simp: lww.view_offer room_ok_def split: option.splits)
qed

text \<open>
  The delta built for a clock holds exactly the room's entries whose clock is not covered by
  that clock (those strictly after it or concurrent with it), each once.
\<close>
theorem build_delta_content:
  assumes "sync_ok s" and "hm_get (sync_rooms s) rid = Some room"
  shows "\<exists>d. build_delta s rid agent since = Ok d
     \<and> (\<forall>e. e \<in> set (sd_entries d) \<longleftrightarrow>
            sync_get s rid (se_key e) = Ok e \<and> \<not> (\<forall>a. vc_get (se_clock e) a \<le> vc_get since a))
     \<and> distinct (map se_key (sd_entries d))"
proof -
  note ok = sync_okD(2) [OF assms]
  have "distinct (map se_key (filter P (hm_values (rs_entries room))))" for P
    using ok by (intro distinct_map_filter) (simp add: distinct_room_keys)
  with assms(2) ok show ?thesis
    by (auto simp: build_delta_eq sync_get_def values_entry_view entry_view_def
        less_eq_vector_clock_def simp del: in_hm_values_iff)
qed

text \<open>
  Anti-entropy. When a replica applies the delta another replica built for the first one's
  clock, and nothing is missing (every entry of the sender below the receiver's clock has been
  received and beaten or kept), then for each key the receiver ends with the winner of the two
  replicas' entries, as if the whole state had been sent.
\<close>
theorem delta_sync_catches_up:
  assumes "sync_ok sa" "hm_get (sync_rooms sa) rid = Some ra" "hm_get (sync_rooms sb) rid = Some rb"
    and "build_delta sa rid agent (rs_clock rb) = Ok d"
    and "\<And>k e. entry_view ra k = Some e \<Longrightarrow> se_clock e \<le> rs_clock rb \<Longrightarrow>
           \<exists>x. entry_view rb k = Some x \<and> \<not> entry_wins e x"
  shows "sync_get (fst (apply_delta sb d)) rid k =
     (case (sync_get sa rid k, sync_get sb rid k) of
        (Inl _, _) \<Rightarrow> sync_get sb rid k
      | (Inr e, Inl _) \<Rightarrow> Ok e
      | (Inr e, Inr x) \<Rightarrow> if entry_wins e x then Ok e else Ok x)"
proof -
  note ok = sync_okD(2) [OF assms(1,2)]
  have d: "sd_room_id d = rid"
    "sd_entries d = filter (\<lambda>e. \<not> se_clock e \<le> rs_clock rb) (hm_values (rs_entries ra))"
    using assms(4) by (auto simp: build_delta_eq [OF assms(2)])
  have view: "entry_view (fold apply_step (sd_entries d) rb) k =
     (case entry_view ra k of
        None \<Rightarrow> entry_view rb k
      | Some e \<Rightarrow> (case entry_view rb k of None \<Rightarrow> Some e
                   | Some x \<Rightarrow> if entry_wins e x then Some e else Some x))"
    using assms(5) [of k] unfolding d(2) view_after_offer [OF ok]
    by (fastforce split: option.splits)
  have "hm_get (sync_rooms (fst (apply_delta sb d))) rid = Some (fold apply_step (sd_entries d) rb)"
    using assms(3) d(1) by (simp add: rooms_apply_delta [of sb d rb])
  with view assms(2,3) show ?thesis
    by (simp add: sync_get_def entry_view_def split: option.splits)
qed


text \<open>
  A source replica that wrote \<open>x\<close> and then \<open>y\<close>, and a replica of the same room that received
  the broadcast of the second write only.
\<close>

definition demo_source :: "nat room_state_sync" where
  "demo_source = fst (sync_set (fst (sync_set (init_room (sync_new ''m'') ''room:a'')
     ''room:a'' ''agent:alice'' ''x'' 1 10)) ''room:a'' ''agent:alice'' ''y'' 2 20)"

definition demo_room :: "nat room_state_sync \<Rightarrow> nat room_state" where
  "demo_room s = the (hm_get (sync_rooms s) ''room:a'')"

definition demo_late :: "nat room_state_sync" where
  "demo_late = fst (apply_delta (init_room (sync_new ''m'') ''room:a'')
     \<lparr>sd_room_id = ''room:a'', sd_from = ''agent:alice'',
      sd_entries = [the (entry_view (demo_room demo_source) ''y'')]\<rparr>)"

definition demo_fresh :: "nat room_state_sync" where
  "demo_fresh = init_room (sync_new ''m'') ''room:a''"

lemma demo_ok: "sync_ok demo_source"
  unfolding demo_source_def
  by (rule sync_reachable_ok [of "''m''"])
    (rule sync_next [OF sync_next [OF sync_next [OF sync_start step_init] step_set] step_set])

lemma demo_rooms:
  "hm_get (sync_rooms demo_source) ''room:a'' = Some (demo_room demo_source)"
  "hm_get (sync_rooms demo_late) ''room:a'' = Some (demo_room demo_late)"
  "hm_get (sync_rooms demo_fresh) ''room:a'' = Some (demo_room demo_fresh)"
  by (simp_all add: demo_room_def demo_source_def demo_late_def demo_fresh_def sync_ops sync_new_def
      Let_def case_prod_beta)

theorem build_delta_content_witness:
  "\<exists>d. build_delta demo_source ''room:a'' ''agent:alice'' vc_default = Ok d
     \<and> distinct (map se_key (sd_entries d))"
  using build_delta_content [OF demo_ok demo_rooms(1), of "''agent:alice''" vc_default] by blast

lemma demo_fresh_empty:
  "entry_view (demo_room demo_fresh) = Map.empty" "rs_clock (demo_room demo_fresh) = vc_default"
  by (simp_all add: demo_room_def demo_fresh_def rooms_init_room sync_new_def)
    (simp add: room_state_new_def)

lemma demo_no_old: "entry_view (demo_room demo_source) k = Some e \<Longrightarrow> \<not> se_clock e \<le> vc_default"
proof -
  assume "entry_view (demo_room demo_source) k = Some e"
  then have "e \<in> set (hm_values (rs_entries (demo_room demo_source)))"
    by (auto simp: entry_view_def)
  moreover have "list_all (\<lambda>e. \<not> se_clock e \<le> vc_default) (hm_values (rs_entries (demo_room demo_source)))"
    by code_simp
  ultimately show "\<not> se_clock e \<le> vc_default"
    unfolding list_all_iff by blast
qed

theorem delta_sync_catches_up_witness:
  "\<exists>d. build_delta demo_source ''room:a'' ''agent:alice'' vc_default = Ok d
     \<and> sync_get (fst (apply_delta demo_fresh d)) ''room:a'' ''x'' = sync_get demo_source ''room:a'' ''x''"
proof -
  obtain d where d: "build_delta demo_source ''room:a'' ''agent:alice''
      (rs_clock (demo_room demo_fresh)) = Ok d"
    by (simp add: build_delta_eq [OF demo_rooms(1)])
  have old: "\<exists>y. entry_view (demo_room demo_fresh) k = Some y \<and> \<not> entry_wins e y"
    if "entry_view (demo_room demo_source) k = Some e" "se_clock e \<le> rs_clock (demo_room demo_fresh)"
    for k e
    using that demo_no_old demo_fresh_empty(2) by fastforce
  have "sync_get demo_fresh ''room:a'' ''x'' = Err (KeyNotFound ''x'')"
    by code_simp
  moreover obtain e where "sync_get demo_source ''room:a'' ''x'' = Ok e"
  proof -
    have "is_ok (sync_get demo_source ''room:a'' ''x'')" by code_simp
    then show thesis using that by (auto simp: is_ok_iff)
  qed
  ultimately show ?thesis
    using delta_sync_catches_up [OF demo_ok demo_rooms(1,3) d old, of "''x''"] d
    by (auto simp: demo_fresh_empty(2))
qed

text \<open>
  C36: A missed update is never repaired by deltas. If the receiver has no entry for a key, but its
  aggregate clock already covers the clock of the sender's entry for that key (it has received a
  later write of another key and lost this one), then the delta built for the receiver's clock
  leaves the entry out, and the key is still missing after the delta has been applied.
\<close>
theorem missed_update_not_repaired:
  assumes "sync_ok sa" "hm_get (sync_rooms sa) rid = Some ra" "hm_get (sync_rooms sb) rid = Some rb"
    and "entry_view ra k = Some x" and "se_clock x \<le> rs_clock rb" and "entry_view rb k = None"
    and "build_delta sa rid agent (rs_clock rb) = Ok d"
  shows "sync_get (fst (apply_delta sb d)) rid k = Err (KeyNotFound k)"
proof -
  note ok = sync_okD(2) [OF assms(1,2)]
  have d: "sd_room_id d = rid"
    "sd_entries d = filter (\<lambda>e. \<not> se_clock e \<le> rs_clock rb) (hm_values (rs_entries ra))"
    using assms(7) by (auto simp: build_delta_eq [OF assms(2)])
  have "entry_view (fold apply_step (sd_entries d) rb) k = None"
    using assms(4-6) unfolding d(2) view_after_offer [OF ok] by simp
  then show ?thesis
    using rooms_apply_delta [of sb d rb] assms(3) d(1)
    by (simp add: sync_get_def entry_view_def)
qed

theorem missed_update_not_repaired_witness:
  "\<exists>d. build_delta demo_source ''room:a'' ''agent:alice'' (rs_clock (demo_room demo_late)) = Ok d
     \<and> is_ok (sync_get demo_source ''room:a'' ''x'')
     \<and> sync_get (fst (apply_delta demo_late d)) ''room:a'' ''x'' = Err (KeyNotFound ''x'')"
proof -
  obtain d where d: "build_delta demo_source ''room:a'' ''agent:alice''
      (rs_clock (demo_room demo_late)) = Ok d"
    by (simp add: build_delta_eq [OF demo_rooms(1)])
  have "entry_view (demo_room demo_source) ''x'' \<noteq> None" by code_simp
  then obtain x where x: "entry_view (demo_room demo_source) ''x'' = Some x" by auto
  have "se_clock (the (entry_view (demo_room demo_source) ''x'')) \<le> rs_clock (demo_room demo_late)"
    by code_simp
  then have le: "se_clock x \<le> rs_clock (demo_room demo_late)" by (simp add: x)
  have none: "entry_view (demo_room demo_late) ''x'' = None" by code_simp
  have "is_ok (sync_get demo_source ''room:a'' ''x'')" by code_simp
  with missed_update_not_repaired [OF demo_ok demo_rooms(1,2) x le none d] d show ?thesis by blast
qed


section \<open>Which keys a delta updates\<close>

lemma snd_apply_entries:
  "snd (apply_entries room es ks) = ks @ snd (apply_entries room es [])"
proof (induction es arbitrary: room ks)
  case Nil
  then show ?case by simp
next
  case (Cons e es)
  show ?case
    using Cons.IH [of "apply_step e room" "ks @ [se_key e]"]
      Cons.IH [of "apply_step e room" "[se_key e]"] Cons.IH [of "apply_step e room" ks]
    by (simp add: Let_def case_prod_beta)
qed

lemma updated_keys_sound:
  "(k \<in> set (snd (apply_entries room es [])) \<longrightarrow>
      (\<exists>e\<in>set es. entry_view (fst (apply_entries room es [])) k = Some e \<and> se_key e = k))
   \<and> (k \<notin> set (snd (apply_entries room es [])) \<longrightarrow>
      entry_view (fst (apply_entries room es [])) k = entry_view room k)"
proof (induction es arbitrary: room)
  case Nil
  then show ?case by simp
next
  case (Cons e es)
  note acc = snd_apply_entries [of "apply_step e room" es "[se_key e]"]
    fst_apply_entries [of "apply_step e room" es]
  show ?case
  proof (cases "snd (apply_entry room e)")
    case True
    then have "entry_view (apply_step e room) (se_key e) = Some e"
      by (auto simp: apply_entry_accepted lww.view_offer split: option.splits)
    with Cons.IH [of "apply_step e room"] True acc show ?thesis
      by (auto simp: Let_def case_prod_beta lww.offer_other)
  next
    case False
    then have "entry_view (apply_step e room) = entry_view room"
      by (auto simp: apply_entry_accepted lww.view_offer fun_eq_iff split: option.splits)
    with Cons.IH [of "apply_step e room"] False show ?thesis
      by (auto simp: Let_def case_prod_beta)
  qed
qed

text \<open>
  \<open>apply_delta\<close> reports the updated keys correctly. A key it reports now holds an entry of the
  delta; a key it does not report reads as before; and the change is announced by one
  \<open>PatchReady\<close> event exactly when a key is reported.
\<close>
theorem apply_delta_reports:
  assumes "apply_delta s d = (s', evs, Ok keys)"
  shows "(\<forall>k. k \<in> set keys \<longrightarrow>
            (\<exists>e\<in>set (sd_entries d). sync_get s' (sd_room_id d) k = Ok e \<and> se_key e = k))
       \<and> (\<forall>k. k \<notin> set keys \<longrightarrow> sync_get s' (sd_room_id d) k = sync_get s (sd_room_id d) k)
       \<and> (length evs = (if keys = [] then 0 else 1))"
proof (cases "hm_get (sync_rooms s) (sd_room_id d)")
  case None
  with assms show ?thesis by (simp add: apply_delta_def)
next
  case (Some room)
  let ?r = "apply_entries room (sd_entries d) []"
  have s': "s' = fst (apply_delta s d)" and keys: "keys = snd ?r"
    and evs: "length evs = (if keys = [] then 0 else 1)"
    using assms Some by (auto simp: apply_delta_def case_prod_beta split: if_splits)
  have "hm_get (sync_rooms s') (sd_room_id d) = Some (fst ?r)"
    using rooms_apply_delta [OF Some] by (simp add: s' fst_apply_entries)
  with Some evs show ?thesis
    using updated_keys_sound [of _ room "sd_entries d"]
    by (simp add: sync_get_def keys entry_view_def)
qed

theorem apply_delta_reports_witness:
  "\<exists>s' evs. apply_delta demo_fresh
       \<lparr>sd_room_id = ''room:a'', sd_from = ''agent:alice'',
        sd_entries = hm_values (rs_entries (demo_room demo_source))\<rparr> = (s', evs, Ok [''x'', ''y''])
     \<and> length evs = 1"
proof -
  let ?d = "\<lparr>sd_room_id = ''room:a'', sd_from = ''agent:alice'',
    sd_entries = hm_values (rs_entries (demo_room demo_source))\<rparr>"
  obtain s' evs r where d: "apply_delta demo_fresh ?d = (s', evs, r)"
    by (cases "apply_delta demo_fresh ?d")
  have "snd (snd (apply_delta demo_fresh ?d)) = Ok [''x'', ''y'']" by code_simp
  with d have "r = Ok [''x'', ''y'']" by simp
  with d apply_delta_reports [of demo_fresh ?d s' evs "[''x'', ''y'']"] show ?thesis by simp
qed

section \<open>Snapshots\<close>

text \<open>
  C27: Restoring a snapshot is a full state transfer that respects what the receiver already has.
  For each key the receiver ends with the sender's entry if it had none or the sender's wins, and
  with its own otherwise; a receiver that did not know the room reads exactly as the sender did.
\<close>
theorem restore_snapshot_transfers:
  assumes "sync_ok sa" "hm_get (sync_rooms sa) rid = Some ra" "snapshot sa rid now = Ok snap"
  shows "sync_get (fst (restore_snapshot sb snap)) rid k =
     (case (sync_get sa rid k, sync_get sb rid k) of
        (Inl err, Inl _) \<Rightarrow> Err err
      | (Inl _, Inr x) \<Rightarrow> Ok x
      | (Inr e, Inl _) \<Rightarrow> Ok e
      | (Inr e, Inr x) \<Rightarrow> if entry_wins e x then Ok e else Ok x)"
proof -
  note ok = sync_okD(2) [OF assms(1,2)]
  define rb where "rb = unwrap_or (hm_get (sync_rooms sb) rid) (room_state_new rid)"
  have snap: "sn_room_id snap = rid" "sn_entries snap = rs_entries ra"
    using assms(2,3) by (auto simp: snapshot_def)
  have room: "hm_get (sync_rooms (fst (restore_snapshot sb snap))) rid =
      Some (fold apply_step (filter (\<lambda>_. True) (hm_values (rs_entries ra))) rb)"
    by (simp add: rooms_restore_snapshot snap rb_def)
  have get_rb: "sync_get sb rid k =
      (case entry_view rb k of
         Some x \<Rightarrow> Ok x
       | None \<Rightarrow> Err (if hm_contains_key (sync_rooms sb) rid then KeyNotFound k else RoomNotFound rid))"
    by (cases "hm_get (sync_rooms sb) rid")
      (auto simp: sync_get_def rb_def entry_view_def hm_contains_key_def room_state_new_def
        split: option.splits)
  have get_ra: "sync_get sa rid k = ok_or (entry_view ra k) (KeyNotFound k)"
    using assms(2) by (simp add: sync_get_def entry_view_def)
  have "sync_get (fst (restore_snapshot sb snap)) rid k = ok_or
      (entry_view (fold apply_step (filter (\<lambda>_. True) (hm_values (rs_entries ra))) rb) k) (KeyNotFound k)"
    unfolding sync_get_def room by (simp add: entry_view_def)
  then show ?thesis
    unfolding view_after_offer [OF ok] get_rb get_ra
    by (auto split: option.splits)
qed

theorem restore_snapshot_transfers_witness:
  "\<exists>snap. snapshot demo_source ''room:a'' 50 = Ok snap
     \<and> sync_get (fst (restore_snapshot (sync_new ''m'') snap)) ''room:a'' ''x''
       = sync_get demo_source ''room:a'' ''x''"
proof -
  obtain snap where snap: "snapshot demo_source ''room:a'' 50 = Ok snap"
    by (simp add: snapshot_def demo_rooms(1))
  have "is_ok (sync_get demo_source ''room:a'' ''x'')" by code_simp
  then obtain e where "sync_get demo_source ''room:a'' ''x'' = Ok e" by (auto simp: is_ok_iff)
  with restore_snapshot_transfers [OF demo_ok demo_rooms(1) snap, of "sync_new ''m''" "''x''"] snap
  show ?thesis by (auto simp: sync_get_def sync_new_def)
qed

end
