(* ===== verification/Room_Network.thy ===== *)
theory Room_Network
  imports Room_Replication
begin

text \<open>
  Replication of a room over a network of nodes. Each node keeps the room in its own \<open>RoomStateSync\<close>;
  agents write at their home node. A node asks another for what is new, giving the clock of its room
  (\<open>room_clock\<close>); the other answers with the delta for that clock (\<open>build_delta\<close>), which the first
  applies (\<open>apply_delta\<close>). Messages may be delayed, reordered, repeated and lost. Used this way,
  deltas never miss an entry: what a node's clock covers, the node holds, provided the wall clocks
  of the writers do not run against causality. An agent that writes at two
  nodes breaks this for good.
\<close>

section \<open>The network\<close>

datatype 'v sync_message =
    Asks string string vector_clock         \<comment> \<open>who asks, who is asked, the asker's clock\<close>
  | Brings string "'v state_delta"          \<comment> \<open>who asked, the answer\<close>

record 'v room_net =
  rn_nodes :: "string \<Rightarrow> 'v room_state_sync"
  rn_flight :: "'v sync_message list"
  rn_written :: "'v state_entry list"       \<comment> \<open>what \<open>set\<close> has returned so far\<close>

datatype 'v room_turn =
    Write string string string 'v timestamp \<comment> \<open>at a node, by an agent: a key, its value, the time\<close>
  | Ask string string                       \<comment> \<open>a node asks another\<close>
  | Receive nat                             \<comment> \<open>a message in flight is received; a copy stays in flight\<close>
  | Vanish nat                              \<comment> \<open>a message in flight is lost\<close>

definition received :: "string \<Rightarrow> 'v sync_message \<Rightarrow> 'v room_net \<Rightarrow> 'v room_net" where
  "received rid m s =
     (case m of
        Asks i j c \<Rightarrow>
          (case build_delta (rn_nodes s j) rid j c of
             Inl _ \<Rightarrow> s
           | Inr d \<Rightarrow> s\<lparr>rn_flight := rn_flight s @ [Brings i d]\<rparr>)
      | Brings i d \<Rightarrow> s\<lparr>rn_nodes := (rn_nodes s)(i := fst (apply_delta (rn_nodes s i) d))\<rparr>)"

fun room_turn_step :: "string \<Rightarrow> 'v room_turn \<Rightarrow> 'v room_net \<Rightarrow> 'v room_net" where
  "room_turn_step rid (Write i a k v now) s =
     (case sync_set (rn_nodes s i) rid a k v now of
        (_, _, Inl _) \<Rightarrow> s
      | (st, _, Inr e) \<Rightarrow>
          s\<lparr>rn_nodes := (rn_nodes s)(i := st), rn_written := rn_written s @ [e]\<rparr>)"
| "room_turn_step rid (Ask i j) s =
     (case room_clock (rn_nodes s i) rid of
        Inl _ \<Rightarrow> s
      | Inr c \<Rightarrow> s\<lparr>rn_flight := rn_flight s @ [Asks i j c]\<rparr>)"
| "room_turn_step rid (Receive n) s =
     (if n < length (rn_flight s) then received rid (rn_flight s ! n) s else s)"
| "room_turn_step rid (Vanish n) s =
     s\<lparr>rn_flight := take n (rn_flight s) @ drop (Suc n) (rn_flight s)\<rparr>"

definition room_run :: "string \<Rightarrow> 'v room_turn list \<Rightarrow> 'v room_net \<Rightarrow> 'v room_net" where
  "room_run rid turns s = fold (room_turn_step rid) turns s"

definition room_net_start :: "string \<Rightarrow> string \<Rightarrow> 'v room_net" where
  "room_net_start mesh rid =
     \<lparr>rn_nodes = (\<lambda>_. init_room (sync_new mesh) rid), rn_flight = [], rn_written = []\<rparr>"

text \<open>An exchange that completes: the question and its answer arrive, before anything else happens.\<close>
definition pull :: "string \<Rightarrow> string \<times> string \<Rightarrow> 'v room_net \<Rightarrow> 'v room_net" where
  "pull rid ij s =
     (let n = length (rn_flight s)
      in room_run rid [Ask (fst ij) (snd ij), Receive n, Receive (Suc n)] s)"

text \<open>Each agent writes at one node.\<close>
fun at_home :: "(string \<Rightarrow> string) \<Rightarrow> 'v room_turn \<Rightarrow> bool" where
  "at_home home (Write i a k v now) \<longleftrightarrow> i = home a"
| "at_home home _ \<longleftrightarrow> True"

section \<open>The invariant\<close>

definition net_room :: "string \<Rightarrow> 'v room_net \<Rightarrow> string \<Rightarrow> 'v room_state" where
  "net_room rid s i = the (hm_get (sync_rooms (rn_nodes s i)) rid)"

text \<open>The clock has counted the write of the entry.\<close>
definition counts :: "vector_clock \<Rightarrow> 'v state_entry \<Rightarrow> bool" where
  "counts c e \<longleftrightarrow> vc_get (se_clock e) (se_author e) \<le> vc_get c (se_author e)"

text \<open>A room has the entry or a newer one under its key.\<close>
definition has_entry :: "'v room_state \<Rightarrow> 'v state_entry \<Rightarrow> bool" where
  "has_entry room e \<longleftrightarrow> (\<exists>x. entry_view room (se_key e) = Some x \<and> stamp e \<le> stamp x)"

fun message_ok :: "string \<Rightarrow> 'v room_net \<Rightarrow> 'v sync_message \<Rightarrow> bool" where
  "message_ok rid s (Asks i j c) \<longleftrightarrow> c \<le> rs_clock (net_room rid s i)"
| "message_ok rid s (Brings i d) \<longleftrightarrow>
     sd_room_id d = rid \<and> set (sd_entries d) \<subseteq> set (rn_written s)
     \<and> (\<forall>e\<in>set (rn_written s). (\<exists>f\<in>set (sd_entries d). counts (se_clock f) e) \<longrightarrow>
          (\<exists>x\<in>set (sd_entries d). se_key x = se_key e \<and> stamp e \<le> stamp x)
          \<or> has_entry (net_room rid s i) e)"

definition node_rooms_ok :: "string \<Rightarrow> 'v room_net \<Rightarrow> bool" where
  "node_rooms_ok rid s \<longleftrightarrow>
     (\<forall>i. hm_get (sync_rooms (rn_nodes s i)) rid = Some (net_room rid s i) \<and> room_ok (net_room rid s i)
        \<and> ran (entry_view (net_room rid s i)) \<subseteq> set (rn_written s)
        \<and> (\<forall>a. vc_get (rs_clock (net_room rid s i)) a \<noteq> 0 \<longrightarrow>
             (\<exists>e\<in>set (rn_written s). se_clock e \<le> rs_clock (net_room rid s i)
                \<and> vc_get (se_clock e) a = vc_get (rs_clock (net_room rid s i)) a))
        \<and> (\<forall>e\<in>set (rn_written s). counts (rs_clock (net_room rid s i)) e \<longrightarrow> has_entry (net_room rid s i) e))"

definition writes_ok :: "(string \<Rightarrow> string) \<Rightarrow> string \<Rightarrow> 'v room_net \<Rightarrow> bool" where
  "writes_ok home rid s \<longleftrightarrow>
     (\<forall>e\<in>set (rn_written s).
        se_clock e \<le> rs_clock (net_room rid s (home (se_author e)))
        \<and> vc_get (se_clock e) (se_author e) \<noteq> 0
        \<and> (\<forall>a. vc_get (se_clock e) a \<le> vc_get (rs_clock (net_room rid s (home a))) a
               \<and> unat (vc_get (se_clock e) a) \<le> length (rn_written s))
        \<and> (\<forall>f\<in>set (rn_written s). counts (se_clock f) e \<longrightarrow> se_clock e \<le> se_clock f))"

definition room_net_ok :: "(string \<Rightarrow> string) \<Rightarrow> string \<Rightarrow> 'v room_net \<Rightarrow> bool" where
  "room_net_ok home rid s \<longleftrightarrow>
     node_rooms_ok rid s \<and> writes_ok home rid s \<and> (\<forall>m\<in>set (rn_flight s). message_ok rid s m)"

lemma node_rooms_okD:
  assumes "node_rooms_ok rid s"
  shows "hm_get (sync_rooms (rn_nodes s i)) rid = Some (net_room rid s i)" "room_ok (net_room rid s i)"
    "ran (entry_view (net_room rid s i)) \<subseteq> set (rn_written s)"
    "vc_get (rs_clock (net_room rid s i)) a \<noteq> 0 \<Longrightarrow> \<exists>e\<in>set (rn_written s).
       se_clock e \<le> rs_clock (net_room rid s i) \<and> vc_get (se_clock e) a = vc_get (rs_clock (net_room rid s i)) a"
    "e \<in> set (rn_written s) \<Longrightarrow> counts (rs_clock (net_room rid s i)) e \<Longrightarrow> has_entry (net_room rid s i) e"
  using assms unfolding node_rooms_ok_def by blast+

lemma writes_okD:
  assumes "writes_ok home rid s" "e \<in> set (rn_written s)"
  shows "se_clock e \<le> rs_clock (net_room rid s (home (se_author e)))"
    "vc_get (se_clock e) (se_author e) \<noteq> 0"
    "vc_get (se_clock e) a \<le> vc_get (rs_clock (net_room rid s (home a))) a"
    "unat (vc_get (se_clock e) a) \<le> length (rn_written s)"
    "f \<in> set (rn_written s) \<Longrightarrow> counts (se_clock f) e \<Longrightarrow> se_clock e \<le> se_clock f"
  using assms unfolding writes_ok_def by blast+

lemma counts_mono: "counts c e \<Longrightarrow> c \<le> c' \<Longrightarrow> counts c' e"
  unfolding counts_def by (blast intro: order_trans vc_leD)

lemma counts_own: "se_clock e \<le> c \<Longrightarrow> counts c e"
  by (simp add: counts_def vc_leD)

text \<open>A clock that has counted a write is above the write's clock.\<close>
lemma counts_le:
  assumes "room_net_ok home rid s" "e \<in> set (rn_written s)" "counts (rs_clock (net_room rid s i)) e"
  shows "se_clock e \<le> rs_clock (net_room rid s i)"
proof -
  have ok: "node_rooms_ok rid s" "writes_ok home rid s"
    using assms(1) by (simp_all add: room_net_ok_def)
  let ?a = "se_author e" and ?c = "rs_clock (net_room rid s i)"
  have "vc_get ?c ?a \<noteq> 0"
    using writes_okD(2) [OF ok(2) assms(2)] assms(3) by (auto simp: counts_def)
  then obtain g where g: "g \<in> set (rn_written s)" "se_clock g \<le> ?c" "vc_get (se_clock g) ?a = vc_get ?c ?a"
    using node_rooms_okD(4) [OF ok(1)] by blast
  then have "counts (se_clock g) e"
    using assms(3) by (simp add: counts_def)
  with writes_okD(5) [OF ok(2) assms(2) g(1)] g(2) show ?thesis by (blast intro: order_trans)
qed

text \<open>No clock is ahead of an agent's home in the agent's own counter.\<close>
lemma home_first:
  assumes "room_net_ok home rid s"
  shows "vc_get (rs_clock (net_room rid s i)) a \<le> vc_get (rs_clock (net_room rid s (home a))) a"
    and "unat (vc_get (rs_clock (net_room rid s i)) a) \<le> length (rn_written s)"
proof -
  have ok: "node_rooms_ok rid s" "writes_ok home rid s"
    using assms(1) by (simp_all add: room_net_ok_def)
  show "vc_get (rs_clock (net_room rid s i)) a \<le> vc_get (rs_clock (net_room rid s (home a))) a"
    "unat (vc_get (rs_clock (net_room rid s i)) a) \<le> length (rn_written s)"
    using node_rooms_okD(4) [OF ok(1), of i a] writes_okD(3,4) [OF ok(2), of _ a]
    by (cases "vc_get (rs_clock (net_room rid s i)) a = 0"; force)+
qed

section \<open>Offers\<close>

lemma has_entry_offers:
  assumes "ranked_on stamp entry_wins se_key S" "room_ok room" "set es \<union> ran (entry_view room) \<subseteq> S"
  shows "has_entry room e \<Longrightarrow> has_entry (fold apply_step es room) e"
    and "x \<in> set es \<Longrightarrow> se_key x = se_key e \<Longrightarrow> stamp e \<le> stamp x \<Longrightarrow> has_entry (fold apply_step es room) e"
proof -
  note best = lww.offers_best [OF assms(1) room_ok_keyed [OF assms(2)] assms(3), of "se_key e"]
  have has: "has_entry (fold apply_step es room) e"
    if "x \<in> lww.contenders es room (se_key e)" "stamp e \<le> stamp x" for x
    using best that by (auto simp: has_entry_def best_of_def split: option.splits intro: order_trans)
  show "has_entry room e \<Longrightarrow> has_entry (fold apply_step es room) e"
    using has by (auto simp: has_entry_def lww.contenders_def)
  show "x \<in> set es \<Longrightarrow> se_key x = se_key e \<Longrightarrow> stamp e \<le> stamp x \<Longrightarrow> has_entry (fold apply_step es room) e"
    by (rule has [of x]) (simp_all add: lww.contenders_def)
qed

lemma ran_offers: "ran (entry_view (fold apply_step es room)) \<subseteq> set es \<union> ran (entry_view room)"
  by (auto simp: ran_def dest: lww.offers_source)

lemma fold_merge_get:
  "vc_get (fold (\<lambda>c s. vc_merge s c) cs c0) a = vc_get c0 a
     \<or> (\<exists>c\<in>set cs. vc_get (fold (\<lambda>c s. vc_merge s c) cs c0) a = vc_get c a)"
  by (induction cs arbitrary: c0) (force simp: max_def split: if_splits)+

lemma clock_after_offers:
  assumes "room_ok room"
  shows "rs_clock room \<le> rs_clock (fold apply_step es room)"
    "e \<in> set es \<Longrightarrow> se_clock e \<le> rs_clock (fold apply_step es room)"
    "vc_get (rs_clock (fold apply_step es room)) a = vc_get (rs_clock room) a
      \<or> (\<exists>e\<in>set es. vc_get (rs_clock (fold apply_step es room)) a = vc_get (se_clock e) a)"
proof -
  have eq: "vc_get (rs_clock (fold apply_step es room))
      = vc_get (fold (\<lambda>c s. vc_merge s c) (map se_clock es) (rs_clock room))"
    using rs_clock_applies [OF assms] by (simp add: vc_eq_get)
  show "rs_clock room \<le> rs_clock (fold apply_step es room)"
    using vc.fold_ub [of "rs_clock room" "map se_clock es"] by (simp add: less_eq_vector_clock_def eq)
  show "e \<in> set es \<Longrightarrow> se_clock e \<le> rs_clock (fold apply_step es room)"
    using vc.fold_ub_mem [of "se_clock e" "map se_clock es" "rs_clock room"] by (simp add: less_eq_vector_clock_def eq)
  show "vc_get (rs_clock (fold apply_step es room)) a = vc_get (rs_clock room) a
      \<or> (\<exists>e\<in>set es. vc_get (rs_clock (fold apply_step es room)) a = vc_get (se_clock e) a)"
    using fold_merge_get [of "map se_clock es" "rs_clock room" a] by (auto simp: eq)
qed

section \<open>Steps\<close>

lemma net_room_other:
  "net_room rid (s\<lparr>rn_nodes := (rn_nodes s)(i := st)\<rparr>) j =
     (if j = i then the (hm_get (sync_rooms st) rid) else net_room rid s j)"
  "net_room rid (s\<lparr>rn_flight := fl\<rparr>) j = net_room rid s j"
  "net_room rid (s\<lparr>rn_written := w\<rparr>) j = net_room rid s j"
  by (simp_all add: net_room_def)

text \<open>Only messages change.\<close>
lemma flight_ok:
  assumes "room_net_ok home rid s" "\<And>m. m \<in> set fl \<Longrightarrow> message_ok rid s m"
  shows "room_net_ok home rid (s\<lparr>rn_flight := fl\<rparr>)"
proof -
  have "message_ok rid (s\<lparr>rn_flight := fl\<rparr>) m = message_ok rid s m" for m
    by (cases m) (simp_all add: net_room_other)
  with assms show ?thesis
    by (simp add: room_net_ok_def node_rooms_ok_def writes_ok_def net_room_other)
qed

lemma build_delta_ok:
  assumes "room_net_ok home rid s" "c \<le> rs_clock (net_room rid s i)"
    and "build_delta (rn_nodes s j) rid who c = Ok d"
  shows "message_ok rid s (Brings i d)"
proof -
  have ok: "node_rooms_ok rid s" using assms(1) by (simp add: room_net_ok_def)
  note room = node_rooms_okD(1) [OF ok, of j] and rok = node_rooms_okD(2) [OF ok, of j]
    and inH = node_rooms_okD(3) [OF ok, of j]
  have d: "sd_room_id d = rid"
    "sd_entries d = filter (\<lambda>e. \<not> se_clock e \<le> c) (hm_values (rs_entries (net_room rid s j)))"
    using assms(3) by (auto simp: build_delta_eq [OF room])
  have mem: "x \<in> set (sd_entries d) \<longleftrightarrow> entry_view (net_room rid s j) (se_key x) = Some x \<and> \<not> se_clock x \<le> c" for x
    using values_entry_view [OF rok, of x] by (auto simp: d(2) simp del: in_hm_values_iff)
  have "(\<exists>x\<in>set (sd_entries d). se_key x = se_key e \<and> stamp e \<le> stamp x) \<or> has_entry (net_room rid s i) e"
    if e: "e \<in> set (rn_written s)" and f: "f \<in> set (sd_entries d)" "counts (se_clock f) e" for e f
  proof -
    have "se_clock f \<le> rs_clock (net_room rid s j)"
      using f(1) rok by (auto simp: mem room_ok_def)
    with f(2) have "counts (rs_clock (net_room rid s j)) e"
      by (rule counts_mono)
    from node_rooms_okD(5) [OF ok e this] obtain x where
      x: "entry_view (net_room rid s j) (se_key e) = Some x" "stamp e \<le> stamp x"
      by (auto simp: has_entry_def)
    have key: "se_key x = se_key e" using x(1) rok by (auto simp: room_ok_def)
    show ?thesis
    proof (cases "se_clock x \<le> c")
      case False
      with x key show ?thesis by (auto simp: mem)
    next
      case True
      then have "counts (rs_clock (net_room rid s i)) x"
        using assms(2) by (blast intro: counts_own order_trans)
      moreover have "x \<in> set (rn_written s)"
        using x(1) inH by (auto simp: ran_def)
      ultimately have "has_entry (net_room rid s i) x"
        using node_rooms_okD(5) [OF ok] by blast
      then show ?thesis
        using x(2) key by (auto simp: has_entry_def intro: order_trans)
    qed
  qed
  moreover have "set (sd_entries d) \<subseteq> set (rn_written s)"
    using ranI [of "entry_view (net_room rid s j)"] inH mem by blast
  ultimately show ?thesis
    using d(1) by (auto simp del: in_hm_values_iff)
qed

text \<open>
  The one way a room changes: entries are offered to it. What is new with them is not yet counted
  anywhere, and what their clocks count is among them or already held.
\<close>
lemma offered:
  assumes nodes: "node_rooms_ok rid s"
    and rooms: "\<And>j. hm_get (sync_rooms (rn_nodes s' j)) rid =
      Some (if j = i then fold apply_step es (net_room rid s i) else net_room rid s j)"
    and ranked: "ranked_on stamp entry_wins se_key (set (rn_written s'))"
    and written: "set (rn_written s) \<union> set es \<subseteq> set (rn_written s')"
  shows offered_room: "net_room rid s' j = (if j = i then fold apply_step es (net_room rid s i) else net_room rid s j)"
    and offered_clock: "rs_clock (net_room rid s j) \<le> rs_clock (net_room rid s' j)"
    and offered_keeps: "has_entry (net_room rid s j) e \<Longrightarrow> has_entry (net_room rid s' j) e"
    and offered_new: "x \<in> set es \<Longrightarrow> se_key x = se_key e \<Longrightarrow> stamp e \<le> stamp x \<Longrightarrow> has_entry (net_room rid s' i) e"
proof -
  note rok = node_rooms_okD(2) [OF nodes, of i]
  show net': "net_room rid s' j = (if j = i then fold apply_step es (net_room rid s i) else net_room rid s j)" for j
    using rooms by (simp add: net_room_def)
  have sub: "set es \<union> ran (entry_view (net_room rid s i)) \<subseteq> set (rn_written s')"
    using written node_rooms_okD(3) [OF nodes, of i] by blast
  note has = has_entry_offers [OF ranked rok sub]
  show "has_entry (net_room rid s j) e \<Longrightarrow> has_entry (net_room rid s' j) e"
    using has(1) [of e] by (cases "j = i") (simp_all add: net')
  show "x \<in> set es \<Longrightarrow> se_key x = se_key e \<Longrightarrow> stamp e \<le> stamp x \<Longrightarrow> has_entry (net_room rid s' i) e"
    using has(2) by (simp add: net')
  show "rs_clock (net_room rid s j) \<le> rs_clock (net_room rid s' j)"
    using clock_after_offers(1) [OF rok] by (simp add: net')
qed

lemma offered_rooms_ok:
  assumes nodes: "node_rooms_ok rid s"
    and rooms: "\<And>j. hm_get (sync_rooms (rn_nodes s' j)) rid =
      Some (if j = i then fold apply_step es (net_room rid s i) else net_room rid s j)"
    and ranked: "ranked_on stamp entry_wins se_key (set (rn_written s'))"
    and written: "set (rn_written s) \<union> set es \<subseteq> set (rn_written s')"
    and unseen: "\<And>e j. e \<in> set (rn_written s') \<Longrightarrow> e \<notin> set (rn_written s) \<Longrightarrow>
      \<not> counts (rs_clock (net_room rid s j)) e"
    and closed: "\<And>e f. e \<in> set (rn_written s') \<Longrightarrow> f \<in> set es \<Longrightarrow> counts (se_clock f) e \<Longrightarrow>
      (\<exists>x\<in>set es. se_key x = se_key e \<and> stamp e \<le> stamp x) \<or> has_entry (net_room rid s i) e"
  shows "node_rooms_ok rid s'"
  unfolding node_rooms_ok_def
proof (intro allI conjI ballI impI)
  note offered = offered [OF nodes rooms ranked written]
  note net' = offered(1) and rok = node_rooms_okD(2) [OF nodes, of i]
  fix j a
  show "hm_get (sync_rooms (rn_nodes s' j)) rid = Some (net_room rid s' j)"
    by (simp add: net' rooms)
  show "room_ok (net_room rid s' j)"
    using node_rooms_okD(2) [OF nodes, of j] room_ok_applies [OF rok] by (simp add: net')
  show "ran (entry_view (net_room rid s' j)) \<subseteq> set (rn_written s')"
    using node_rooms_okD(3) [OF nodes, of j] written ran_offers [of es "net_room rid s i"]
    by (cases "j = i") (simp_all add: net', blast+)
  show "\<exists>e\<in>set (rn_written s'). se_clock e \<le> rs_clock (net_room rid s' j)
      \<and> vc_get (se_clock e) a = vc_get (rs_clock (net_room rid s' j)) a"
    if "vc_get (rs_clock (net_room rid s' j)) a \<noteq> 0"
  proof (cases "vc_get (rs_clock (net_room rid s' j)) a = vc_get (rs_clock (net_room rid s j)) a")
    case True
    with that node_rooms_okD(4) [OF nodes, of j a] offered(2) [of j] written show ?thesis
      by (auto intro: order_trans)
  next
    case False
    then have j: "j = i" by (cases "j = i") (simp_all add: net')
    with False clock_after_offers(3) [OF rok, of es a] obtain e where
      "e \<in> set es" "vc_get (rs_clock (net_room rid s' i)) a = vc_get (se_clock e) a"
      by (auto simp: net')
    with clock_after_offers(2) [OF rok, of e es] written j show ?thesis
      by (auto simp: net')
  qed
  show "has_entry (net_room rid s' j) e"
    if e: "e \<in> set (rn_written s')" "counts (rs_clock (net_room rid s' j)) e" for e
  proof (cases "counts (rs_clock (net_room rid s j)) e")
    case True
    with unseen e(1) node_rooms_okD(5) [OF nodes _ True] offered(3) show ?thesis by blast
  next
    case False
    then have j: "j = i" using e(2) by (cases "j = i") (simp_all add: net')
    then obtain f where "f \<in> set es" "counts (se_clock f) e"
      using False e(2) clock_after_offers(3) [OF rok, of es "se_author e"] by (auto simp: net' counts_def)
    from closed [OF e(1) this] offered(3,4) j show ?thesis by blast
  qed
qed

text \<open>The answer to a question is applied.\<close>
lemma apply_delta_ok:
  assumes ok: "room_net_ok home rid s" and ranked: "ranked_on stamp entry_wins se_key (set (rn_written s))"
    and msg: "message_ok rid s (Brings i d)"
  defines "s' \<equiv> s\<lparr>rn_nodes := (rn_nodes s)(i := fst (apply_delta (rn_nodes s i) d))\<rparr>"
  shows "room_net_ok home rid s'"
    and "has_entry (net_room rid s j) e \<Longrightarrow> has_entry (net_room rid s' j) e"
    and "x \<in> set (sd_entries d) \<Longrightarrow> se_key x = se_key e \<Longrightarrow> stamp e \<le> stamp x \<Longrightarrow> has_entry (net_room rid s' i) e"
proof -
  have nodes: "node_rooms_ok rid s" and writes: "writes_ok home rid s"
    using ok by (simp_all add: room_net_ok_def)
  have d: "sd_room_id d = rid" "set (sd_entries d) \<subseteq> set (rn_written s)"
    using msg by auto
  have w': "rn_written s' = rn_written s" "rn_flight s' = rn_flight s"
    by (simp_all add: s'_def)
  have rooms: "hm_get (sync_rooms (rn_nodes s' j)) rid =
      Some (if j = i then fold apply_step (sd_entries d) (net_room rid s i) else net_room rid s j)" for j
    using rooms_apply_delta [of "rn_nodes s i" d "net_room rid s i"] node_rooms_okD(1) [OF nodes]
    by (simp add: s'_def d(1))
  have ranked': "ranked_on stamp entry_wins se_key (set (rn_written s'))"
    and written: "set (rn_written s) \<union> set (sd_entries d) \<subseteq> set (rn_written s')"
    using ranked d(2) by (simp_all add: w')
  note offered = offered [OF nodes rooms ranked' written]
  show "has_entry (net_room rid s j) e \<Longrightarrow> has_entry (net_room rid s' j) e"
    and "x \<in> set (sd_entries d) \<Longrightarrow> se_key x = se_key e \<Longrightarrow> stamp e \<le> stamp x \<Longrightarrow> has_entry (net_room rid s' i) e"
    by (fact offered(3,4))+
  have "node_rooms_ok rid s'"
    by (rule offered_rooms_ok [OF nodes rooms ranked' written]) (use msg in \<open>auto simp: w'\<close>)
  moreover have "writes_ok home rid s'"
    using writes offered(2) unfolding writes_ok_def w' by (meson order_trans vc_leD)
  moreover have "message_ok rid s' m" if "message_ok rid s m" for m
    using that offered(2,3) by (cases m) (auto simp: w' intro: order_trans)
  ultimately show "room_net_ok home rid s'"
    using ok by (simp add: room_net_ok_def w')
qed

text \<open>The entry that a write makes.\<close>
definition new_entry :: "'v room_state \<Rightarrow> string \<Rightarrow> string \<Rightarrow> 'v \<Rightarrow> timestamp \<Rightarrow> 'v state_entry" where
  "new_entry room a k v now =
     \<lparr>se_key = k, se_value = v, se_author = a, se_clock = fst (vc_tick (rs_clock room) a), se_updated_at = now\<rparr>"

lemma word_count:
  assumes "unat w \<le> n" "n < 2 ^ 64 - 1"
  shows "(w :: u64) \<noteq> - 1" "unat (w + 1) = Suc (unat w)"
proof -
  show "w \<noteq> - 1"
    using assms by (auto simp: unat_max_u64)
  then show "unat (w + 1) = Suc (unat w)"
    by (metis add.commute add_eq_0_iff unatSuc)
qed

lemma write_step:
  fixes s :: "'v room_net" and i a k :: string and v :: 'v and now :: timestamp
  assumes ok: "room_net_ok home rid s" and few: "length (rn_written s) < 2 ^ 64 - 1"
  defines "s' \<equiv> room_turn_step rid (Write i a k v now) s"
    and "e0 \<equiv> new_entry (net_room rid s i) a k v now"
  shows "rn_written s' = rn_written s @ [e0]" "rn_flight s' = rn_flight s"
    "net_room rid s' j = (if j = i then apply_step e0 (net_room rid s i) else net_room rid s j)"
    "hm_get (sync_rooms (rn_nodes s' j)) rid = Some (net_room rid s' j)"
    "entry_view (apply_step e0 (net_room rid s i)) = (entry_view (net_room rid s i))(k \<mapsto> e0)"
    "vc_get (rs_clock (apply_step e0 (net_room rid s i))) = vc_get (se_clock e0)"
    "vc_get (se_clock e0) b = (if b = a then vc_get (rs_clock (net_room rid s i)) a + 1
        else vc_get (rs_clock (net_room rid s i)) b)"
    "rs_clock (net_room rid s i) < se_clock e0"
proof -
  have nodes: "node_rooms_ok rid s" using ok by (simp add: room_net_ok_def)
  note room = node_rooms_okD(1) [OF nodes, of i] and rok = node_rooms_okD(2) [OF nodes, of i]
  have max: "vc_get (rs_clock (net_room rid s i)) a \<noteq> - 1"
    using word_count(1) [OF home_first(2) [OF ok] few] .
  have set: "sync_set (rn_nodes s i) rid a k v now = (fst (sync_set (rn_nodes s i) rid a k v now),
      fst (snd (sync_set (rn_nodes s i) rid a k v now)), Ok e0)"
    using room by (simp add: sync_set_def new_entry_def e0_def Let_def)
  have s': "s' = s\<lparr>rn_nodes := (rn_nodes s)(i := fst (sync_set (rn_nodes s i) rid a k v now)),
      rn_written := rn_written s @ [e0]\<rparr>"
    unfolding s'_def room_turn_step.simps by (subst set) simp
  have rooms': "hm_get (sync_rooms (fst (sync_set (rn_nodes s i) rid a k v now))) rid
      = Some (apply_step e0 (net_room rid s i))"
    using rooms_sync_set [OF room] by (simp add: e0_def new_entry_def)
  show "rn_written s' = rn_written s @ [e0]" "rn_flight s' = rn_flight s"
    by (simp_all add: s')
  show net': "net_room rid s' j = (if j = i then apply_step e0 (net_room rid s i) else net_room rid s j)" for j
    using rooms' by (simp add: s' net_room_def)
  show "hm_get (sync_rooms (rn_nodes s' j)) rid = Some (net_room rid s' j)"
    unfolding net' using rooms' node_rooms_okD(1) [OF nodes, of j] by (simp add: s')
  show "entry_view (apply_step e0 (net_room rid s i)) = (entry_view (net_room rid s i))(k \<mapsto> e0)"
    using tick_beats_room [OF rok max, of e0] by (simp add: e0_def new_entry_def)
  show less: "rs_clock (net_room rid s i) < se_clock e0"
    using vc_tick_greater [OF max] by (simp add: e0_def new_entry_def)
  then have "max (vc_get (rs_clock (net_room rid s i)) b) (vc_get (se_clock e0) b) = vc_get (se_clock e0) b" for b
    by (auto simp: less_vector_clock_def less_eq_vector_clock_def max_def)
  then show "vc_get (rs_clock (apply_step e0 (net_room rid s i))) = vc_get (se_clock e0)"
    using rs_clock_apply [OF rok, of e0] by (simp add: vc_eq_get fun_eq_iff)
  show "vc_get (se_clock e0) b = (if b = a then vc_get (rs_clock (net_room rid s i)) a + 1
        else vc_get (rs_clock (net_room rid s i)) b)"
    by (simp add: e0_def new_entry_def vc_get_tick)
qed

text \<open>What is counted where, when an agent writes at its home.\<close>
lemma write_counts:
  fixes s :: "'v room_net" and a k :: string and v :: 'v and now :: timestamp
  assumes ok: "room_net_ok home rid s" and few: "length (rn_written s) < 2 ^ 64 - 1"
    and c_def: "c = rs_clock (net_room rid s (home a))"
    and e0_def: "e0 = new_entry (net_room rid s (home a)) a k v now"
  shows "se_author e0 = a" "se_key e0 = k" "vc_get (se_clock e0) a = vc_get c a + 1"
    and "unat (vc_get c a + 1) = Suc (unat (vc_get c a))"
    and "\<not> counts (rs_clock (net_room rid s j)) e0"
    and "f \<in> set (rn_written s) \<Longrightarrow> \<not> counts (se_clock f) e0"
    and "e \<in> set (rn_written s) \<Longrightarrow> counts (se_clock e0) e \<Longrightarrow> counts c e"
proof -
  have writes: "writes_ok home rid s" using ok by (simp add: room_net_ok_def)
  note step = write_step [OF ok few, of "home a" a k v now, folded e0_def c_def]
  show own: "se_author e0 = a" "se_key e0 = k" "vc_get (se_clock e0) a = vc_get c a + 1"
    by (simp_all add: e0_def new_entry_def vc_get_tick c_def)
  show count: "unat (vc_get c a + 1) = Suc (unat (vc_get c a))"
    unfolding c_def by (rule word_count(2) [OF home_first(2) [OF ok] few])
  have fresh: "\<not> counts c' e0" if "vc_get c' a \<le> vc_get c a" for c'
    using that count by (simp add: counts_def own word_le_nat_alt)
  show "\<not> counts (rs_clock (net_room rid s j)) e0"
    using home_first(1) [OF ok, of j a] by (intro fresh) (simp add: c_def)
  show "\<not> counts (se_clock f) e0" if "f \<in> set (rn_written s)"
    using writes_okD(3) [OF writes that, of a] by (intro fresh) (simp add: c_def)
  show "counts c e" if "e \<in> set (rn_written s)" "counts (se_clock e0) e"
    using that(2) writes_okD(3) [OF writes that(1), of a]
    by (auto simp: counts_def step(7) c_def split: if_splits)
qed

lemma write_ok:
  fixes s :: "'v room_net" and a k :: string and v :: 'v and now :: timestamp
  assumes ok: "room_net_ok home rid s" and few: "length (rn_written s) < 2 ^ 64 - 1"
  defines "s' \<equiv> room_turn_step rid (Write (home a) a k v now) s"
  assumes ranked: "ranked_on stamp entry_wins se_key (set (rn_written s'))"
  shows "room_net_ok home rid s'"
    and "has_entry (net_room rid s j) e \<Longrightarrow> has_entry (net_room rid s' j) e"
proof -
  have nodes: "node_rooms_ok rid s" and writes: "writes_ok home rid s"
    and msgs: "\<And>m. m \<in> set (rn_flight s) \<Longrightarrow> message_ok rid s m"
    using ok by (simp_all add: room_net_ok_def)
  define r where "r = net_room rid s (home a)"
  define e0 where "e0 = new_entry r a k v now"
  have e0': "e0 = new_entry (net_room rid s (home a)) a k v now"
    by (simp add: e0_def r_def)
  note step = write_step [OF ok few, of "home a" a k v now, folded s'_def r_def, folded e0_def]
    and cnt = write_counts [OF ok few refl e0', folded r_def]
  have w': "set (rn_written s') = insert e0 (set (rn_written s))" "length (rn_written s') = Suc (length (rn_written s))"
    by (simp_all add: step(1))
  have rooms: "hm_get (sync_rooms (rn_nodes s' j)) rid =
      Some (if j = home a then fold apply_step [e0] (net_room rid s (home a)) else net_room rid s j)" for j
    by (simp add: step(3,4) r_def)
  have written: "set (rn_written s) \<union> set [e0] \<subseteq> set (rn_written s')" by (auto simp: w'(1))
  note offered = offered [OF nodes rooms ranked written]
  show "has_entry (net_room rid s j) e \<Longrightarrow> has_entry (net_room rid s' j) e"
    by (fact offered(3))
  have eq: "se_clock e0 \<le> rs_clock (net_room rid s' (home a))"
    by (simp add: less_eq_vector_clock_def step(3,6))
  have old: "has_entry (net_room rid s (home a)) e" "se_clock e \<le> se_clock e0"
    if "e \<in> set (rn_written s)" "counts (se_clock e0) e" for e
    using node_rooms_okD(5) [OF nodes that(1), of "home a"] counts_le [OF ok that(1), of "home a"] cnt(7) [OF that]
      step(8) by (auto simp: r_def less_vector_clock_def intro: order_trans)
  have "node_rooms_ok rid s'"
    by (rule offered_rooms_ok [OF nodes rooms ranked written]) (use cnt(5) old(1) in \<open>auto simp: w'(1)\<close>)
  moreover have "writes_ok home rid s'"
    unfolding writes_ok_def
  proof (intro ballI allI conjI impI)
    fix e assume e: "e \<in> set (rn_written s')"
    show "se_clock e \<le> rs_clock (net_room rid s' (home (se_author e)))"
      using e eq cnt(1) writes_okD(1) [OF writes, of e] offered(2) by (auto simp: w'(1) intro: order_trans)
    show "vc_get (se_clock e) (se_author e) \<noteq> 0"
      using e writes_okD(2) [OF writes, of e] cnt(4) by (auto simp: w'(1) cnt(1,3))
    fix b
    show "vc_get (se_clock e) b \<le> vc_get (rs_clock (net_room rid s' (home b))) b"
      using e writes_okD(3) [OF writes, of e b] home_first(1) [OF ok, of "home a" b]
        vc_leD [OF offered(2) [of "home b"], of b] vc_leD [OF eq, of b]
      by (cases "b = a") (auto simp: w'(1) step(7) r_def intro: order_trans)
    show "unat (vc_get (se_clock e) b) \<le> length (rn_written s')"
      using e writes_okD(4) [OF writes, of e b] home_first(2) [OF ok, of "home a" b] home_first(2) [OF ok, of "home a" a]
        cnt(4) by (auto simp: w' step(7) r_def)
    fix f assume "f \<in> set (rn_written s')" "counts (se_clock f) e"
    then show "se_clock e \<le> se_clock f"
      using e cnt(6) old(2) writes_okD(5) [OF writes, of e f] by (auto simp: w'(1))
  qed
  moreover have "message_ok rid s' m" if "message_ok rid s m" for m
    using that offered(2,3) cnt(6) by (cases m) (auto simp: w'(1) intro: order_trans)
  ultimately show "room_net_ok home rid s'"
    using msgs by (simp add: room_net_ok_def step(2))
qed

section \<open>Histories\<close>

lemma room_clock_ok:
  assumes "room_net_ok home rid s"
  shows "room_clock (rn_nodes s i) rid = Ok (rs_clock (net_room rid s i))"
  using node_rooms_okD(1) [of rid s i] assms by (simp add: room_net_ok_def room_clock_def)

lemma received_ok:
  assumes ok: "room_net_ok home rid s" and m: "message_ok rid s m"
    and ranked: "ranked_on stamp entry_wins se_key (set (rn_written s))"
  shows "room_net_ok home rid (received rid m s)"
    and "has_entry (net_room rid s j) e \<Longrightarrow> has_entry (net_room rid (received rid m s) j) e"
    and "rn_written (received rid m s) = rn_written s"
proof -
  have msgs: "\<And>m. m \<in> set (rn_flight s) \<Longrightarrow> message_ok rid s m"
    using ok by (simp add: room_net_ok_def)
  have "room_net_ok home rid (received rid m s)
    \<and> (has_entry (net_room rid s j) e \<longrightarrow> has_entry (net_room rid (received rid m s) j) e)
    \<and> rn_written (received rid m s) = rn_written s"
  proof (cases m)
    case (Asks i j c)
    show ?thesis
    proof (cases "build_delta (rn_nodes s j) rid j c")
      case (Inr d)
      with build_delta_ok [OF ok _ Inr, of i] m Asks msgs
      have "room_net_ok home rid (s\<lparr>rn_flight := rn_flight s @ [Brings i d]\<rparr>)"
        by (intro flight_ok [OF ok]) auto
      with Inr Asks show ?thesis by (simp add: received_def net_room_other)
    qed (simp add: Asks received_def ok)
  next
    case (Brings i d)
    with apply_delta_ok(1,2) [OF ok ranked, of i d] m show ?thesis
      by (simp add: received_def)
  qed
  then show "room_net_ok home rid (received rid m s)"
    "has_entry (net_room rid s j) e \<Longrightarrow> has_entry (net_room rid (received rid m s) j) e"
    "rn_written (received rid m s) = rn_written s"
    by auto
qed

lemma written_step:
  "\<exists>es. rn_written (room_turn_step rid t s) = rn_written s @ es \<and> length es \<le> 1"
  by (cases t) (auto simp: received_def split: sync_message.splits sum.splits prod.splits)

lemma turn_ok:
  assumes ok: "room_net_ok home rid s" and few: "length (rn_written s) < 2 ^ 64 - 1" and t: "at_home home t"
    and ranked: "ranked_on stamp entry_wins se_key (set (rn_written (room_turn_step rid t s)))"
  shows "room_net_ok home rid (room_turn_step rid t s)"
    and "has_entry (net_room rid s j) e \<Longrightarrow> has_entry (net_room rid (room_turn_step rid t s) j) e"
proof -
  have msgs: "\<And>m. m \<in> set (rn_flight s) \<Longrightarrow> message_ok rid s m"
    using ok by (simp add: room_net_ok_def)
  have "room_net_ok home rid (room_turn_step rid t s)
    \<and> (has_entry (net_room rid s j) e \<longrightarrow> has_entry (net_room rid (room_turn_step rid t s) j) e)"
  proof (cases t)
    case (Write i a k v now)
    with write_ok [OF ok few, of a k v now] t ranked show ?thesis by simp
  next
    case (Ask i j)
    have "room_net_ok home rid (s\<lparr>rn_flight := rn_flight s @ [Asks i j (rs_clock (net_room rid s i))]\<rparr>)"
      using msgs by (intro flight_ok [OF ok]) auto
    with Ask room_clock_ok [OF ok, of i] show ?thesis by (simp add: net_room_other)
  next
    case (Receive n)
    have "ranked_on stamp entry_wins se_key (set (rn_written s))"
      using written_step [of rid t s] by (auto intro: ranked_on_subset [OF ranked])
    with Receive received_ok(1,2) [OF ok msgs] ok show ?thesis by simp
  next
    case (Vanish n)
    have "room_net_ok home rid (s\<lparr>rn_flight := take n (rn_flight s) @ drop (Suc n) (rn_flight s)\<rparr>)"
      by (intro flight_ok [OF ok] msgs) (auto dest: in_set_takeD in_set_dropD)
    with Vanish show ?thesis by (simp add: net_room_other)
  qed
  then show "room_net_ok home rid (room_turn_step rid t s)"
    "has_entry (net_room rid s j) e \<Longrightarrow> has_entry (net_room rid (room_turn_step rid t s) j) e"
    by auto
qed

lemma run_written:
  "\<exists>es. rn_written (room_run rid ts s) = rn_written s @ es \<and> length es \<le> length ts"
proof (induction ts rule: rev_induct)
  case Nil
  then show ?case by (simp add: room_run_def)
next
  case (snoc t ts)
  then obtain es where es: "rn_written (room_run rid ts s) = rn_written s @ es" "length es \<le> length ts"
    by blast
  obtain es' where es': "rn_written (room_turn_step rid t (room_run rid ts s)) = rn_written (room_run rid ts s) @ es'"
    "length es' \<le> 1"
    using written_step by blast
  show ?case
    by (rule exI [of _ "es @ es'"]) (use es es' in \<open>simp add: room_run_def\<close>)
qed

lemma run_ok:
  assumes "room_net_ok home rid s" "length (rn_written s) + length ts < 2 ^ 64" "list_all (at_home home) ts"
    and "ranked_on stamp entry_wins se_key (set (rn_written (room_run rid ts s)))"
  shows "room_net_ok home rid (room_run rid ts s)
    \<and> (\<forall>j e. has_entry (net_room rid s j) e \<longrightarrow> has_entry (net_room rid (room_run rid ts s) j) e)"
  using assms(2-)
proof (induction ts rule: rev_induct)
  case Nil
  with assms(1) show ?case by (simp add: room_run_def)
next
  case (snoc t ts)
  let ?r = "room_run rid ts s"
  have run: "room_run rid (ts @ [t]) s = room_turn_step rid t ?r"
    by (simp add: room_run_def)
  have "ranked_on stamp entry_wins se_key (set (rn_written ?r))"
    using written_step [of rid t ?r] by (auto intro: ranked_on_subset [OF snoc.prems(3) [unfolded run]])
  then have IH: "room_net_ok home rid ?r"
    "\<forall>j e. has_entry (net_room rid s j) e \<longrightarrow> has_entry (net_room rid ?r j) e"
    using snoc.IH snoc.prems by simp_all
  have "length (rn_written ?r) < 2 ^ 64 - 1"
    using run_written [of rid ts s] snoc.prems(1) by auto
  from turn_ok [OF IH(1) this _ snoc.prems(3) [unfolded run]] IH(2) snoc.prems(2) show ?case
    unfolding run by simp
qed

lemma start_ok: "room_net_ok home rid (room_net_start mesh rid)"
  by (simp add: room_net_ok_def node_rooms_ok_def writes_ok_def net_room_def room_net_start_def
      rooms_init_room sync_new_def) (simp add: room_state_new_def)

text \<open>What any history from an empty network leads to.\<close>
lemma history_ok:
  assumes "list_all (at_home home) turns" "length turns < 2 ^ 64"
    and "causal_stamps (set (rn_written (room_run rid turns (room_net_start mesh rid))))"
  shows "room_net_ok home rid (room_run rid turns (room_net_start mesh rid))"
  using run_ok [OF start_ok _ assms(1) causal_stamps_ranked [OF assms(3)]] assms(2)
  by (simp add: room_net_start_def)

lemma net_get:
  assumes "room_net_ok home rid s"
  shows "sync_get (rn_nodes s i) rid k = ok_or (entry_view (net_room rid s i) k) (KeyNotFound k)"
  using node_rooms_okD(1) [of rid s i] assms by (simp add: room_net_ok_def sync_get_def entry_view_def)

text \<open>
  C14: Used as a pull, deltas never miss an update, provided the wall-clock stamps of the writes respect
  causality (among the writes of a key a causally later one has a later stamp, and equal clocks or stamps
  mean the same write). Agents write at their home nodes; nodes ask each
  other with their clocks and apply the answers; messages are delayed, reordered, repeated and lost.
  In every state so reached, a node whose clock counts a write holds that write's entry, or one under
  the same key with a later stamp: its clock never covers an update that it lacks.
\<close>
theorem asked_deltas_never_miss:
  assumes "s = room_run rid turns (room_net_start mesh rid)"
    and "list_all (at_home home) turns" and "length turns < 2 ^ 64"
    and "causal_stamps (set (rn_written s))"
    and "e \<in> set (rn_written s)" and "room_clock (rn_nodes s i) rid = Ok c"
    and "vc_get (se_clock e) (se_author e) \<le> vc_get c (se_author e)"
  shows "\<exists>x. sync_get (rn_nodes s i) rid (se_key e) = Ok x \<and> stamp e \<le> stamp x"
proof -
  have ok: "room_net_ok home rid s"
    using history_ok assms(1-4) by blast
  then have nodes: "node_rooms_ok rid s" by (simp add: room_net_ok_def)
  have "counts (rs_clock (net_room rid s i)) e"
    using assms(6,7) by (simp add: room_clock_ok [OF ok] counts_def)
  from node_rooms_okD(5) [OF nodes assms(5) this] show ?thesis
    by (auto simp: has_entry_def net_get [OF ok])
qed

text \<open>Two nodes and an agent at each: a write, a pull of which the answer is read twice, a question
  that is lost, a write of the second agent that has seen the first, and one that is concurrent.\<close>

definition demo_home :: "string \<Rightarrow> string" where
  "demo_home a = (if a = ''agent:alice'' then ''node:1'' else ''node:2'')"

definition demo_turns :: "nat room_turn list" where
  "demo_turns = [Write ''node:1'' ''agent:alice'' ''x'' 1 10, Ask ''node:2'' ''node:1'', Receive 0, Receive 1,
     Receive 1, Ask ''node:1'' ''node:2'', Vanish 2, Write ''node:2'' ''agent:bob'' ''x'' 2 20,
     Write ''node:1'' ''agent:alice'' ''y'' 3 30]"

definition demo_net :: "nat room_net" where
  "demo_net = room_run ''room:a'' demo_turns (room_net_start ''m'' ''room:a'')"

lemma demo_net:
  "list_all (at_home demo_home) demo_turns" "length demo_turns < 2 ^ 64"
  "causal_stamps (set (rn_written demo_net))"
  "\<And>e. e \<in> set (rn_written demo_net) \<Longrightarrow> demo_home (se_author e) \<in> {''node:1'', ''node:2''}"
proof -
  show "list_all (at_home demo_home) demo_turns" by code_simp
  show "length demo_turns < 2 ^ 64" by (simp add: demo_turns_def)
  show "causal_stamps (set (rn_written demo_net))" by code_simp
  show "demo_home (se_author e) \<in> {''node:1'', ''node:2''}" for e
    by (simp add: demo_home_def)
qed

lemma demo_net_written:
  "map se_value (rn_written demo_net) = [1, 2, 3]"
  by code_simp

theorem asked_deltas_never_miss_witness:
  "\<exists>e\<in>set (rn_written demo_net). se_value e = 1
     \<and> (\<exists>x. sync_get (rn_nodes demo_net ''node:2'') ''room:a'' (se_key e) = Ok x \<and> stamp e \<le> stamp x)"
proof -
  let ?P = "\<lambda>e. se_value e = 1 \<and> counts (rs_clock (net_room ''room:a'' demo_net ''node:2'')) e"
  have "list_ex ?P (rn_written demo_net)" by code_simp
  then obtain e where e: "e \<in> set (rn_written demo_net)" "?P e"
    by (auto simp: list_ex_iff)
  have "is_ok (room_clock (rn_nodes demo_net ''node:2'') ''room:a'')" by code_simp
  then have "room_clock (rn_nodes demo_net ''node:2'') ''room:a'' = Ok (rs_clock (net_room ''room:a'' demo_net ''node:2''))"
    by (auto simp: is_ok_iff room_clock_def net_room_def split: option.splits)
  from asked_deltas_never_miss [OF demo_net_def demo_net(1-3) e(1) this] e show ?thesis
    by (auto simp: counts_def)
qed

section \<open>Completed exchanges\<close>

lemma pull_ok:
  assumes ok: "room_net_ok home rid s" and ranked: "ranked_on stamp entry_wins se_key (set (rn_written s))"
  shows "room_net_ok home rid (pull rid ij s)" "rn_written (pull rid ij s) = rn_written s"
    and "has_entry (net_room rid s j) e \<Longrightarrow> has_entry (net_room rid (pull rid ij s) j) e"
    and "has_entry (net_room rid s (snd ij)) e \<Longrightarrow> e \<in> set (rn_written s) \<Longrightarrow>
      has_entry (net_room rid (pull rid ij s) (fst ij)) e"
proof -
  have nodes: "node_rooms_ok rid s" and msgs: "\<And>m. m \<in> set (rn_flight s) \<Longrightarrow> message_ok rid s m"
    using ok by (simp_all add: room_net_ok_def)
  obtain i j where ij: "ij = (i, j)" by fastforce
  let ?c = "rs_clock (net_room rid s i)"
  note room = node_rooms_okD(1) [OF nodes, of j] and rok = node_rooms_okD(2) [OF nodes, of j]
  obtain d where d: "build_delta (rn_nodes s j) rid j ?c = Ok d" and
    entries: "sd_entries d = filter (\<lambda>e. \<not> se_clock e \<le> ?c) (hm_values (rs_entries (net_room rid s j)))"
    by (simp add: build_delta_eq [OF room])
  let ?t = "s\<lparr>rn_flight := rn_flight s @ [Asks i j ?c, Brings i d]\<rparr>"
  have brings: "message_ok rid s (Brings i d)"
    by (rule build_delta_ok [OF ok _ d]) simp
  then have t: "room_net_ok home rid ?t"
    using msgs by (intro flight_ok [OF ok]) auto
  have pull: "pull rid ij s = received rid (Brings i d) ?t"
    using d by (simp add: pull_def room_run_def ij room_clock_ok [OF ok] received_def nth_append Let_def)
  have t_msg: "message_ok rid ?t (Brings i d)"
    using t by (simp add: room_net_ok_def)
  have rw: "ranked_on stamp entry_wins se_key (set (rn_written ?t))"
    using ranked by simp
  show "room_net_ok home rid (pull rid ij s)" "rn_written (pull rid ij s) = rn_written s"
    unfolding pull using received_ok(1,3) [OF t t_msg rw] by simp_all
  show keeps: "has_entry (net_room rid (pull rid ij s) j) e" if "has_entry (net_room rid s j) e" for j e
    unfolding pull using received_ok(2) [OF t t_msg rw] that by (simp add: net_room_other)
  assume has: "has_entry (net_room rid s (snd ij)) e" and e: "e \<in> set (rn_written s)"
  then obtain x where x: "entry_view (net_room rid s j) (se_key e) = Some x" "stamp e \<le> stamp x"
    by (auto simp: has_entry_def ij)
  have key: "se_key x = se_key e" and written: "x \<in> set (rn_written s)"
    using x(1) rok node_rooms_okD(3) [OF nodes, of j] by (auto simp: room_ok_def ran_def)
  show "has_entry (net_room rid (pull rid ij s) (fst ij)) e"
  proof (cases "se_clock x \<le> ?c")
    case True
    then have "has_entry (net_room rid s i) x"
      using node_rooms_okD(5) [OF nodes written] counts_own by blast
    then have "has_entry (net_room rid s i) e"
      using x(2) key by (auto simp: has_entry_def intro: order_trans)
    then show ?thesis using keeps ij by simp
  next
    case False
    then have "x \<in> set (sd_entries d)"
      using x(1) key values_entry_view [OF rok, of x] by (simp add: entries del: in_hm_values_iff)
    from apply_delta_ok(3) [OF t rw t_msg this key x(2)] show ?thesis
      unfolding pull by (simp add: received_def ij)
  qed
qed

lemma pulls_ok:
  assumes "room_net_ok home rid s" "ranked_on stamp entry_wins se_key (set (rn_written s))"
  shows "room_net_ok home rid (fold (pull rid) ps s) \<and> rn_written (fold (pull rid) ps s) = rn_written s
    \<and> (\<forall>e\<in>set (rn_written s). \<forall>j. has_entry (net_room rid s j) e \<longrightarrow>
         has_entry (net_room rid (fold (pull rid) ps s) j) e
         \<and> (\<forall>i. (i, j) \<in> set ps \<longrightarrow> has_entry (net_room rid (fold (pull rid) ps s) i) e))"
  using assms
proof (induction ps arbitrary: s)
  case Nil
  then show ?case by simp
next
  case (Cons ij ps)
  let ?s = "pull rid ij s"
  note p = pull_ok [OF Cons.prems, where ij = ij]
  have "ranked_on stamp entry_wins se_key (set (rn_written ?s))"
    using Cons.prems(2) p(2) by simp
  note IH = Cons.IH [OF p(1) this, unfolded p(2)]
  show ?case
    using IH p(3,4) by (auto simp: p(2)) (metis fst_conv snd_conv)+
qed

text \<open>
  C4: Rooms converge, provided the wall-clock stamps of the writes respect causality (among the writes
  of a key a causally later one has a later stamp, and equal clocks or stamps mean the same write). After any history of writes at home nodes, of questions and answers delayed,
  reordered, repeated and lost, let every node of a group that includes the writers' homes ask every
  other one once more, in any order, and be answered. Then all nodes of the group read the same at
  every key, and each write ever made reads back, unless one with a later stamp took its place.
\<close>
theorem room_network_converges:
  assumes "s = room_run rid turns (room_net_start mesh rid)"
    and "list_all (at_home home) turns" and "length turns < 2 ^ 64"
    and "causal_stamps (set (rn_written s))"
    and "\<And>e. e \<in> set (rn_written s) \<Longrightarrow> home (se_author e) \<in> N"
    and "\<And>i j. i \<in> N \<Longrightarrow> j \<in> N \<Longrightarrow> i \<noteq> j \<Longrightarrow> (i, j) \<in> set ps"
    and "t = fold (pull rid) ps s"
    and "i \<in> N" "j \<in> N"
  shows "sync_get (rn_nodes t i) rid = sync_get (rn_nodes t j) rid
     \<and> (\<forall>e\<in>set (rn_written s). \<exists>x. sync_get (rn_nodes t i) rid (se_key e) = Ok x \<and> stamp e \<le> stamp x)"
proof -
  have ok: "room_net_ok home rid s"
    using history_ok assms(1-4) by blast
  then have nodes: "node_rooms_ok rid s" and writes: "writes_ok home rid s"
    by (simp_all add: room_net_ok_def)
  note ranked = causal_stamps_ranked [OF assms(4)]
  note pulls = pulls_ok [OF ok ranked, of ps, folded assms(7)]
  have t: "room_net_ok home rid t" "node_rooms_ok rid t" "rn_written t = rn_written s"
    using pulls by (simp_all add: room_net_ok_def)
  have all: "has_entry (net_room rid t i) e" if e: "e \<in> set (rn_written s)" and i: "i \<in> N" for e i
  proof -
    let ?h = "home (se_author e)"
    have "has_entry (net_room rid s ?h) e"
      using node_rooms_okD(5) [OF nodes e] writes_okD(1) [OF writes e] counts_own by blast
    with pulls e assms(5) [OF e] assms(6) [OF i, of ?h] show ?thesis
      by (cases "i = ?h") auto
  qed
  have holds: "x \<in> set (rn_written s)" "se_key x = k" if "entry_view (net_room rid t i) k = Some x" for i k x
    using that node_rooms_okD(2,3) [OF t(2), of i] t(3) by (auto simp: ran_def room_ok_def)
  have same: "entry_view (net_room rid t j) k = Some x"
    if "entry_view (net_room rid t i) k = Some x" "i \<in> N" "j \<in> N" for i j k x
  proof -
    note x = holds [OF that(1)]
    from all [OF x(1) that(3)] x(2) obtain y where
      y: "entry_view (net_room rid t j) k = Some y" "stamp x \<le> stamp y"
      by (auto simp: has_entry_def)
    from all [OF holds(1) [OF y(1)] that(2)] holds(2) [OF y(1)] that(1) have "stamp y \<le> stamp x"
      by (auto simp: has_entry_def)
    with y(2) have "stamp x = stamp y" by simp
    with ranked_onD(2) [OF ranked x(1) holds(1) [OF y(1)]] x(2) holds(2) [OF y(1)] y(1) show ?thesis
      by simp
  qed
  have "entry_view (net_room rid t i) k = entry_view (net_room rid t j) k" for k
    using same [of i k _ j] same [of j k _ i] assms(8,9)
    by (cases "entry_view (net_room rid t i) k"; cases "entry_view (net_room rid t j) k") auto
  then have "sync_get (rn_nodes t i) rid = sync_get (rn_nodes t j) rid"
    by (simp add: net_get [OF t(1)] fun_eq_iff)
  moreover have "\<exists>x. sync_get (rn_nodes t i) rid (se_key e) = Ok x \<and> stamp e \<le> stamp x"
    if "e \<in> set (rn_written s)" for e
    using all [OF that assms(8)] by (auto simp: has_entry_def net_get [OF t(1)])
  ultimately show ?thesis by blast
qed


theorem room_network_converges_witness:
  "let t = fold (pull ''room:a'') [(''node:1'', ''node:2''), (''node:2'', ''node:1'')] demo_net
   in sync_get (rn_nodes t ''node:1'') ''room:a'' = sync_get (rn_nodes t ''node:2'') ''room:a''
     \<and> length (rn_written demo_net) = 3"
proof -
  let ?ps = "[(''node:1'', ''node:2''), (''node:2'', ''node:1'')]"
  have "length (rn_written demo_net) = 3"
    using arg_cong [OF demo_net_written, of length] by simp
  moreover have "(i, j) \<in> set ?ps" if "i \<in> {''node:1'', ''node:2''}" "j \<in> {''node:1'', ''node:2''}" "i \<noteq> j" for i j
    using that by auto
  ultimately show ?thesis
    using room_network_converges [OF demo_net_def demo_net(1-4) _ refl, of ?ps "''node:1''" "''node:2''"]
    by simp
qed

section \<open>An agent at two nodes\<close>

fun is_write :: "'v room_turn \<Rightarrow> bool" where
  "is_write (Write _ _ _ _ _) = True"
| "is_write _ = False"

text \<open>Entries of one key of which none replaces another.\<close>
definition twins :: "string \<Rightarrow> 'v state_entry set \<Rightarrow> bool" where
  "twins k E \<longleftrightarrow> (\<forall>e\<in>E. se_key e = k \<and> (\<forall>x\<in>E. se_clock e \<le> se_clock x))"

lemma twin_stays:
  assumes "twins k E" "set es \<subseteq> E" "x \<in> E" "entry_view room k = Some x"
  shows "entry_view (fold apply_step es room) k = Some x"
  using assms(2,4)
proof (induction es arbitrary: room)
  case (Cons e es)
  have "se_key e = k" "\<not> entry_wins e x"
    using assms(1,3) Cons.prems(1) by (auto simp: twins_def entry_wins_def less_vector_clock_def)
  with Cons.prems have "entry_view (apply_step e room) k = Some x"
    by (simp add: lww.view_offer)
  with Cons.IH Cons.prems(1) show ?case by simp
qed simp

text \<open>Only entries of \<open>E\<close> are about; two nodes hold one of them each.\<close>
definition stuck ::
    "string \<Rightarrow> string \<Rightarrow> 'v state_entry set \<Rightarrow> string \<times> 'v state_entry \<Rightarrow> string \<times> 'v state_entry
      \<Rightarrow> 'v room_net \<Rightarrow> bool" where
  "stuck rid k E p q s \<longleftrightarrow>
     (\<forall>n. \<exists>room. hm_get (sync_rooms (rn_nodes s n)) rid = Some room \<and> ran (entry_view room) \<subseteq> E)
     \<and> (\<forall>n d. Brings n d \<in> set (rn_flight s) \<longrightarrow> sd_room_id d = rid \<and> set (sd_entries d) \<subseteq> E)
     \<and> (\<forall>(n, x) \<in> {p, q}. x \<in> E \<and> entry_view (net_room rid s n) k = Some x)"

lemma stuckD:
  assumes "stuck rid k E p q s"
  shows "\<exists>room. hm_get (sync_rooms (rn_nodes s n)) rid = Some room \<and> ran (entry_view room) \<subseteq> E"
    "Brings n d \<in> set (rn_flight s) \<Longrightarrow> sd_room_id d = rid \<and> set (sd_entries d) \<subseteq> E"
  using assms unfolding stuck_def by blast+

lemma stuck_get:
  assumes "stuck rid k E p q s" "(n, x) = p \<or> (n, x) = q"
  shows "sync_get (rn_nodes s n) rid k = Ok x"
proof -
  obtain room where "hm_get (sync_rooms (rn_nodes s n)) rid = Some room"
    using stuckD(1) [OF assms(1)] by blast
  moreover have "entry_view (net_room rid s n) k = Some x"
    using assms unfolding stuck_def by blast
  ultimately show ?thesis
    by (simp add: sync_get_def net_room_def entry_view_def)
qed

lemma stuck_flight:
  assumes "stuck rid k E p q s"
    and "\<And>n d. Brings n d \<in> set fl \<Longrightarrow> sd_room_id d = rid \<and> set (sd_entries d) \<subseteq> E"
  shows "stuck rid k E p q (s\<lparr>rn_flight := fl\<rparr>)"
  using assms by (simp add: stuck_def net_room_def)

lemma stuck_received:
  assumes "twins k E" "stuck rid k E p q s" "m \<in> set (rn_flight s)"
  shows "stuck rid k E p q (received rid m s)"
proof (cases m)
  case (Asks i j c)
  obtain room where room: "hm_get (sync_rooms (rn_nodes s j)) rid = Some room" "ran (entry_view room) \<subseteq> E"
    using stuckD(1) [OF assms(2)] by blast
  have "set (hm_values (rs_entries room)) \<subseteq> E"
    using room(2) by (auto simp: entry_view_def ran_def)
  have "stuck rid k E p q (s\<lparr>rn_flight := rn_flight s @ [Brings i \<lparr>sd_room_id = rid, sd_from = j,
      sd_entries = filter (\<lambda>e. \<not> se_clock e \<le> c) (hm_values (rs_entries room))\<rparr>]\<rparr>)"
    using \<open>set (hm_values (rs_entries room)) \<subseteq> E\<close>
    by (intro stuck_flight [OF assms(2)]) (auto dest: stuckD(2) [OF assms(2)])
  then show ?thesis
    by (simp add: Asks received_def build_delta_eq [OF room(1)])
next
  case (Brings i d)
  have d: "sd_room_id d = rid" "set (sd_entries d) \<subseteq> E"
    using assms(2,3) by (auto simp: Brings stuck_def)
  obtain room where room: "hm_get (sync_rooms (rn_nodes s i)) rid = Some room" "ran (entry_view room) \<subseteq> E"
    using stuckD(1) [OF assms(2)] by blast
  have rooms': "hm_get (sync_rooms (fst (apply_delta (rn_nodes s i) d))) rid = Some (fold apply_step (sd_entries d) room)"
    using rooms_apply_delta [of "rn_nodes s i" d room] room(1) by (simp add: d(1))
  have ran: "ran (entry_view (fold apply_step (sd_entries d) room)) \<subseteq> E"
    using ran_offers [of "sd_entries d" room] d(2) room(2) by blast
  have keep: "entry_view (net_room rid (received rid m s) n) k = Some x"
    if "x \<in> E" "entry_view (net_room rid s n) k = Some x" for n x
    using twin_stays [OF assms(1) d(2) that(1), of room] that(2) rooms' room(1)
    by (auto simp: Brings received_def net_room_def)
  show ?thesis
    using assms(2) rooms' ran keep by (auto simp: stuck_def Brings received_def)
qed

lemma stuck_turn:
  assumes "twins k E" "stuck rid k E p q s" "\<not> is_write t"
  shows "stuck rid k E p q (room_turn_step rid t s)"
proof (cases t)
  case (Ask i j)
  obtain room where "hm_get (sync_rooms (rn_nodes s i)) rid = Some room"
    using stuckD(1) [OF assms(2)] by blast
  moreover have "stuck rid k E p q (s\<lparr>rn_flight := rn_flight s @ [Asks i j c]\<rparr>)" for c
    by (intro stuck_flight [OF assms(2)]) (auto dest: stuckD(2) [OF assms(2)])
  ultimately show ?thesis by (simp add: Ask room_clock_def)
next
  case (Receive n)
  then show ?thesis
    using stuck_received [OF assms(1,2)] assms(2) by simp
next
  case (Vanish n)
  have "stuck rid k E p q (s\<lparr>rn_flight := take n (rn_flight s) @ drop (Suc n) (rn_flight s)\<rparr>)"
    by (rule stuck_flight [OF assms(2)], rule stuckD(2) [OF assms(2)]) (auto dest: in_set_takeD in_set_dropD)
  with Vanish show ?thesis by simp
qed (use assms(3) in simp)

lemma stuck_run:
  assumes "twins k E" "stuck rid k E p q s" "list_all (\<lambda>t. \<not> is_write t) ts"
  shows "stuck rid k E p q (room_run rid ts s)"
  using assms(2,3)
  by (induction ts arbitrary: s) (simp_all add: room_run_def stuck_turn [OF assms(1)])

text \<open>
  C37: A room must be written by an agent at one node only. If an agent sets a key once at each of two
  nodes before either has heard of the other, the two entries carry equal clocks, and the nodes
  disagree for ever: whatever questions and answers follow, each still reads its own value, since no delta
  sends the other's and none would replace what is there.
\<close>
theorem two_homes_diverge:
  fixes v w :: 'v
  assumes "i \<noteq> j" and "list_all (\<lambda>t. \<not> is_write t) turns"
    and "s = room_run rid ([Write i a k v now, Write j a k w now'] @ turns) (room_net_start mesh rid)"
  shows "map_ok se_value (sync_get (rn_nodes s i) rid k) = Ok v
     \<and> map_ok se_value (sync_get (rn_nodes s j) rid k) = Ok w"
proof -
  define e where "e = (\<lambda>v now. new_entry (room_state_new rid :: 'v room_state) a k v now)"
  define s2 where "s2 = room_run rid [Write i a k v now, Write j a k w now'] (room_net_start mesh rid)"
  let ?start = "init_room (sync_new mesh) rid :: 'v room_state_sync"
  let ?E = "{e v now, e w now'}"
  have start: "hm_get (sync_rooms ?start) rid = Some (room_state_new rid)"
    by (simp add: rooms_init_room sync_new_def)
  define st where "st = (\<lambda>v now. fst (sync_set ?start rid a k v now))"
  have "snd (snd (sync_set ?start rid a k v now)) = Ok (e v now)" for v now
    using start by (simp add: sync_set_def e_def new_entry_def Let_def)
  then have set: "sync_set ?start rid a k v now = (st v now, fst (snd (sync_set ?start rid a k v now)), Ok (e v now))"
    for v now by (simp add: prod_eq_iff st_def)
  have writing: "room_turn_step rid (Write n a k v now) s = s\<lparr>rn_nodes := (rn_nodes s)(n := st v now),
      rn_written := rn_written s @ [e v now]\<rparr>" if "rn_nodes s n = ?start" for n v now s
    unfolding room_turn_step.simps that by (subst set) simp
  have rooms: "hm_get (sync_rooms (st v now)) rid = Some (apply_step (e v now) (room_state_new rid))" for v now
    using rooms_sync_set [OF start] by (simp add: e_def new_entry_def st_def)
  have key: "se_key (e v now) = k" for v now by (simp add: e_def new_entry_def)
  have view: "entry_view (apply_step (e v now) (room_state_new rid)) = [k \<mapsto> e v now]" for v now
    by (simp add: lww.view_offer key)
  have nodes: "rn_nodes s2 n = (if n = j then st w now' else if n = i then st v now else ?start)"
    and flight: "rn_flight s2 = []" for n
    using assms(1) by (simp_all add: s2_def room_run_def writing room_net_start_def del: room_turn_step.simps)
  have "twins k ?E"
    by (simp add: twins_def key) (simp add: e_def new_entry_def)
  moreover have "stuck rid k ?E (i, e v now) (j, e w now') s2"
    using assms(1) by (auto simp: stuck_def nodes flight net_room_def rooms view start)
  moreover have "s = room_run rid turns s2"
    by (simp add: assms(3) s2_def room_run_def)
  ultimately have "stuck rid k ?E (i, e v now) (j, e w now') s"
    using stuck_run assms(2) by blast
  then have "sync_get (rn_nodes s i) rid k = Ok (e v now)" "sync_get (rn_nodes s j) rid k = Ok (e w now')"
    by (simp_all add: stuck_get)
  then show ?thesis
    by (simp add: e_def new_entry_def)
qed

theorem two_homes_diverge_witness:
  "let s = room_run ''room:a'' ([Write ''node:1'' ''agent:alice'' ''x'' (1::nat) 10, Write ''node:2'' ''agent:alice'' ''x'' 2 20]
         @ [Ask ''node:1'' ''node:2'', Ask ''node:2'' ''node:1'', Receive 0, Receive 1, Receive 2, Receive 3])
         (room_net_start ''m'' ''room:a'')
   in map_ok se_value (sync_get (rn_nodes s ''node:1'') ''room:a'' ''x'') = Ok 1
      \<and> map_ok se_value (sync_get (rn_nodes s ''node:2'') ''room:a'' ''x'') = Ok 2"
proof -
  let ?turns = "[Ask ''node:1'' ''node:2'', Ask ''node:2'' ''node:1'', Receive 0, Receive 1, Receive 2, Receive 3]
    :: nat room_turn list"
  have "''node:1'' \<noteq> ''node:2''" "list_all (\<lambda>t. \<not> is_write t) ?turns"
    by simp_all
  from two_homes_diverge [OF this refl, of "''room:a''" "''agent:alice''" "''x''" 1 10 2 20 "''m''"]
  show ?thesis
    unfolding Let_def .
qed

end
