(* ===== verification/Discovery.thy ===== *)
theory Discovery
  imports Hash_Map Newest_Wins Events
begin

text \<open>
  The peer registry of a mesh (\<open>MeshRegistry\<close> of \<open>p2p/src/discovery.rs\<close>): announcing and removing
  peers, the look-ups and searches, and the three helpers of the gossip protocol. The registry is
  shown to be a keyed store for announcements, a newest-wins store for gossip and a reconciliation
  by digests, by interpreting the three locales on its operations.
\<close>

section \<open>Data\<close>

datatype peer_status = Available | Busy | Away

record peer_entry =
  pe_agent_id :: string
  pe_mesh_id :: string
  pe_display_name :: string
  pe_status :: peer_status
  pe_capabilities :: "string list"
  pe_last_seen :: timestamp

record announce_message =
  am_agent_id :: string
  am_mesh_id :: string
  am_display_name :: string
  am_status :: peer_status
  am_capabilities :: "string list"

record peer_query =
  pq_status :: "peer_status option"
  pq_capability :: "string option"
  pq_mesh_id :: "string option"

record gossip_digest =
  gd_agent_id :: string
  gd_last_seen :: timestamp

record gossip_pull =
  gpull_from :: string
  gpull_digests :: "gossip_digest list"

record gossip_push =
  gpush_entries :: "peer_entry list"

record mesh_registry =
  reg_mesh_id :: string
  reg_peers :: "(string, peer_entry) hash_map"

section \<open>Operations\<close>

definition registry_new :: "string \<Rightarrow> mesh_registry" where
  "registry_new mesh_id = \<lparr>reg_mesh_id = mesh_id, reg_peers = hm_new\<rparr>"

definition handle_announce ::
    "mesh_registry \<Rightarrow> announce_message \<Rightarrow> timestamp \<Rightarrow> mesh_registry \<times> event list \<times> peer_entry" where
  "handle_announce self msg now =
     (let entry = \<lparr>pe_agent_id = am_agent_id msg, pe_mesh_id = am_mesh_id msg,
                   pe_display_name = am_display_name msg, pe_status = am_status msg,
                   pe_capabilities = am_capabilities msg, pe_last_seen = now\<rparr>
      in (self\<lparr>reg_peers := hm_insert (am_agent_id msg) entry (reg_peers self)\<rparr>,
          [PeerAnnounced (am_agent_id msg) (am_mesh_id msg),
           PatchReady (reg_mesh_id self) (''peer '' @ am_agent_id msg @ '' announced'')],
          entry))"

definition registry_remove_peer ::
    "mesh_registry \<Rightarrow> string \<Rightarrow> mesh_registry \<times> event list \<times> peer_entry option" where
  "registry_remove_peer self agent_id =
     (let removed = hm_get (reg_peers self) agent_id
      in (self\<lparr>reg_peers := hm_remove agent_id (reg_peers self)\<rparr>,
          (if removed \<noteq> None
           then [PeerDeparted agent_id (reg_mesh_id self),
                 PatchReady (reg_mesh_id self) (''peer '' @ agent_id @ '' departed'')]
           else []),
          removed))"

definition get_peer :: "mesh_registry \<Rightarrow> string \<Rightarrow> peer_entry option" where
  "get_peer self agent_id = hm_get (reg_peers self) agent_id"

definition list_peers :: "mesh_registry \<Rightarrow> peer_entry list" where
  "list_peers self = hm_values (reg_peers self)"

definition peers_by_status :: "mesh_registry \<Rightarrow> peer_status \<Rightarrow> peer_entry list" where
  "peers_by_status self status = filter (\<lambda>p. pe_status p = status) (hm_values (reg_peers self))"

definition registry_peer_count :: "mesh_registry \<Rightarrow> nat" where
  "registry_peer_count self = hm_len (reg_peers self)"

definition has_capability :: "peer_entry \<Rightarrow> string \<Rightarrow> bool" where
  "has_capability p capability = list_ex (\<lambda>c. c = capability) (pe_capabilities p)"

definition peers_by_capability :: "mesh_registry \<Rightarrow> string \<Rightarrow> peer_entry list" where
  "peers_by_capability self capability =
     filter (\<lambda>p. has_capability p capability) (hm_values (reg_peers self))"

definition query_matches :: "peer_query \<Rightarrow> peer_entry \<Rightarrow> bool" where
  "query_matches query p =
     (if (case pq_status query of Some status \<Rightarrow> pe_status p \<noteq> status | None \<Rightarrow> False) then False
      else if (case pq_capability query of Some cap \<Rightarrow> \<not> has_capability p cap | None \<Rightarrow> False)
      then False
      else if (case pq_mesh_id query of Some mesh \<Rightarrow> pe_mesh_id p \<noteq> mesh | None \<Rightarrow> False) then False
      else True)"

definition search_peers :: "mesh_registry \<Rightarrow> peer_query \<Rightarrow> peer_entry list" where
  "search_peers self query = filter (query_matches query) (hm_values (reg_peers self))"

section \<open>Gossip helpers\<close>

definition build_digest :: "mesh_registry \<Rightarrow> gossip_digest list" where
  "build_digest self =
     map (\<lambda>p. \<lparr>gd_agent_id = pe_agent_id p, gd_last_seen = pe_last_seen p\<rparr>)
       (hm_values (reg_peers self))"

definition pull_answers :: "(string, gossip_digest) hash_map \<Rightarrow> string \<times> peer_entry \<Rightarrow> bool" where
  "pull_answers remote = (\<lambda>(id, entry).
     (case hm_get remote id of
        None \<Rightarrow> True
      | Some digest \<Rightarrow> gd_last_seen digest < pe_last_seen entry))"

definition handle_gossip_pull :: "mesh_registry \<Rightarrow> gossip_pull \<Rightarrow> gossip_push" where
  "handle_gossip_pull self pull =
     (let remote = hm_collect (map (\<lambda>d. (gd_agent_id d, d)) (gpull_digests pull))
      in \<lparr>gpush_entries = map snd (filter (pull_answers remote) (hm_entries (reg_peers self)))\<rparr>)"

definition merge_gossip_entry ::
    "mesh_registry \<Rightarrow> peer_entry \<Rightarrow> mesh_registry \<times> event list" where
  "merge_gossip_entry self entry =
     (let dominated = (case hm_get (reg_peers self) (pe_agent_id entry) of
                         None \<Rightarrow> True
                       | Some existing \<Rightarrow> pe_last_seen existing < pe_last_seen entry)
      in if dominated
         then (self\<lparr>reg_peers := hm_insert (pe_agent_id entry) entry (reg_peers self)\<rparr>,
               [PeerAnnounced (pe_agent_id entry) (pe_mesh_id entry)])
         else (self, []))"

fun merge_gossip_entries ::
    "mesh_registry \<Rightarrow> peer_entry list \<Rightarrow> event list \<Rightarrow> mesh_registry \<times> event list" where
  "merge_gossip_entries self [] evs = (self, evs)"
| "merge_gossip_entries self (entry # es) evs =
     (let (self', ev) = merge_gossip_entry self entry
      in merge_gossip_entries self' es (evs @ ev))"

definition merge_gossip_push :: "mesh_registry \<Rightarrow> gossip_push \<Rightarrow> mesh_registry \<times> event list" where
  "merge_gossip_push self push = merge_gossip_entries self (gpush_entries push) []"

section \<open>The registry as a store\<close>

lemma get_peer_announce [simp]:
  "get_peer (fst (handle_announce reg msg now)) =
     (get_peer reg)(am_agent_id msg \<mapsto> snd (snd (handle_announce reg msg now)))"
  by (simp add: get_peer_def handle_announce_def Let_def fun_eq_iff)

lemma get_peer_remove [simp]:
  "get_peer (fst (registry_remove_peer reg a)) = (get_peer reg)(a := None)"
  by (simp add: get_peer_def registry_remove_peer_def Let_def fun_eq_iff)

lemma get_peer_new [simp]: "get_peer (registry_new m) = Map.empty"
  by (simp add: get_peer_def registry_new_def fun_eq_iff)

lemma in_list_peers [simp]: "p \<in> set (list_peers reg) \<longleftrightarrow> (\<exists>a. get_peer reg a = Some p)"
  by (simp add: list_peers_def get_peer_def)

definition announced :: "announce_message \<times> timestamp \<Rightarrow> peer_entry" where
  "announced = (\<lambda>(msg, now). \<lparr>pe_agent_id = am_agent_id msg, pe_mesh_id = am_mesh_id msg,
     pe_display_name = am_display_name msg, pe_status = am_status msg,
     pe_capabilities = am_capabilities msg, pe_last_seen = now\<rparr>)"

interpretation peers: keyed_store get_peer "\<lambda>(msg, now). am_agent_id msg" announced
    "\<lambda>(msg, now) reg. fst (handle_announce reg msg now)" "\<lambda>a reg. fst (registry_remove_peer reg a)"
  by unfold_locales (auto simp: announced_def handle_announce_def Let_def get_peer_def fun_eq_iff
      registry_remove_peer_def)

abbreviation peer_newer :: "peer_entry \<Rightarrow> peer_entry \<Rightarrow> bool" where
  "peer_newer e x \<equiv> pe_last_seen x < pe_last_seen e"

abbreviation merge_step :: "peer_entry \<Rightarrow> mesh_registry \<Rightarrow> mesh_registry" where
  "merge_step e reg \<equiv> fst (merge_gossip_entry reg e)"

abbreviation merge_all :: "peer_entry list \<Rightarrow> mesh_registry \<Rightarrow> mesh_registry" where
  "merge_all es reg \<equiv> fst (merge_gossip_push reg \<lparr>gpush_entries = es\<rparr>)"

abbreviation answer_pull :: "mesh_registry \<Rightarrow> gossip_digest list \<Rightarrow> peer_entry list" where
  "answer_pull reg ds \<equiv> gpush_entries (handle_gossip_pull reg \<lparr>gpull_from = [], gpull_digests = ds\<rparr>)"

interpretation peer_lww: newest_wins get_peer pe_agent_id peer_newer merge_step
  by unfold_locales
    (auto simp: merge_gossip_entry_def get_peer_def Let_def fun_eq_iff split: option.splits)

lemma fst_merge_gossip_entries: "fst (merge_gossip_entries reg es evs) = fold merge_step es reg"
  by (induction es arbitrary: reg evs) (auto simp: case_prod_beta Let_def)

lemma merge_all_fold: "merge_all es reg = fold merge_step es reg"
  by (simp add: merge_gossip_push_def fst_merge_gossip_entries)

lemma answer_pull_from: "handle_gossip_pull reg \<lparr>gpull_from = f, gpull_digests = ds\<rparr>
    = \<lparr>gpush_entries = answer_pull reg ds\<rparr>"
  by (simp add: handle_gossip_pull_def Let_def)


lemma keyed_values:
  "peer_lww.keyed reg \<Longrightarrow> map pe_agent_id (hm_values (reg_peers reg)) = hm_keys (reg_peers reg)"
  by (auto simp: hm_values_def hm_keys_def peer_lww.keyed_def get_peer_def hm_entries_iff [symmetric]
      simp del: hm_entries_iff)

definition digest_of :: "peer_entry \<Rightarrow> gossip_digest" where
  "digest_of p = \<lparr>gd_agent_id = pe_agent_id p, gd_last_seen = pe_last_seen p\<rparr>"

lemma gd_digest_of [simp]:
  "gd_agent_id (digest_of p) = pe_agent_id p" "gd_last_seen (digest_of p) = pe_last_seen p"
  by (simp_all add: digest_of_def)

lemma build_digest_eq: "build_digest reg = map digest_of (list_peers reg)"
  by (simp add: build_digest_def digest_of_def list_peers_def)

lemma remote_lookup:
  assumes "peer_lww.keyed reg"
  shows "hm_get (hm_collect (map (\<lambda>d. (gd_agent_id d, d)) (build_digest reg))) a
    = map_option digest_of (get_peer reg a)"
proof (cases "get_peer reg a")
  case None
  then have "a \<notin> pe_agent_id ` set (list_peers reg)"
    using assms by (auto simp: peer_lww.keyed_def)
  with None show ?thesis
    by (simp add: hm_get_collect_None build_digest_eq image_image)
next
  case (Some p)
  have "distinct (map fst (map (\<lambda>d. (gd_agent_id d, d)) (build_digest reg)))"
    using keyed_values [OF assms] by (simp add: build_digest_eq list_peers_def comp_def)
  moreover have "(a, digest_of p) \<in> set (map (\<lambda>d. (gd_agent_id d, d)) (build_digest reg))"
    using Some assms by (force simp: build_digest_eq peer_lww.keyed_def)
  ultimately show ?thesis
    using Some by (simp add: hm_get_collect_distinct del: map_map)
qed

text \<open>What a pull is answered with, for any digest the requester sends.\<close>
lemma in_handle_gossip_pull:
  assumes "peer_lww.keyed reg"
  shows "e \<in> set (gpush_entries (handle_gossip_pull reg pull)) \<longleftrightarrow>
     get_peer reg (pe_agent_id e) = Some e
     \<and> (case hm_get (hm_collect (map (\<lambda>d. (gd_agent_id d, d)) (gpull_digests pull))) (pe_agent_id e) of
          None \<Rightarrow> True | Some d \<Rightarrow> gd_last_seen d < pe_last_seen e)"
proof -
  let ?remote = "hm_collect (map (\<lambda>d. (gd_agent_id d, d)) (gpull_digests pull))"
  have "e \<in> set (gpush_entries (handle_gossip_pull reg pull)) \<longleftrightarrow>
      (\<exists>a. get_peer reg a = Some e \<and> pull_answers ?remote (a, e))"
    by (simp add: handle_gossip_pull_def Let_def get_peer_def image_iff Bex_def)
  also have "\<dots> \<longleftrightarrow> get_peer reg (pe_agent_id e) = Some e \<and> pull_answers ?remote (pe_agent_id e, e)"
    using assms by (auto simp: peer_lww.keyed_def)
  finally show ?thesis by (simp add: pull_answers_def)
qed

lemma answer_pull_distinct:
  assumes "peer_lww.keyed reg"
  shows "distinct (map pe_agent_id (answer_pull reg ds))"
proof -
  let ?P = "pull_answers (hm_collect (map (\<lambda>d. (gd_agent_id d, d)) ds))"
  have "\<forall>x\<in>set (hm_entries (reg_peers reg)). pe_agent_id (snd x) = fst x"
    using assms by (auto simp: peer_lww.keyed_def get_peer_def)
  then have "map pe_agent_id (answer_pull reg ds) = map fst (filter ?P (hm_entries (reg_peers reg)))"
    by (auto simp: handle_gossip_pull_def Let_def intro!: map_cong)
  moreover have "distinct (map fst (filter ?P (hm_entries (reg_peers reg))))"
    by (rule distinct_map_filter) simp
  ultimately show ?thesis by (simp only:)
qed

interpretation gsync: digest_sync get_peer pe_agent_id peer_newer merge_step pe_last_seen
    build_digest answer_pull merge_all
proof (unfold_locales, goal_cases)
  case (1 e x)
  show ?case by simp
next
  case (2 es s)
  show ?case by (simp add: merge_all_fold)
next
  case (3 a b e)
  then show ?case
    by (simp add: in_handle_gossip_pull remote_lookup split: option.splits)
next
  case (4 a d)
  then show ?case by (rule answer_pull_distinct)
qed


section \<open>Reachable registries\<close>

inductive registry_step :: "mesh_registry \<Rightarrow> mesh_registry \<Rightarrow> bool" where
  reg_announce: "registry_step reg (fst (handle_announce reg msg now))"
| reg_remove: "registry_step reg (fst (registry_remove_peer reg a))"
| reg_merge: "registry_step reg (fst (merge_gossip_push reg push))"

inductive registry_reachable :: "string \<Rightarrow> mesh_registry \<Rightarrow> bool" for mesh where
  reg_start: "registry_reachable mesh (registry_new mesh)"
| reg_next: "registry_reachable mesh reg \<Longrightarrow> registry_step reg reg' \<Longrightarrow> registry_reachable mesh reg'"

lemma keyed_announce: "peer_lww.keyed reg \<Longrightarrow> peer_lww.keyed (fst (handle_announce reg msg now))"
  by (auto simp: peer_lww.keyed_def handle_announce_def get_peer_def Let_def split: if_splits)

lemma keyed_remove: "peer_lww.keyed reg \<Longrightarrow> peer_lww.keyed (fst (registry_remove_peer reg a))"
  by (auto simp: peer_lww.keyed_def split: if_splits)

lemma keyed_merge: "peer_lww.keyed reg \<Longrightarrow> peer_lww.keyed (fst (merge_gossip_push reg push))"
  by (simp add: merge_gossip_push_def fst_merge_gossip_entries peer_lww.keyed_offers)

lemma registry_reachable_keyed: "registry_reachable mesh reg \<Longrightarrow> peer_lww.keyed reg"
proof (induction rule: registry_reachable.induct)
  case reg_start
  show ?case by (simp add: peer_lww.keyed_def)
next
  case (reg_next reg reg')
  from reg_next.hyps(2) reg_next.IH show ?case
    by (cases rule: registry_step.cases) (auto intro: keyed_announce keyed_remove keyed_merge)
qed

text \<open>Two announcements, on two nodes of a mesh.\<close>

definition announce_of :: "string \<Rightarrow> announce_message" where
  "announce_of a = \<lparr>am_agent_id = a, am_mesh_id = ''mesh:test'', am_display_name = a,
     am_status = Available, am_capabilities = [''announce'']\<rparr>"

definition demo_reg :: "(string \<times> timestamp) list \<Rightarrow> mesh_registry" where
  "demo_reg ps = fold (\<lambda>(a, t) reg. fst (handle_announce reg (announce_of a) t)) ps
     (registry_new ''mesh:test'')"

lemma demo_reg_reachable: "registry_reachable ''mesh:test'' (demo_reg ps)"
proof -
  have "registry_reachable ''mesh:test'' reg \<Longrightarrow> registry_reachable ''mesh:test''
      (fold (\<lambda>(a, t) reg. fst (handle_announce reg (announce_of a) t)) ps reg)" for reg
    by (induction ps arbitrary: reg) (auto intro: reg_next reg_announce)
  then show ?thesis by (simp add: demo_reg_def reg_start)
qed

section \<open>Properties\<close>

text \<open>
  \<open>search_peers\<close> returns exactly the registered peers that satisfy every filter the query
  sets (status, a capability the peer lists, mesh id), each of them once; an unset filter excludes
  nothing. \<open>peers_by_status\<close>, \<open>peers_by_capability\<close> and \<open>list_peers\<close> are the searches with only
  that filter, and with none.
\<close>
theorem search_peers_spec:
  assumes "registry_reachable mesh reg"
  shows "distinct (map pe_agent_id (search_peers reg query))
     \<and> set (search_peers reg query) =
         {p. get_peer reg (pe_agent_id p) = Some p
             \<and> pq_status query \<in> {None, Some (pe_status p)}
             \<and> set_option (pq_capability query) \<subseteq> set (pe_capabilities p)
             \<and> pq_mesh_id query \<in> {None, Some (pe_mesh_id p)}}
     \<and> peers_by_status reg status =
         search_peers reg \<lparr>pq_status = Some status, pq_capability = None, pq_mesh_id = None\<rparr>
     \<and> peers_by_capability reg cap =
         search_peers reg \<lparr>pq_status = None, pq_capability = Some cap, pq_mesh_id = None\<rparr>
     \<and> list_peers reg =
         search_peers reg \<lparr>pq_status = None, pq_capability = None, pq_mesh_id = None\<rparr>"
proof -
  note keyed = registry_reachable_keyed [OF assms]
  have "distinct (map pe_agent_id (search_peers reg query))"
    unfolding search_peers_def using keyed_values [OF keyed]
    by (intro distinct_map_filter) simp
  moreover have "p \<in> set (search_peers reg query) \<longleftrightarrow>
      get_peer reg (pe_agent_id p) = Some p \<and> query_matches query p" for p
    using keyed by (auto simp: search_peers_def peer_lww.keyed_def get_peer_def)
  moreover have "query_matches query p \<longleftrightarrow>
      pq_status query \<in> {None, Some (pe_status p)}
      \<and> set_option (pq_capability query) \<subseteq> set (pe_capabilities p)
      \<and> pq_mesh_id query \<in> {None, Some (pe_mesh_id p)}" for p
    by (auto simp: query_matches_def has_capability_def list_ex_iff split: option.splits)
  moreover have "peers_by_status reg status =
      search_peers reg \<lparr>pq_status = Some status, pq_capability = None, pq_mesh_id = None\<rparr>"
    and "peers_by_capability reg cap =
      search_peers reg \<lparr>pq_status = None, pq_capability = Some cap, pq_mesh_id = None\<rparr>"
    and "list_peers reg =
      search_peers reg \<lparr>pq_status = None, pq_capability = None, pq_mesh_id = None\<rparr>"
    by (simp_all add: peers_by_status_def peers_by_capability_def list_peers_def search_peers_def
        query_matches_def cong: filter_cong)
  ultimately show ?thesis by (simp add: set_eq_iff)
qed

theorem search_peers_spec_witness:
  "distinct (map pe_agent_id (search_peers (demo_reg [(''agent:alice'', 10)])
      \<lparr>pq_status = Some Available, pq_capability = Some ''announce'', pq_mesh_id = None\<rparr>))"
  using search_peers_spec [OF demo_reg_reachable] by blast

text \<open>
  A gossip pull is answered exactly. The push holds each registered peer that the requester's
  digests do not mention, or mention with an older \<open>last_seen\<close>, once, and nothing else; when the
  digests are those of another registry these are the peers that registry lacks or has older.
\<close>
theorem gossip_pull_exact:
  assumes "registry_reachable mesh a" and "registry_reachable mesh' b"
    and "gpull_digests pull = build_digest b"
  shows "distinct (map pe_agent_id (gpush_entries (handle_gossip_pull a pull)))
     \<and> set (gpush_entries (handle_gossip_pull a pull)) =
       {e. get_peer a (pe_agent_id e) = Some e
           \<and> (get_peer b (pe_agent_id e) = None
              \<or> (\<exists>x. get_peer b (pe_agent_id e) = Some x \<and> pe_last_seen x < pe_last_seen e))}"
proof -
  note keyed = registry_reachable_keyed [OF assms(1)] registry_reachable_keyed [OF assms(2)]
  have eq: "gpush_entries (handle_gossip_pull a pull) = answer_pull a (build_digest b)"
    using assms(3) by (simp add: handle_gossip_pull_def Let_def)
  show ?thesis
    unfolding eq using gsync.diff_spec [OF keyed] answer_pull_distinct [OF keyed(1)]
    by (auto split: option.splits)
qed

theorem gossip_pull_exact_witness:
  "distinct (map pe_agent_id (gpush_entries (handle_gossip_pull
      (demo_reg [(''agent:alice'', 10), (''agent:bob'', 20)])
      \<lparr>gpull_from = ''node-b'', gpull_digests = build_digest (demo_reg [(''agent:alice'', 15)])\<rparr>)))"
  using gossip_pull_exact [OF demo_reg_reachable demo_reg_reachable,
      of "\<lparr>gpull_from = ''node-b'', gpull_digests = build_digest (demo_reg [(''agent:alice'', 15)])\<rparr>"
        "[(''agent:alice'', 15)]" "[(''agent:alice'', 10), (''agent:bob'', 20)]"]
  by simp

end
