(* ===== verification/Gossip.thy ===== *)
theory Gossip
  imports Discovery
begin

text \<open>
  The gossip protocol between the nodes of a mesh (\<open>p2p/src/gossip.rs\<close>). A router holds the
  channels to the connected gossip peers and a handle to the registry of its node; the registry is
  shared with the rest of the node, so the operations here take it as an argument and return it
  when they change it. A channel is a handle \<open>chan\<close>; \<open>send_ok c\<close> says whether a send on \<open>c\<close>
  succeeds (its receiver has not been dropped), and an operation returns the list of the messages
  it sent with the channels they went to.
\<close>

section \<open>Data\<close>

datatype gossip_message = Pull gossip_pull | Push gossip_push

datatype gossip_error = PeerNotConnected string | GossipSendFailed string

fun gossip_error_msg :: "gossip_error \<Rightarrow> string" where
  "gossip_error_msg (PeerNotConnected p) = ''gossip peer not connected: '' @ p"
| "gossip_error_msg (GossipSendFailed p) = ''failed to send gossip message to peer: '' @ p"

record gossip_peer =
  gp_tx :: chan

record gossip_router =
  gr_node_id :: string
  gr_peers :: "(string, gossip_peer) hash_map"

type_synonym gossip_sent = "(chan \<times> gossip_message) list"

section \<open>Operations\<close>

definition gossip_router_new :: "string \<Rightarrow> gossip_router" where
  "gossip_router_new node_id = \<lparr>gr_node_id = node_id, gr_peers = hm_new\<rparr>"

text \<open>\<open>tx\<close> is the channel \<open>mpsc::channel(buffer)\<close> makes; its receiver is what \<open>add_peer\<close> returns.\<close>
definition gossip_add_peer :: "gossip_router \<Rightarrow> string \<Rightarrow> chan \<Rightarrow> gossip_router \<times> chan" where
  "gossip_add_peer self peer_node_id tx =
     (self\<lparr>gr_peers := hm_insert peer_node_id \<lparr>gp_tx = tx\<rparr> (gr_peers self)\<rparr>, tx)"

definition gossip_remove_peer :: "gossip_router \<Rightarrow> string \<Rightarrow> gossip_router \<times> bool" where
  "gossip_remove_peer self peer_node_id =
     (let removed = hm_get (gr_peers self) peer_node_id \<noteq> None
      in (self\<lparr>gr_peers := hm_remove peer_node_id (gr_peers self)\<rparr>, removed))"

definition initiate_pull ::
    "(chan \<Rightarrow> bool) \<Rightarrow> gossip_router \<Rightarrow> mesh_registry \<Rightarrow> string
      \<Rightarrow> gossip_sent \<times> (gossip_error, unit) result" where
  "initiate_pull send_ok self registry peer_node_id =
     (let pull = \<lparr>gpull_from = gr_node_id self, gpull_digests = build_digest registry\<rparr>
      in case hm_get (gr_peers self) peer_node_id of
           None \<Rightarrow> ([], Err (PeerNotConnected peer_node_id))
         | Some peer \<Rightarrow>
             if send_ok (gp_tx peer) then ([(gp_tx peer, Pull pull)], Ok ())
             else ([], Err (GossipSendFailed peer_node_id)))"

fun pull_each ::
    "(chan \<Rightarrow> bool) \<Rightarrow> gossip_router \<Rightarrow> mesh_registry \<Rightarrow> string list
      \<Rightarrow> gossip_sent \<times> (string \<times> (gossip_error, unit) result) list" where
  "pull_each send_ok self registry [] = ([], [])"
| "pull_each send_ok self registry (peer_id # ids) =
     (let (sent, res) = initiate_pull send_ok self registry peer_id;
          (sents, results) = pull_each send_ok self registry ids
      in (sent @ sents, (peer_id, res) # results))"

definition initiate_pull_all ::
    "(chan \<Rightarrow> bool) \<Rightarrow> gossip_router \<Rightarrow> mesh_registry
      \<Rightarrow> gossip_sent \<times> (string \<times> (gossip_error, unit) result) list" where
  "initiate_pull_all send_ok self registry =
     pull_each send_ok self registry (hm_keys (gr_peers self))"

fun gossip_handle_message ::
    "(chan \<Rightarrow> bool) \<Rightarrow> gossip_router \<Rightarrow> mesh_registry \<Rightarrow> string \<Rightarrow> gossip_message
      \<Rightarrow> mesh_registry \<times> event list \<times> gossip_sent \<times> (gossip_error, unit) result" where
  "gossip_handle_message send_ok self registry from_peer (Pull pull) =
     (let push = handle_gossip_pull registry pull
      in case hm_get (gr_peers self) from_peer of
           None \<Rightarrow> (registry, [], [], Err (PeerNotConnected from_peer))
         | Some peer \<Rightarrow>
             if send_ok (gp_tx peer) then (registry, [], [(gp_tx peer, Push push)], Ok ())
             else (registry, [], [], Err (GossipSendFailed from_peer)))"
| "gossip_handle_message send_ok self registry from_peer (Push push) =
     (let (registry', evs) = merge_gossip_push registry push
      in (registry', evs, [], Ok ()))"

text \<open>
  One turn of the loop of \<open>spawn_periodic_gossip\<close>: pull from every peer; the failures are logged as
  warnings (peer and error) and otherwise ignored.
\<close>
definition periodic_gossip_tick ::
    "(chan \<Rightarrow> bool) \<Rightarrow> gossip_router \<Rightarrow> mesh_registry
      \<Rightarrow> gossip_sent \<times> (string \<times> gossip_error) list" where
  "periodic_gossip_tick send_ok self registry =
     (let (sent, results) = initiate_pull_all send_ok self registry
      in (sent, List.map_filter (\<lambda>(peer_id, result).
             case result of Inl e \<Rightarrow> Some (peer_id, e) | Inr _ \<Rightarrow> None) results))"

definition gossip_peer_count :: "gossip_router \<Rightarrow> nat" where
  "gossip_peer_count self = hm_len (gr_peers self)"

text \<open>\<open>gossip_pair\<close>, with the two channels it makes (the receivers it returns are their ends).\<close>
definition gossip_pair ::
    "string \<Rightarrow> string \<Rightarrow> chan \<Rightarrow> chan \<Rightarrow> gossip_router \<times> chan \<times> gossip_router \<times> chan" where
  "gossip_pair node_a_id node_b_id tx_b_to_a tx_a_to_b =
     (let router_a = gossip_router_new node_a_id;
          router_b = gossip_router_new node_b_id;
          (router_b, rx_from_a) = gossip_add_peer router_b node_a_id tx_b_to_a;
          (router_a, rx_from_b) = gossip_add_peer router_a node_b_id tx_a_to_b
      in (router_a, rx_from_b, router_b, rx_from_a))"

section \<open>Sending\<close>

lemma initiate_pull_Ok_iff:
  "snd (initiate_pull ok self reg p) = Ok () \<longleftrightarrow>
     (\<exists>peer. hm_get (gr_peers self) p = Some peer \<and> ok (gp_tx peer))"
  by (auto simp: initiate_pull_def Let_def split: option.splits)

lemma set_pull_each:
  "set (snd (pull_each ok self reg ids)) = (\<lambda>p. (p, snd (initiate_pull ok self reg p))) ` set ids"
  "map fst (snd (pull_each ok self reg ids)) = ids"
  "fst (pull_each ok self reg ids) = concat (map (\<lambda>p. fst (initiate_pull ok self reg p)) ids)"
  by (induction ids) (auto simp: case_prod_beta Let_def)

section \<open>A round between two nodes\<close>

text \<open>
  The registries of the two nodes of a pair after the message exchange that a pull of \<open>b\<close> starts:
  \<open>b\<close> initiates, \<open>a\<close> handles the pull, \<open>b\<close> handles the push. Messages go over the wire from the
  lists the operations return.
\<close>
definition deliver_to ::
    "(chan \<Rightarrow> bool) \<Rightarrow> gossip_router \<Rightarrow> mesh_registry \<Rightarrow> string \<Rightarrow> gossip_sent
      \<Rightarrow> mesh_registry \<times> gossip_sent" where
  "deliver_to ok self reg from sent =
     fold (\<lambda>(_, msg) (reg, out). let (reg', _, out', _) = gossip_handle_message ok self reg from msg
                                  in (reg', out @ out')) sent (reg, [])"

definition pull_round ::
    "(chan \<Rightarrow> bool) \<Rightarrow> gossip_router \<Rightarrow> mesh_registry \<Rightarrow> gossip_router \<Rightarrow> mesh_registry
      \<Rightarrow> mesh_registry" where
  "pull_round ok router_a reg_a router_b reg_b =
     (let (pulls, _) = initiate_pull ok router_b reg_b (gr_node_id router_a);
          (_, pushes) = deliver_to ok router_a reg_a (gr_node_id router_b) pulls;
          (reg_b', _) = deliver_to ok router_b reg_b (gr_node_id router_a) pushes
      in reg_b')"

text \<open>Each router is connected to the other, over a channel that is open.\<close>
definition connected :: "(chan \<Rightarrow> bool) \<Rightarrow> gossip_router \<Rightarrow> gossip_router \<Rightarrow> bool" where
  "connected ok ra rb \<longleftrightarrow>
     (case hm_get (gr_peers ra) (gr_node_id rb) of None \<Rightarrow> False | Some p \<Rightarrow> ok (gp_tx p))
     \<and> (case hm_get (gr_peers rb) (gr_node_id ra) of None \<Rightarrow> False | Some p \<Rightarrow> ok (gp_tx p))"

lemma connected_pair:
  assumes "gossip_pair na nb c d = (ra, rxb, rb, rxa)" "ok c" "ok d"
  shows "connected ok ra rb"
  using assms by (auto simp: gossip_pair_def connected_def gossip_add_peer_def gossip_router_new_def
      Let_def)

lemma deliver_pull:
  assumes "hm_get (gr_peers self) from = Some p" "ok (gp_tx p)"
  shows "deliver_to ok self reg from [(c, Pull pull)]
    = (reg, [(gp_tx p, Push (handle_gossip_pull reg pull))])"
  using assms by (simp add: deliver_to_def Let_def)

lemma deliver_push:
  "deliver_to ok self reg from [(c, Push push)] = (fst (merge_gossip_push reg push), [])"
  by (simp add: deliver_to_def Let_def case_prod_beta)

lemma pull_round_eq:
  assumes "connected ok ra rb"
  shows "pull_round ok ra reg_a rb reg_b = gsync.round reg_a reg_b"
proof -
  obtain p q where p: "hm_get (gr_peers ra) (gr_node_id rb) = Some p" "ok (gp_tx p)"
    and q: "hm_get (gr_peers rb) (gr_node_id ra) = Some q" "ok (gp_tx q)"
    using assms by (auto simp: connected_def split: option.splits)
  have "initiate_pull ok rb reg_b (gr_node_id ra)
      = ([(gp_tx q, Pull \<lparr>gpull_from = gr_node_id rb, gpull_digests = build_digest reg_b\<rparr>)], Ok ())"
    using q by (simp add: initiate_pull_def Let_def)
  moreover note answer_pull_from [of reg_a "gr_node_id rb" "build_digest reg_b"]
  ultimately show ?thesis
    using p by (simp add: pull_round_def deliver_pull deliver_push gsync.round_def)
qed

text \<open>
  What happens to a registry between two moments when no peer is removed from it: announcements
  stamped with a clock that has not run backwards, and gossip merges. \<open>regs_le\<close> is the effect.
\<close>
inductive registry_grows :: "mesh_registry \<Rightarrow> mesh_registry \<Rightarrow> bool" where
  grow_refl: "registry_grows reg reg"
| grow_announce: "registry_grows reg reg' \<Longrightarrow>
    (\<And>p. get_peer reg' (am_agent_id msg) = Some p \<Longrightarrow> pe_last_seen p \<le> now) \<Longrightarrow>
    registry_grows reg (fst (handle_announce reg' msg now))"
| grow_merge: "registry_grows reg reg' \<Longrightarrow> registry_grows reg (fst (merge_gossip_push reg' push))"

definition regs_le :: "mesh_registry \<Rightarrow> mesh_registry \<Rightarrow> bool" where
  "regs_le a b \<longleftrightarrow> (\<forall>k e. get_peer a k = Some e \<longrightarrow>
     (\<exists>x. get_peer b k = Some x \<and> pe_last_seen e \<le> pe_last_seen x))"

lemma regs_le_refl: "regs_le a a"
  by (simp add: regs_le_def)

lemma regs_le_trans: "regs_le a b \<Longrightarrow> regs_le b c \<Longrightarrow> regs_le a c"
  unfolding regs_le_def by (meson order.trans)

lemma regs_le_merge_step: "regs_le reg (merge_step e reg)"
  by (auto simp: regs_le_def peer_lww.view_offer)

lemma regs_le_merge_steps: "regs_le reg (fold merge_step es reg)"
  by (induction es arbitrary: reg)
    (auto simp: regs_le_refl intro: regs_le_trans [OF regs_le_merge_step])

lemma regs_le_merge: "regs_le reg (fst (merge_gossip_push reg push))"
  by (simp add: merge_gossip_push_def fst_merge_gossip_entries regs_le_merge_steps)

lemma regs_le_announce:
  assumes "\<And>p. get_peer reg (am_agent_id msg) = Some p \<Longrightarrow> pe_last_seen p \<le> now"
  shows "regs_le reg (fst (handle_announce reg msg now))"
  using assms by (auto simp: regs_le_def handle_announce_def get_peer_def Let_def)

lemma registry_grows_le: "registry_grows reg reg' \<Longrightarrow> regs_le reg reg'"
proof (induction rule: registry_grows.induct)
  case (grow_refl reg)
  then show ?case by (rule regs_le_refl)
next
  case (grow_announce reg reg' msg now)
  then show ?case by (blast intro: regs_le_trans regs_le_announce)
next
  case (grow_merge reg reg' push)
  then show ?case by (blast intro: regs_le_trans regs_le_merge)
qed

lemma registry_grows_keyed: "registry_grows reg reg' \<Longrightarrow> peer_lww.keyed reg \<Longrightarrow> peer_lww.keyed reg'"
  by (induction rule: registry_grows.induct) (auto intro: keyed_announce keyed_merge)

text \<open>An offered item is beaten only by a newer one.\<close>
lemma merge_steps_cover:
  assumes "e \<in> set es"
  shows "\<exists>x. get_peer (fold merge_step es reg) (pe_agent_id e) = Some x
    \<and> pe_last_seen e \<le> pe_last_seen x"
  using assms
proof (induction es arbitrary: reg)
  case Nil
  then show ?case by simp
next
  case (Cons y es)
  show ?case
  proof (cases "e = y")
    case True
    have "\<exists>z. get_peer (merge_step e reg) (pe_agent_id e) = Some z
        \<and> pe_last_seen e \<le> pe_last_seen z"
      by (cases "get_peer reg (pe_agent_id e)") (auto simp: peer_lww.view_offer)
    then obtain z where "get_peer (merge_step e reg) (pe_agent_id e) = Some z"
        "pe_last_seen e \<le> pe_last_seen z" by blast
    moreover obtain x where "get_peer (fold merge_step es (merge_step e reg)) (pe_agent_id e) = Some x"
        "pe_last_seen z \<le> pe_last_seen x"
      using regs_le_merge_steps [of "merge_step e reg" es] calculation(1)
      by (auto simp: regs_le_def)
    ultimately show ?thesis using True by (auto intro: order.trans)
  next
    case False
    with Cons show ?thesis by simp
  qed
qed

section \<open>Properties\<close>

text \<open>
  A full gossip exchange between two connected nodes, message by message (\<open>initiate_pull\<close> on
  \<open>b\<close>, \<open>handle_message\<close> of the pull on \<open>a\<close>, \<open>handle_message\<close> of the push on \<open>b\<close>), leaves \<open>b\<close>
  with the newer of the two entries for every agent, an entry of \<open>b\<close> staying when neither is newer.
  After an exchange in each direction both nodes know the same agents with the same \<open>last_seen\<close>,
  and the next pull is answered with nothing.
\<close>
theorem gossip_exchange_converges:
  assumes "registry_reachable mesh a" and "registry_reachable mesh' b"
    and "connected ok ra rb"
  defines "b' \<equiv> pull_round ok ra a rb b"
  defines "a' \<equiv> pull_round ok rb b' ra a"
  shows "get_peer b' k =
       (case (get_peer a k, get_peer b k) of
          (None, y) \<Rightarrow> y
        | (Some x, None) \<Rightarrow> Some x
        | (Some x, Some y) \<Rightarrow> if pe_last_seen y < pe_last_seen x then Some x else Some y)
     \<and> map_option pe_last_seen (get_peer a' k) = map_option pe_last_seen (get_peer b' k)
     \<and> gpush_entries (handle_gossip_pull a
          \<lparr>gpull_from = gr_node_id rb, gpull_digests = build_digest b'\<rparr>) = []"
proof -
  note keyed = registry_reachable_keyed [OF assms(1)] registry_reachable_keyed [OF assms(2)]
  have b': "b' = gsync.round a b"
    unfolding b'_def by (rule pull_round_eq [OF assms(3)])
  have "connected ok rb ra"
    using assms(3) by (auto simp: connected_def)
  then have a': "a' = gsync.round b' a"
    unfolding a'_def by (rule pull_round_eq)
  have "get_peer b' k = gsync.newer (get_peer a k) (get_peer b k)"
    unfolding b' by (rule gsync.round_view [OF keyed])
  moreover have "map_option pe_last_seen (get_peer a' k) = map_option pe_last_seen (get_peer b' k)"
    unfolding a' b' by (rule gsync.rounds_agree [OF keyed])
  moreover have "answer_pull a (build_digest b') = []"
    unfolding b' by (rule gsync.round_settles [OF keyed])
  moreover note answer_pull_from [of a "gr_node_id rb" "build_digest b'"]
  ultimately show ?thesis
    by (simp add: gsync.newer_def split: option.splits)
qed

definition demo_pair :: "gossip_router \<times> chan \<times> gossip_router \<times> chan" where
  "demo_pair = gossip_pair ''node-a'' ''node-b'' 1 2"

lemma demo_pair_connected: "connected (\<lambda>_. True) (fst demo_pair) (fst (snd (snd demo_pair)))"
  unfolding demo_pair_def by (rule connected_pair [of "''node-a''" "''node-b''" 1 2])
    (auto simp: gossip_pair_def gossip_add_peer_def Let_def)

theorem gossip_exchange_converges_witness:
  "get_peer (pull_round (\<lambda>_. True) (fst demo_pair) (demo_reg [(''agent:alice'', 10)])
      (fst (snd (snd demo_pair))) (demo_reg [(''agent:bob'', 20)])) ''agent:alice''
    = get_peer (demo_reg [(''agent:alice'', 10)]) ''agent:alice''"
proof -
  have "get_peer (demo_reg [(''agent:bob'', 20)]) ''agent:alice'' = None"
    by (simp add: demo_reg_def announce_of_def)
  then show ?thesis
    using gossip_exchange_converges [OF demo_reg_reachable demo_reg_reachable demo_pair_connected,
        of "[(''agent:alice'', 10)]" "[(''agent:bob'', 20)]" "''agent:alice''"]
    by (simp split: option.splits)
qed

text \<open>
  A pull still does its work when the nodes move on while its messages travel. The digest was
  taken when \<open>b\<close> was \<open>b0\<close>; \<open>a\<close> answers from its registry at the time; \<open>b\<close> has meanwhile grown to
  \<open>b1\<close> by announcements (its clock not running backwards) and other merges. After merging the
  push, \<open>b\<close> knows every agent \<open>a\<close> knew when it answered, at least as recently seen, and has lost
  nothing of \<open>b1\<close>.
\<close>
theorem stale_digest_still_covers:
  assumes "registry_reachable mesh a" and "registry_reachable mesh' b0"
    and "registry_grows b0 b1"
    and "initiate_pull ok rb b0 (gr_node_id ra) = ([(c, pull)], Ok ())"
    and "gossip_handle_message ok ra a (gr_node_id rb) pull = (a', evs, [(d, push)], Ok ())"
    and "gossip_handle_message ok' rb b1 (gr_node_id ra) push = (b2, evs', sent, res)"
  shows "regs_le a b2 \<and> regs_le b1 b2 \<and> a' = a \<and> res = Ok ()"
proof -
  note keyed = registry_reachable_keyed [OF assms(1)] registry_reachable_keyed [OF assms(2)]
  obtain f where pull: "pull = Pull \<lparr>gpull_from = f, gpull_digests = build_digest b0\<rparr>"
    using assms(4) by (auto simp: initiate_pull_def Let_def split: option.splits if_splits)
  have push: "push = Push (handle_gossip_pull a \<lparr>gpull_from = f, gpull_digests = build_digest b0\<rparr>)"
    and "a' = a"
    using assms(5) unfolding pull by (auto simp: Let_def split: option.splits if_splits)
  have b2: "b2 = fold merge_step (answer_pull a (build_digest b0)) b1" and "res = Ok ()"
    using assms(6) unfolding push answer_pull_from [of a f]
    by (simp_all add: Let_def case_prod_beta merge_gossip_push_def fst_merge_gossip_entries)
  have le: "regs_le b1 b2"
    unfolding b2 by (rule regs_le_merge_steps)
  have "\<exists>x. get_peer b2 k = Some x \<and> pe_last_seen e \<le> pe_last_seen x"
    if e: "get_peer a k = Some e" for k e
  proof (cases "e \<in> set (answer_pull a (build_digest b0))")
    case True
    then show ?thesis
      using merge_steps_cover [OF True, of b1] e keyed(1) by (auto simp: b2 peer_lww.keyed_def)
  next
    case False
    then obtain x where "get_peer b0 k = Some x" "pe_last_seen e \<le> pe_last_seen x"
      using e keyed(1) unfolding gsync.diff_spec [OF keyed] peer_lww.keyed_def by force
    then show ?thesis
      using regs_le_trans [OF registry_grows_le [OF assms(3)] le]
      unfolding regs_le_def by (meson order.trans)
  qed
  with le \<open>a' = a\<close> \<open>res = Ok ()\<close> show ?thesis by (simp add: regs_le_def)
qed

theorem stale_digest_still_covers_witness:
  "regs_le (demo_reg [(''agent:alice'', 10)])
     (fst (gossip_handle_message (\<lambda>_. True) (fst (snd (snd demo_pair)))
        (fst (handle_announce (demo_reg [(''agent:bob'', 20)]) (announce_of ''agent:carol'') 30))
        ''node-a''
        (Push (handle_gossip_pull (demo_reg [(''agent:alice'', 10)])
           \<lparr>gpull_from = ''node-b'', gpull_digests = build_digest (demo_reg [(''agent:bob'', 20)])\<rparr>))))"
proof -
  let ?a = "demo_reg [(''agent:alice'', 10)]" and ?b0 = "demo_reg [(''agent:bob'', 20)]"
  let ?ra = "fst demo_pair" and ?rb = "fst (snd (snd demo_pair))"
  let ?b1 = "fst (handle_announce ?b0 (announce_of ''agent:carol'') 30)"
  let ?pull = "\<lparr>gpull_from = ''node-b'', gpull_digests = build_digest ?b0\<rparr>"
  let ?push = "Push (handle_gossip_pull ?a ?pull)"
  obtain b2 evs' sent res where
    merge: "gossip_handle_message (\<lambda>_. True) ?rb ?b1 ''node-a'' ?push = (b2, evs', sent, res)"
    by (metis prod_cases4)
  have ids: "gr_node_id ?ra = ''node-a''" "gr_node_id ?rb = ''node-b''"
    by (simp_all add: demo_pair_def gossip_pair_def gossip_add_peer_def gossip_router_new_def Let_def)
  have "get_peer ?b0 ''agent:carol'' = None"
    by (simp add: demo_reg_def announce_of_def)
  then have "registry_grows ?b0 ?b1"
    by (intro grow_announce grow_refl) (simp add: announce_of_def)
  moreover have "initiate_pull (\<lambda>_. True) ?rb ?b0 (gr_node_id ?ra) = ([(1, Pull ?pull)], Ok ())"
    by (simp add: demo_pair_def gossip_pair_def gossip_add_peer_def gossip_router_new_def Let_def
        initiate_pull_def)
  moreover have "gossip_handle_message (\<lambda>_. True) ?ra ?a (gr_node_id ?rb) (Pull ?pull)
      = (?a, [], [(2, ?push)], Ok ())"
    by (simp add: demo_pair_def gossip_pair_def gossip_add_peer_def gossip_router_new_def Let_def)
  moreover note merge [folded ids(1)]
  ultimately show ?thesis
    using stale_digest_still_covers [OF demo_reg_reachable demo_reg_reachable] merge by fastforce
qed

text \<open>
  C38: A peer's departure does not survive gossip. A node removes an agent that a gossip partner
  still knows; the next exchange with that partner brings the agent back, with the partner's entry,
  and announces it on the bus: no record of the departure is kept or sent.
\<close>
theorem departed_peer_returns:
  assumes "registry_reachable mesh a" and "registry_reachable mesh' b"
    and "connected ok ra rb"
    and "get_peer a k = Some e"
  shows "get_peer (fst (registry_remove_peer b k)) k = None
     \<and> get_peer (pull_round ok ra a rb (fst (registry_remove_peer b k))) k = Some e"
proof -
  let ?b = "fst (registry_remove_peer b k)"
  have keyed: "peer_lww.keyed a" "peer_lww.keyed ?b"
    using assms(1,2) by (auto intro: registry_reachable_keyed keyed_remove)
  show ?thesis
    unfolding pull_round_eq [OF assms(3)] gsync.round_view [OF keyed]
    using assms(4) by (simp add: gsync.newer_def)
qed

theorem departed_peer_returns_witness:
  "get_peer (fst (registry_remove_peer (demo_reg [(''agent:alice'', 10)]) ''agent:alice''))
      ''agent:alice'' = None
   \<and> get_peer (pull_round (\<lambda>_. True) (fst demo_pair) (demo_reg [(''agent:alice'', 10)])
        (fst (snd (snd demo_pair)))
        (fst (registry_remove_peer (demo_reg [(''agent:alice'', 10)]) ''agent:alice'')))
      ''agent:alice'' = Some (announced (announce_of ''agent:alice'', 10))"
  by (rule departed_peer_returns [OF demo_reg_reachable demo_reg_reachable demo_pair_connected])
    (simp add: demo_reg_def announce_of_def announced_def handle_announce_def get_peer_def Let_def)

text \<open>
  \<open>initiate_pull_all\<close> reports exactly one result per connected peer: success, with one pull
  carrying the node's digest sent on the peer's channel, when that channel is open, and
  \<open>SendFailed\<close> with nothing sent otherwise. A failing peer does not keep the others from being
  pulled, and no peer is reported as not connected.
\<close>
theorem pull_all_reaches_every_open_peer:
  "distinct (map fst (snd (initiate_pull_all ok self reg)))
   \<and> set (snd (initiate_pull_all ok self reg)) =
       {(p, if ok (gp_tx peer) then Ok () else Err (GossipSendFailed p)) | p peer.
          hm_get (gr_peers self) p = Some peer}
   \<and> set (fst (initiate_pull_all ok self reg)) =
       {(gp_tx peer, Pull \<lparr>gpull_from = gr_node_id self, gpull_digests = build_digest reg\<rparr>) | p peer.
          hm_get (gr_peers self) p = Some peer \<and> ok (gp_tx peer)}
   \<and> length (fst (initiate_pull_all ok self reg)) =
       length (filter (\<lambda>r. is_ok (snd r)) (snd (initiate_pull_all ok self reg)))"
proof -
  have len: "length (fst (pull_each ok self reg ids)) =
      length (filter (\<lambda>r. is_ok (snd r)) (snd (pull_each ok self reg ids)))" for ids
    by (induction ids) (auto simp: case_prod_beta Let_def initiate_pull_def split: option.splits)
  have "set (snd (initiate_pull_all ok self reg)) =
      {(p, if ok (gp_tx peer) then Ok () else Err (GossipSendFailed p)) | p peer.
         hm_get (gr_peers self) p = Some peer}"
    by (auto simp: initiate_pull_all_def set_pull_each initiate_pull_def Let_def image_iff dom_def) metis+
  moreover have "set (fst (initiate_pull_all ok self reg)) =
      (\<Union>p\<in>dom (hm_get (gr_peers self)). set (fst (initiate_pull ok self reg p)))"
    by (simp add: initiate_pull_all_def set_pull_each)
  then have "set (fst (initiate_pull_all ok self reg)) =
      {(gp_tx peer, Pull \<lparr>gpull_from = gr_node_id self, gpull_digests = build_digest reg\<rparr>) | p peer.
          hm_get (gr_peers self) p = Some peer \<and> ok (gp_tx peer)}"
    by (auto simp: initiate_pull_def Let_def dom_def split: option.splits if_splits) blast
  ultimately show ?thesis
    using len by (simp add: initiate_pull_all_def set_pull_each)
qed

end
