(* ===== verification/Gossip_Network.thy ===== *)
theory Gossip_Network
  imports Gossip
begin

text \<open>
  A network of gossiping nodes. Every node runs the loop of \<open>spawn_periodic_gossip\<close> and handles the
  messages that reach it; messages travel over channels and may be delayed, reordered and lost. The
  configuration of the network is fixed: the routers, and for each channel the node that reads it
  together with the name it knows the sender by (\<open>wire c = (reader, from_peer)\<close>). The state is the
  registry of every node and the messages in flight; a schedule is a list of actions.
\<close>

section \<open>The network\<close>

record gossip_network =
  nw_regs :: "string \<Rightarrow> mesh_registry"
  nw_flight :: gossip_sent

datatype net_action =
    Tick string                                 \<comment> \<open>a turn of the node's gossip loop\<close>
  | Deliver nat                                 \<comment> \<open>a message in flight reaches its reader\<close>
  | Lose nat                                    \<comment> \<open>a message in flight is lost\<close>
  | NodeAnnounce string announce_message timestamp  \<comment> \<open>an agent announces itself at a node\<close>
  | NodeRemove string string                    \<comment> \<open>a node removes an agent\<close>

definition remove_nth :: "nat \<Rightarrow> 'a list \<Rightarrow> 'a list" where
  "remove_nth i xs = take i xs @ drop (Suc i) xs"

fun net_step ::
    "(chan \<Rightarrow> bool) \<Rightarrow> (chan \<Rightarrow> string \<times> string) \<Rightarrow> (string \<Rightarrow> gossip_router)
      \<Rightarrow> net_action \<Rightarrow> gossip_network \<Rightarrow> gossip_network" where
  "net_step ok wire routers (Tick a) s =
     s\<lparr>nw_flight := nw_flight s @ fst (periodic_gossip_tick ok (routers a) (nw_regs s a))\<rparr>"
| "net_step ok wire routers (Deliver i) s =
     (if i < length (nw_flight s) then
        (let (c, msg) = nw_flight s ! i;
             (a, from) = wire c;
             (reg, _, sent, _) = gossip_handle_message ok (routers a) (nw_regs s a) from msg
         in s\<lparr>nw_regs := (nw_regs s)(a := reg), nw_flight := remove_nth i (nw_flight s) @ sent\<rparr>)
      else s)"
| "net_step ok wire routers (Lose i) s = s\<lparr>nw_flight := remove_nth i (nw_flight s)\<rparr>"
| "net_step ok wire routers (NodeAnnounce a msg now) s =
     s\<lparr>nw_regs := (nw_regs s)(a := fst (handle_announce (nw_regs s a) msg now))\<rparr>"
| "net_step ok wire routers (NodeRemove a k) s =
     s\<lparr>nw_regs := (nw_regs s)(a := fst (registry_remove_peer (nw_regs s a) k))\<rparr>"

definition net_run ::
    "(chan \<Rightarrow> bool) \<Rightarrow> (chan \<Rightarrow> string \<times> string) \<Rightarrow> (string \<Rightarrow> gossip_router)
      \<Rightarrow> net_action list \<Rightarrow> gossip_network \<Rightarrow> gossip_network" where
  "net_run ok wire routers acts s = fold (net_step ok wire routers) acts s"

definition net_start :: "(string \<Rightarrow> mesh_registry) \<Rightarrow> gossip_network" where
  "net_start regs = \<lparr>nw_regs = regs, nw_flight = []\<rparr>"

text \<open>
  The topology: the nodes \<open>ns\<close> are connected among themselves only, every connection is open, runs
  both ways, and its channel is read by the peer it is named after.
\<close>
definition wired ::
    "(chan \<Rightarrow> bool) \<Rightarrow> (chan \<Rightarrow> string \<times> string) \<Rightarrow> (string \<Rightarrow> gossip_router) \<Rightarrow> string list \<Rightarrow> bool" where
  "wired ok wire routers ns \<longleftrightarrow>
     list_all (\<lambda>a. list_all (\<lambda>(p, peer).
         p \<in> set ns \<and> ok (gp_tx peer) \<and> wire (gp_tx peer) = (p, a)
         \<and> hm_contains_key (gr_peers (routers p)) a) (hm_entries (gr_peers (routers a)))) ns"

text \<open>\<open>b\<close> can be reached from \<open>a\<close> over at most \<open>n\<close> connections.\<close>
fun reaches :: "(string \<Rightarrow> gossip_router) \<Rightarrow> nat \<Rightarrow> string \<Rightarrow> string \<Rightarrow> bool" where
  "reaches routers 0 a b \<longleftrightarrow> a = b"
| "reaches routers (Suc n) a b \<longleftrightarrow>
     reaches routers n a b \<or> list_ex (\<lambda>p. reaches routers n p b) (hm_keys (gr_peers (routers a)))"

text \<open>
  A round: the nodes only gossip, each of them pulls at least once, and by the end every message
  has been delivered. Pulls and deliveries may come in any order and overlap.
\<close>
definition gossip_round ::
    "(chan \<Rightarrow> bool) \<Rightarrow> (chan \<Rightarrow> string \<times> string) \<Rightarrow> (string \<Rightarrow> gossip_router) \<Rightarrow> string list
      \<Rightarrow> net_action list \<Rightarrow> gossip_network \<Rightarrow> bool" where
  "gossip_round ok wire routers ns acts s \<longleftrightarrow>
     list_all (\<lambda>act. case act of Tick a \<Rightarrow> a \<in> set ns | Deliver _ \<Rightarrow> True | _ \<Rightarrow> False) acts
     \<and> list_all (\<lambda>a. Tick a \<in> set acts) ns
     \<and> nw_flight (net_run ok wire routers acts s) = []"

fun gossip_rounds ::
    "(chan \<Rightarrow> bool) \<Rightarrow> (chan \<Rightarrow> string \<times> string) \<Rightarrow> (string \<Rightarrow> gossip_router) \<Rightarrow> string list
      \<Rightarrow> net_action list list \<Rightarrow> gossip_network \<Rightarrow> bool" where
  "gossip_rounds ok wire routers ns [] s \<longleftrightarrow> True"
| "gossip_rounds ok wire routers ns (acts # rest) s \<longleftrightarrow>
     gossip_round ok wire routers ns acts s
     \<and> gossip_rounds ok wire routers ns rest (net_run ok wire routers acts s)"

section \<open>Steps\<close>

lemma net_run_simps [simp]:
  "net_run ok wire routers [] s = s"
  "net_run ok wire routers (act # acts) s =
     net_run ok wire routers acts (net_step ok wire routers act s)"
  "net_run ok wire routers (acts @ acts') s =
     net_run ok wire routers acts' (net_run ok wire routers acts s)"
  by (simp_all add: net_run_def)

lemma set_remove_nth: "set (remove_nth i xs) \<subseteq> set xs"
  by (auto simp: remove_nth_def dest: in_set_takeD in_set_dropD)

lemma in_remove_nth:
  assumes "x \<in> set xs" "i < length xs"
  shows "x = xs ! i \<or> x \<in> set (remove_nth i xs)"
proof -
  have "xs = take i xs @ xs ! i # drop (Suc i) xs"
    using assms(2) by (rule id_take_nth_drop)
  with assms(1) have "x \<in> set (take i xs @ xs ! i # drop (Suc i) xs)" by simp
  then show ?thesis by (auto simp: remove_nth_def)
qed

lemma length_remove_nth: "i < length xs \<Longrightarrow> length (remove_nth i xs) = length xs - 1"
  by (simp add: remove_nth_def)

lemma tick_sent:
  "set (fst (periodic_gossip_tick ok self reg)) =
     {(gp_tx peer, Pull \<lparr>gpull_from = gr_node_id self, gpull_digests = build_digest reg\<rparr>) | p peer.
        hm_get (gr_peers self) p = Some peer \<and> ok (gp_tx peer)}"
  by (auto simp: periodic_gossip_tick_def initiate_pull_all_def case_prod_beta set_pull_each
      initiate_pull_def Let_def dom_def split: option.splits if_splits) blast

lemma wiredD:
  assumes "wired ok wire routers ns" "a \<in> set ns" "hm_get (gr_peers (routers a)) p = Some peer"
  shows "p \<in> set ns" "ok (gp_tx peer)" "wire (gp_tx peer) = (p, a)"
    "\<exists>q. hm_get (gr_peers (routers p)) a = Some q"
proof -
  have "(p, peer) \<in> set (hm_entries (gr_peers (routers a)))"
    using assms(3) by simp
  then show "p \<in> set ns" "ok (gp_tx peer)" "wire (gp_tx peer) = (p, a)"
    "\<exists>q. hm_get (gr_peers (routers p)) a = Some q"
    using assms(1,2) by (fastforce simp: wired_def list_all_iff hm_contains_key_def)+
qed

text \<open>Handling a message: what the reader's registry becomes, and what it sends.\<close>
lemma handle_message_reg:
  assumes "gossip_handle_message ok self reg from msg = (reg', evs, sent, res)"
  shows "reg' = (case msg of Pull _ \<Rightarrow> reg | Push push \<Rightarrow> fold merge_step (gpush_entries push) reg)"
  using assms
  by (cases msg) (auto simp: Let_def case_prod_beta merge_gossip_push_def fst_merge_gossip_entries
      split: option.splits if_splits)

lemma handle_message_sent:
  assumes "gossip_handle_message ok self reg from msg = (reg', evs, sent, res)"
  shows "sent = (case msg of
      Pull pull \<Rightarrow> (case hm_get (gr_peers self) from of
          None \<Rightarrow> []
        | Some peer \<Rightarrow> if ok (gp_tx peer) then [(gp_tx peer, Push (handle_gossip_pull reg pull))] else [])
    | Push _ \<Rightarrow> [])"
  using assms by (cases msg) (auto simp: Let_def case_prod_beta split: option.splits if_splits)

section \<open>What a round carries\<close>

text \<open>Node \<open>a\<close> knows an entry of agent \<open>k\<close> that is at least as recent as \<open>t\<close>.\<close>
definition knows :: "(string \<Rightarrow> mesh_registry) \<Rightarrow> string \<Rightarrow> string \<Rightarrow> timestamp \<Rightarrow> bool" where
  "knows regs a k t \<longleftrightarrow> (\<exists>x. get_peer (regs a) k = Some x \<and> t \<le> pe_last_seen x)"

text \<open>A push with such an entry is on its way to \<open>b\<close>.\<close>
definition coming ::
    "(chan \<Rightarrow> string \<times> string) \<Rightarrow> gossip_sent \<Rightarrow> string \<Rightarrow> string \<Rightarrow> timestamp \<Rightarrow> bool" where
  "coming wire fl b k t \<longleftrightarrow> (\<exists>c push e. (c, Push push) \<in> set fl \<and> fst (wire c) = b
     \<and> e \<in> set (gpush_entries push) \<and> pe_agent_id e = k \<and> t \<le> pe_last_seen e)"

text \<open>A pull of \<open>b\<close> is on its way to \<open>a\<close>, and its digest lacks such an entry.\<close>
definition asking ::
    "(chan \<Rightarrow> string \<times> string) \<Rightarrow> gossip_sent \<Rightarrow> string \<Rightarrow> string \<Rightarrow> string \<Rightarrow> timestamp \<Rightarrow> bool" where
  "asking wire fl b a k t \<longleftrightarrow> (\<exists>c pull. (c, Pull pull) \<in> set fl \<and> wire c = (a, b)
     \<and> (case hm_get (hm_collect (map (\<lambda>d. (gd_agent_id d, d)) (gpull_digests pull))) k of
          None \<Rightarrow> True | Some d \<Rightarrow> gd_last_seen d < t))"

lemma knows_mono: "regs_le (regs a) (regs' a) \<Longrightarrow> knows regs a k t \<Longrightarrow> knows regs' a k t"
  unfolding knows_def regs_le_def by (meson order.trans)

lemma coming_mono: "set fl \<subseteq> set fl' \<Longrightarrow> coming wire fl b k t \<Longrightarrow> coming wire fl' b k t"
  unfolding coming_def by blast

lemma asking_mono: "set fl \<subseteq> set fl' \<Longrightarrow> asking wire fl b a k t \<Longrightarrow> asking wire fl' b a k t"
  unfolding asking_def by blast

lemma not_in_flight [simp]: "\<not> coming wire [] b k t" "\<not> asking wire [] b a k t"
  by (simp_all add: coming_def asking_def)

abbreviation gossips :: "net_action \<Rightarrow> bool" where
  "gossips act \<equiv> (case act of Tick _ \<Rightarrow> True | Deliver _ \<Rightarrow> True | _ \<Rightarrow> False)"

abbreviation all_keyed :: "(string \<Rightarrow> mesh_registry) \<Rightarrow> bool" where
  "all_keyed regs \<equiv> (\<forall>a. peer_lww.keyed (regs a))"

lemma net_step_keyed:
  "all_keyed (nw_regs s) \<Longrightarrow> all_keyed (nw_regs (net_step ok wire routers act s))"
  by (cases act) (auto simp: Let_def peer_lww.keyed_offers dest: handle_message_reg
      intro: keyed_announce keyed_remove split: prod.splits gossip_message.splits)

lemma net_run_keyed:
  "all_keyed (nw_regs s) \<Longrightarrow> all_keyed (nw_regs (net_run ok wire routers acts s))"
  by (induction acts arbitrary: s) (simp_all add: net_step_keyed)

lemma net_step_le:
  assumes "gossips act"
  shows "regs_le (nw_regs s a) (nw_regs (net_step ok wire routers act s) a)"
  using assms
  by (cases act) (auto simp: Let_def regs_le_refl regs_le_merge_steps dest: handle_message_reg
      split: prod.splits gossip_message.splits)

lemma net_run_le:
  assumes "list_all gossips acts"
  shows "regs_le (nw_regs s a) (nw_regs (net_run ok wire routers acts s) a)"
  using assms
proof (induction acts arbitrary: s)
  case Nil
  then show ?case by (simp add: regs_le_refl)
next
  case (Cons act acts)
  then show ?case by (auto intro: regs_le_trans [OF net_step_le])
qed

lemma knows_step:
  "gossips act \<Longrightarrow> knows (nw_regs s) b k t \<Longrightarrow> knows (nw_regs (net_step ok wire routers act s)) b k t"
  by (rule knows_mono [where regs = "nw_regs s"]) (rule net_step_le)

lemma knows_run:
  "list_all gossips acts \<Longrightarrow> knows (nw_regs s) b k t
     \<Longrightarrow> knows (nw_regs (net_run ok wire routers acts s)) b k t"
  by (rule knows_mono [where regs = "nw_regs s"]) (rule net_run_le)

text \<open>The three stages of an entry on its way from \<open>a\<close> to \<open>b\<close>.\<close>
definition under_way ::
    "(chan \<Rightarrow> string \<times> string) \<Rightarrow> gossip_network \<Rightarrow> string \<Rightarrow> string \<Rightarrow> string \<Rightarrow> timestamp
      \<Rightarrow> bool" where
  "under_way wire s a b k t \<longleftrightarrow> knows (nw_regs s) b k t \<or> coming wire (nw_flight s) b k t
     \<or> (knows (nw_regs s) a k t \<and> asking wire (nw_flight s) b a k t)"

lemma tick_under_way:
  assumes "wired ok wire routers ns" "b \<in> set ns" "all_keyed (nw_regs s)"
    and "hm_get (gr_peers (routers b)) a = Some peer" and "knows (nw_regs s) a k t"
  shows "under_way wire (net_step ok wire routers (Tick b) s) a b k t"
proof -
  let ?pull = "\<lparr>gpull_from = gr_node_id (routers b), gpull_digests = build_digest (nw_regs s b)\<rparr>"
  note w = wiredD [OF assms(1,2,4)]
  have sent: "(gp_tx peer, Pull ?pull)
      \<in> set (fst (periodic_gossip_tick ok (routers b) (nw_regs s b)))"
    unfolding tick_sent using w(2) assms(4) by blast
  show ?thesis
  proof (cases "knows (nw_regs s) b k t")
    case True
    then show ?thesis by (simp add: under_way_def)
  next
    case False
    then have "case hm_get (hm_collect (map (\<lambda>d. (gd_agent_id d, d)) (gpull_digests ?pull))) k of
        None \<Rightarrow> True | Some d \<Rightarrow> gd_last_seen d < t"
      using assms(3) by (auto simp: remote_lookup knows_def split: option.splits)
    then have "asking wire (nw_flight (net_step ok wire routers (Tick b) s)) b a k t"
      unfolding asking_def using sent w(3)
      by (intro exI [of _ "gp_tx peer"] exI [of _ ?pull]) simp
    then show ?thesis using assms(5) by (simp add: under_way_def)
  qed
qed

lemma deliver_under_way:
  assumes "wired ok wire routers ns" "a \<in> set ns" "all_keyed (nw_regs s)"
    and "hm_get (gr_peers (routers a)) b = Some q" and "under_way wire s a b k t"
  shows "under_way wire (net_step ok wire routers (Deliver i) s) a b k t"
proof (cases "i < length (nw_flight s)")
  case False
  then show ?thesis using assms(5) by simp
next
  case True
  obtain c msg where fl: "nw_flight s ! i = (c, msg)" by (cases "nw_flight s ! i")
  obtain d sender where wc: "wire c = (d, sender)" by (cases "wire c")
  obtain reg evs sent res where
    h: "gossip_handle_message ok (routers d) (nw_regs s d) sender msg = (reg, evs, sent, res)"
    by (metis prod_cases4)
  let ?s = "net_step ok wire routers (Deliver i) s"
  have s': "?s = s\<lparr>nw_regs := (nw_regs s)(d := reg), nw_flight := remove_nth i (nw_flight s) @ sent\<rparr>"
    using True by (simp add: fl wc h)
  note [simp del] = net_step.simps
  have learnt: "knows (nw_regs s) x k t \<Longrightarrow> knows (nw_regs ?s) x k t" for x
    by (rule knows_step) simp_all
  have stays: "m = (c, msg) \<or> m \<in> set (nw_flight ?s)" if "m \<in> set (nw_flight s)" for m
    using in_remove_nth [OF that True] unfolding s' by (auto simp: fl)
  consider "knows (nw_regs s) b k t" | "coming wire (nw_flight s) b k t"
    | "knows (nw_regs s) a k t" "asking wire (nw_flight s) b a k t"
    using assms(5) unfolding under_way_def by blast
  then show ?thesis
  proof cases
    case 1
    then show ?thesis using learnt by (auto simp: under_way_def)
  next
    case 2
    then obtain c' push e where m: "(c', Push push) \<in> set (nw_flight s)" "fst (wire c') = b"
        "e \<in> set (gpush_entries push)" "pe_agent_id e = k" "t \<le> pe_last_seen e"
      unfolding coming_def by blast
    show ?thesis
    proof (cases "(c', Push push) = (c, msg)")
      case True
      then have "reg = fold merge_step (gpush_entries push) (nw_regs s b)" "d = b"
        using handle_message_reg [OF h] m(2) wc by auto
      then have "knows (nw_regs ?s) b k t"
        using merge_steps_cover [OF m(3), of "nw_regs s b"] m(4,5) unfolding s'
        by (auto simp: knows_def)
      then show ?thesis by (simp add: under_way_def)
    next
      case False
      with stays [OF m(1)] m show ?thesis by (auto simp: under_way_def coming_def)
    qed
  next
    case 3
    then obtain c' pull where m: "(c', Pull pull) \<in> set (nw_flight s)" "wire c' = (a, b)"
        "case hm_get (hm_collect (map (\<lambda>d. (gd_agent_id d, d)) (gpull_digests pull))) k of
          None \<Rightarrow> True | Some d \<Rightarrow> gd_last_seen d < t"
      unfolding asking_def by blast
    obtain x where x: "get_peer (nw_regs s a) k = Some x" "t \<le> pe_last_seen x"
      using 3(1) by (auto simp: knows_def)
    note w = wiredD [OF assms(1,2,4)]
    show ?thesis
    proof (cases "(c', Pull pull) = (c, msg)")
      case True
      then have "d = a" "sender = b" "msg = Pull pull"
        using m(2) wc by auto
      then have "sent = [(gp_tx q, Push (handle_gossip_pull (nw_regs s a) pull))]"
        using handle_message_sent [OF h] assms(4) w(2) by simp
      moreover have "pe_agent_id x = k"
        using assms(3) x(1) unfolding peer_lww.keyed_def by blast
      then have "x \<in> set (gpush_entries (handle_gossip_pull (nw_regs s a) pull))"
        using m(3) x assms(3) by (auto simp: in_handle_gossip_pull split: option.splits)
      ultimately have "coming wire (nw_flight ?s) b k t"
        using w(3) x(2) \<open>pe_agent_id x = k\<close> unfolding s' by (force simp: coming_def)
      then show ?thesis by (simp add: under_way_def)
    next
      case False
      with stays [OF m(1)] m(2,3) have "asking wire (nw_flight ?s) b a k t"
        unfolding asking_def by blast
      then show ?thesis using learnt [OF 3(1)] by (simp add: under_way_def)
    qed
  qed
qed

lemma run_under_way:
  assumes "wired ok wire routers ns" "a \<in> set ns" "hm_get (gr_peers (routers a)) b = Some q"
    and "all_keyed (nw_regs s)" "list_all gossips acts" "under_way wire s a b k t"
  shows "under_way wire (net_run ok wire routers acts s) a b k t"
  using assms(4-)
proof (induction acts arbitrary: s)
  case Nil
  then show ?case by simp
next
  case (Cons act acts)
  have "under_way wire (net_step ok wire routers act s) a b k t"
  proof (cases act)
    case (Tick x)
    have "set (nw_flight s) \<subseteq> set (nw_flight (net_step ok wire routers act s))"
      by (simp add: Tick)
    note more = coming_mono [OF this] asking_mono [OF this]
    show ?thesis
      using Cons.prems(3) unfolding under_way_def by (auto simp: Tick dest: more)
  next
    case (Deliver i)
    then show ?thesis
      using deliver_under_way [OF assms(1,2) Cons.prems(1) assms(3) Cons.prems(3)] by simp
  qed (use Cons.prems in auto)
  with Cons show ?case by (simp del: net_step.simps add: net_step_keyed)
qed

text \<open>In a round, every node learns what the nodes it is connected to knew at its start.\<close>
lemma round_teaches:
  assumes "wired ok wire routers ns" "b \<in> set ns" "all_keyed (nw_regs s)"
    and "gossip_round ok wire routers ns acts s"
    and "hm_get (gr_peers (routers b)) a = Some peer" "knows (nw_regs s) a k t"
  shows "knows (nw_regs (net_run ok wire routers acts s)) b k t"
proof -
  have gs: "list_all gossips acts" and tick: "Tick b \<in> set acts"
    and fin: "nw_flight (net_run ok wire routers acts s) = []"
    using assms(2,4) by (auto simp: gossip_round_def list_all_iff split: net_action.splits)
  from tick obtain xs ys where acts: "acts = xs @ Tick b # ys"
    by (meson split_list)
  let ?s1 = "net_run ok wire routers xs s"
  have gs': "list_all gossips xs" "list_all gossips ys"
    using gs by (simp_all add: acts)
  have keyed: "all_keyed (nw_regs ?s1)"
    using assms(3) by (rule net_run_keyed)
  note w = wiredD [OF assms(1,2,5)]
  obtain q where q: "hm_get (gr_peers (routers a)) b = Some q"
    using w(4) by blast
  have "knows (nw_regs ?s1) a k t"
    using gs'(1) assms(6) by (rule knows_run)
  then have "under_way wire (net_step ok wire routers (Tick b) ?s1) a b k t"
    by (rule tick_under_way [OF assms(1,2) keyed assms(5)])
  then have "under_way wire (net_run ok wire routers acts s) a b k t"
    unfolding acts net_run_simps
    by (intro run_under_way [OF assms(1) w(1) q _ gs'(2)] net_step_keyed keyed)
  then show ?thesis
    by (simp add: under_way_def fin)
qed

lemma round_gossips: "gossip_round ok wire routers ns acts s \<Longrightarrow> list_all gossips acts"
  by (auto simp: gossip_round_def list_all_iff split: net_action.splits)

lemma gossip_rounds_append [simp]:
  "gossip_rounds ok wire routers ns (segs @ segs') s \<longleftrightarrow>
     gossip_rounds ok wire routers ns segs s
     \<and> gossip_rounds ok wire routers ns segs' (net_run ok wire routers (concat segs) s)"
  by (induction segs arbitrary: s) simp_all

lemma rounds_le:
  assumes "gossip_rounds ok wire routers ns segs s"
  shows "regs_le (nw_regs s a) (nw_regs (net_run ok wire routers (concat segs) s) a)"
  using assms
proof (induction segs arbitrary: s)
  case Nil
  then show ?case by (simp add: regs_le_refl)
next
  case (Cons acts segs)
  then show ?case by (auto intro: regs_le_trans [OF net_run_le] round_gossips)
qed

text \<open>Knowledge travels one connection per round.\<close>
lemma rounds_teach:
  assumes "wired ok wire routers ns" "b \<in> set ns" "all_keyed (nw_regs s)"
    and "gossip_rounds ok wire routers ns segs s"
    and "reaches routers (length segs) b a" "knows (nw_regs s) a k t"
  shows "knows (nw_regs (net_run ok wire routers (concat segs) s)) b k t"
proof -
  have "knows (nw_regs (net_run ok wire routers (concat segs) s)) b k t"
    if "reaches routers n b a" "n \<le> length segs" "b \<in> set ns" for n b
    using that assms(3,4,6)
  proof (induction segs arbitrary: s n b rule: rev_induct)
    case Nil
    then show ?case by simp
  next
    case (snoc acts segs)
    let ?s1 = "net_run ok wire routers (concat segs) s"
    have rs: "gossip_rounds ok wire routers ns segs s \<and> gossip_round ok wire routers ns acts ?s1"
      using snoc.prems(5) by simp
    note rs = rs [THEN conjunct1] rs [THEN conjunct2]
    note IH = snoc.IH [OF _ _ _ snoc.prems(4) rs(1) snoc.prems(6)]
    have last: "knows (nw_regs ?s1) b k t \<Longrightarrow> ?case"
      using knows_run [OF round_gossips [OF rs(2)]] by simp
    show ?case
    proof (cases n)
      case 0
      then show ?thesis using last IH [of 0 b] snoc.prems by simp
    next
      case (Suc m)
      with snoc.prems(1) consider "reaches routers m b a"
        | p peer where "reaches routers m p a" "hm_get (gr_peers (routers b)) p = Some peer"
        by (auto simp: list_ex_iff)
      then show ?thesis
      proof cases
        case 1
        then show ?thesis using last IH [of m b] snoc.prems Suc by simp
      next
        case 2
        then have "p \<in> set ns"
          using wiredD(1) [OF assms(1) snoc.prems(3)] by blast
        then have "knows (nw_regs ?s1) p k t"
          using 2 IH [of m p] snoc.prems Suc by simp
        then show ?thesis
          using round_teaches [OF assms(1) snoc.prems(3) net_run_keyed [OF snoc.prems(4)] rs(2) 2(2)]
          by simp
      qed
    qed
  qed
  with assms(2,5) show ?thesis by blast
qed

section \<open>Where entries come from\<close>

text \<open>
  Every entry known to a node of \<open>N\<close> or on its way satisfies \<open>E\<close>, and every message in flight is
  read by a node of \<open>N\<close>.
\<close>
definition confined ::
    "(chan \<Rightarrow> string \<times> string) \<Rightarrow> string set \<Rightarrow> (peer_entry \<Rightarrow> bool) \<Rightarrow> gossip_network \<Rightarrow> bool" where
  "confined wire N E s \<longleftrightarrow>
     (\<forall>a\<in>N. \<forall>k x. get_peer (nw_regs s a) k = Some x \<longrightarrow> E x)
     \<and> (\<forall>c msg. (c, msg) \<in> set (nw_flight s) \<longrightarrow> fst (wire c) \<in> N
          \<and> (\<forall>push. msg = Push push \<longrightarrow> (\<forall>e\<in>set (gpush_entries push). E e)))"

abbreviation step_allowed :: "string set \<Rightarrow> (peer_entry \<Rightarrow> bool) \<Rightarrow> net_action \<Rightarrow> bool" where
  "step_allowed N E act \<equiv> (case act of
      Tick a \<Rightarrow> a \<in> N
    | NodeAnnounce a msg now \<Rightarrow> E (announced (msg, now))
    | _ \<Rightarrow> True)"

lemma pull_answer_known:
  "e \<in> set (gpush_entries (handle_gossip_pull reg pull)) \<Longrightarrow> \<exists>k. get_peer reg k = Some e"
  by (auto simp: handle_gossip_pull_def Let_def get_peer_def)

lemma confined_reg:
  "confined wire N E s \<Longrightarrow> a \<in> N \<Longrightarrow> get_peer (nw_regs s a) k = Some x \<Longrightarrow> E x"
  unfolding confined_def by blast

lemma confined_deliver:
  assumes "confined wire N E s"
    and out: "\<And>a p peer. a \<in> N \<Longrightarrow> hm_get (gr_peers (routers a)) p = Some peer
        \<Longrightarrow> fst (wire (gp_tx peer)) \<in> N"
  shows "confined wire N E (net_step ok wire routers (Deliver i) s)"
proof (cases "i < length (nw_flight s)")
  case False
  then show ?thesis using assms(1) by simp
next
  case True
  obtain c msg where fl: "nw_flight s ! i = (c, msg)" by (cases "nw_flight s ! i")
  obtain d sender where wc: "wire c = (d, sender)" by (cases "wire c")
  obtain reg evs sent res where
    h: "gossip_handle_message ok (routers d) (nw_regs s d) sender msg = (reg, evs, sent, res)"
    by (metis prod_cases4)
  have s': "net_step ok wire routers (Deliver i) s
      = s\<lparr>nw_regs := (nw_regs s)(d := reg), nw_flight := remove_nth i (nw_flight s) @ sent\<rparr>"
    using True by (simp add: fl wc h)
  have "(c, msg) \<in> set (nw_flight s)"
    using True fl by (metis nth_mem)
  then have d: "d \<in> N" and pushed: "\<And>push e. msg = Push push \<Longrightarrow> e \<in> set (gpush_entries push) \<Longrightarrow> E e"
    using assms(1) wc unfolding confined_def by fastforce+
  have reg: "E x" if "get_peer reg k = Some x" for k x
    using that handle_message_reg [OF h] pushed confined_reg [OF assms(1) d]
    by (auto split: gossip_message.splits dest: peer_lww.offers_source)
  have sent: "fst (wire c') \<in> N
      \<and> (\<forall>push. m = Push push \<longrightarrow> (\<forall>e\<in>set (gpush_entries push). E e))"
    if "(c', m) \<in> set sent" for c' m
    using that handle_message_sent [OF h] out [OF d] confined_reg [OF assms(1) d]
    by (auto split: gossip_message.splits option.splits if_splits dest!: pull_answer_known)
  show ?thesis
    using assms(1) reg sent set_remove_nth [of i "nw_flight s"] unfolding s' confined_def
    by auto
qed

lemma confined_step:
  assumes "confined wire N E s" "step_allowed N E act"
    and out: "\<And>a p peer. a \<in> N \<Longrightarrow> hm_get (gr_peers (routers a)) p = Some peer
        \<Longrightarrow> fst (wire (gp_tx peer)) \<in> N"
  shows "confined wire N E (net_step ok wire routers act s)"
proof (cases act)
  case (Tick a)
  then have "fst (wire c) \<in> N \<and> (\<exists>pull. m = Pull pull)"
    if "(c, m) \<in> set (fst (periodic_gossip_tick ok (routers a) (nw_regs s a)))" for c m
    using that assms(2) out by (auto simp: tick_sent)
  then show ?thesis
    using assms(1) unfolding Tick confined_def by fastforce
next
  case (Deliver i)
  then show ?thesis using confined_deliver [OF assms(1) out] by simp
next
  case (Lose i)
  then show ?thesis
    using assms(1) set_remove_nth [of i "nw_flight s"] unfolding confined_def by fastforce
next
  case (NodeAnnounce a msg now)
  moreover have "snd (snd (handle_announce reg msg now)) = announced (msg, now)" for reg
    by (simp add: handle_announce_def announced_def Let_def)
  ultimately show ?thesis
    using assms(1,2) unfolding confined_def by auto
next
  case (NodeRemove a k)
  then show ?thesis
    using assms(1) unfolding confined_def by auto
qed

lemma confined_run:
  assumes out: "\<And>a p peer. a \<in> N \<Longrightarrow> hm_get (gr_peers (routers a)) p = Some peer
        \<Longrightarrow> fst (wire (gp_tx peer)) \<in> N"
  shows "confined wire N E s \<Longrightarrow> list_all (step_allowed N E) acts
    \<Longrightarrow> confined wire N E (net_run ok wire routers acts s)"
  by (induction acts arbitrary: s) (auto simp del: net_step.simps intro: confined_step out)

section \<open>Rounds can always be completed\<close>

text \<open>Every node pulls, then the messages are delivered in the order in which they were sent.\<close>
definition round_schedule ::
    "(chan \<Rightarrow> bool) \<Rightarrow> (chan \<Rightarrow> string \<times> string) \<Rightarrow> (string \<Rightarrow> gossip_router) \<Rightarrow> string list
      \<Rightarrow> gossip_network \<Rightarrow> net_action list" where
  "round_schedule ok wire routers ns s =
     (let s1 = net_run ok wire routers (map Tick ns) s
      in map Tick ns @ replicate (2 * length (nw_flight s1)) (Deliver 0))"

text \<open>What is left to do for the messages in flight: a pull is answered by at most one push.\<close>
fun msg_work :: "gossip_message \<Rightarrow> nat" where
  "msg_work (Pull _) = 2"
| "msg_work (Push _) = 1"

definition to_do :: "gossip_sent \<Rightarrow> nat" where
  "to_do fl = sum_list (map (\<lambda>(_, msg). msg_work msg) fl)"

lemma to_do_simps [simp]:
  "to_do [] = 0"
  "to_do ((c, msg) # fl) = msg_work msg + to_do fl"
  "to_do (fl @ fl') = to_do fl + to_do fl'"
  by (simp_all add: to_do_def)

lemma to_do_0: "to_do fl = 0 \<longleftrightarrow> fl = []"
proof (induction fl)
  case (Cons m fl)
  then show ?case by (cases m; cases "snd m") auto
qed simp

lemma to_do_le: "to_do fl \<le> 2 * length fl"
proof (induction fl)
  case (Cons m fl)
  then show ?case by (cases m; cases "snd m") auto
qed simp

lemma deliver_progress:
  assumes "nw_flight s \<noteq> []"
  shows "to_do (nw_flight (net_step ok wire routers (Deliver 0) s)) < to_do (nw_flight s)"
proof -
  obtain c msg rest where fl: "nw_flight s = (c, msg) # rest"
    using assms by (metis neq_Nil_conv surj_pair)
  obtain d sender where wc: "wire c = (d, sender)" by (cases "wire c")
  obtain reg evs sent res where
    h: "gossip_handle_message ok (routers d) (nw_regs s d) sender msg = (reg, evs, sent, res)"
    by (metis prod_cases4)
  show ?thesis
    using handle_message_sent [OF h]
    by (auto simp: fl wc h remove_nth_def split: gossip_message.splits option.splits)
qed

lemma deliver_all:
  "to_do (nw_flight s) \<le> n \<Longrightarrow> nw_flight (net_run ok wire routers (replicate n (Deliver 0)) s) = []"
proof (induction n arbitrary: s)
  case 0
  then show ?case by (simp add: to_do_0)
next
  case (Suc n)
  have "to_do (nw_flight (net_step ok wire routers (Deliver 0) s)) \<le> n"
  proof (cases "nw_flight s = []")
    case True
    then show ?thesis by simp
  next
    case False
    then show ?thesis
      using Suc.prems deliver_progress [OF False, of ok wire routers] by simp
  qed
  then show ?case
    by (simp add: Suc.IH del: net_step.simps)
qed

lemma round_schedule_round:
  "gossip_round ok wire routers ns (round_schedule ok wire routers ns s) s"
  by (auto simp: gossip_round_def round_schedule_def Let_def list_all_iff
      intro!: deliver_all to_do_le)

lemma round_admissible:
  "gossip_round ok wire routers ns acts s \<Longrightarrow> list_all (step_allowed (set ns) E) acts"
  by (auto simp: gossip_round_def list_all_iff split: net_action.splits)

lemma rounds_admissible:
  "gossip_rounds ok wire routers ns segs s \<Longrightarrow> list_all (step_allowed (set ns) E) (concat segs)"
  by (induction segs arbitrary: s) (auto dest: round_admissible)

lemma rounds_flight:
  "gossip_rounds ok wire routers ns segs s \<Longrightarrow> nw_flight s = []
     \<Longrightarrow> nw_flight (net_run ok wire routers (concat segs) s) = []"
  by (induction segs arbitrary: s) (auto simp: gossip_round_def)

section \<open>Properties\<close>

lemma net_start_keyed: "all_keyed (nw_regs (net_start (\<lambda>a. registry_new (mesh a))))"
  by (simp add: net_start_def peer_lww.keyed_def)

text \<open>
  C3: Gossip spreads what every node knows through a connected network, whatever happened before.
  Let the nodes have run through any history of announcements, removals, gossip turns, deliveries
  and losses. If they then only gossip, and gossip for one round more than the longest distance
  between two of them (a round is any interleaving in which every node takes a turn and all
  messages arrive), then every node knows every agent that any node knew, at least as recently
  seen, and all nodes agree on the agents and on their \<open>last_seen\<close>. A round can be completed from
  every state.
\<close>
theorem gossip_network_converges:
  assumes "wired ok wire routers ns"
    and "list_all (\<lambda>a. list_all (reaches routers (length segs) a) ns) ns"
    and "s = net_run ok wire routers history (net_start (\<lambda>a. registry_new (mesh a)))"
    and "gossip_rounds ok wire routers ns (seg # segs) s"
    and "s' = net_run ok wire routers (concat (seg # segs)) s"
    and "a \<in> set ns" "b \<in> set ns"
  shows "nw_flight s' = []
     \<and> regs_le (nw_regs s a) (nw_regs s' b)
     \<and> map_option pe_last_seen (get_peer (nw_regs s' a) k)
         = map_option pe_last_seen (get_peer (nw_regs s' b) k)
     \<and> (\<exists>acts. gossip_round ok wire routers ns acts t)"
proof -
  let ?s1 = "net_run ok wire routers seg s"
  have round: "gossip_round ok wire routers ns seg s" and rounds: "gossip_rounds ok wire routers ns segs ?s1"
    using assms(4) by auto
  have s': "s' = net_run ok wire routers (concat segs) ?s1"
    using assms(5) by simp
  have keyed: "all_keyed (nw_regs s)" "all_keyed (nw_regs ?s1)"
    unfolding assms(3) by (intro net_run_keyed net_start_keyed)+
  have spread: "knows (nw_regs s') y k t" if "knows (nw_regs ?s1) x k t" "x \<in> set ns" "y \<in> set ns" for x y k t
    unfolding s' using assms(2) that
    by (intro rounds_teach [OF assms(1) that(3) keyed(2) rounds]) (auto simp: list_all_iff)
  have empty: "nw_flight ?s1 = []"
    using round by (simp add: gossip_round_def)
  define E where "E = (\<lambda>x :: peer_entry. \<exists>c\<in>set ns. knows (nw_regs ?s1) c (pe_agent_id x) (pe_last_seen x))"
  have "confined wire (set ns) E ?s1"
    using keyed(2) by (force simp: confined_def empty E_def knows_def peer_lww.keyed_def)
  then have conf: "confined wire (set ns) E s'"
    unfolding s' using wiredD(1,3) [OF assms(1)] rounds_admissible [OF rounds, of E]
    by (intro confined_run [of "set ns" routers wire E ?s1 "concat segs"]) auto
  have agree: "knows (nw_regs s') y k (pe_last_seen x)"
    if x: "get_peer (nw_regs s' z) k = Some x" and z: "z \<in> set ns" and y: "y \<in> set ns" for x y z k
    using confined_reg [OF conf z x] spread [OF _ _ y] net_run_keyed [OF keyed(2)] x
    unfolding E_def s' peer_lww.keyed_def by blast
  have "regs_le (nw_regs s a) (nw_regs s' b)"
    unfolding regs_le_def
    using spread [OF knows_run [OF round_gossips [OF round]] assms(6,7)]
    by (auto simp: knows_def)
  moreover have "map_option pe_last_seen (get_peer (nw_regs s' a) k)
      = map_option pe_last_seen (get_peer (nw_regs s' b) k)"
    using agree [OF _ assms(6,7), of k] agree [OF _ assms(7,6), of k]
    by (cases "get_peer (nw_regs s' a) k"; cases "get_peer (nw_regs s' b) k")
      (fastforce simp: knows_def)+
  moreover have "nw_flight s' = []"
    using rounds_flight [OF rounds empty] by (simp only: s')
  ultimately show ?thesis
    using round_schedule_round by blast
qed


text \<open>\<open>n\<close> rounds, one after the other.\<close>
fun rounds_schedule ::
    "(chan \<Rightarrow> bool) \<Rightarrow> (chan \<Rightarrow> string \<times> string) \<Rightarrow> (string \<Rightarrow> gossip_router) \<Rightarrow> string list
      \<Rightarrow> nat \<Rightarrow> gossip_network \<Rightarrow> net_action list list" where
  "rounds_schedule ok wire routers ns 0 s = []"
| "rounds_schedule ok wire routers ns (Suc n) s =
     (let acts = round_schedule ok wire routers ns s
      in acts # rounds_schedule ok wire routers ns n (net_run ok wire routers acts s))"

lemma rounds_schedule_rounds:
  "gossip_rounds ok wire routers ns (rounds_schedule ok wire routers ns n s) s"
  by (induction n arbitrary: s) (simp_all add: Let_def round_schedule_round)

lemma length_rounds_schedule [simp]: "length (rounds_schedule ok wire routers ns n s) = n"
  by (induction n arbitrary: s) (simp_all add: Let_def)

lemma rounds_schedule_Suc:
  assumes "n = Suc m"
  obtains seg segs where "rounds_schedule ok wire routers ns n s = seg # segs" "length segs = m"
  using that assms by (simp add: Let_def)

lemma regs_leD:
  "regs_le r r' \<Longrightarrow> get_peer r k = Some e
     \<Longrightarrow> \<exists>x. get_peer r' k = Some x \<and> pe_last_seen e \<le> pe_last_seen x"
  unfolding regs_le_def by blast

text \<open>Three nodes in a line, \<open>a\<close> -- \<open>b\<close> -- \<open>c\<close>, over the channels 1 to 4.\<close>
definition line_router :: "string \<Rightarrow> gossip_router" where
  "line_router a =
     (let new = gossip_router_new a in
      if a = ''a'' then fst (gossip_add_peer new ''b'' 1)
      else if a = ''b'' then fst (gossip_add_peer (fst (gossip_add_peer new ''a'' 2)) ''c'' 3)
      else if a = ''c'' then fst (gossip_add_peer new ''b'' 4)
      else new)"

definition line_wire :: "chan \<Rightarrow> string \<times> string" where
  "line_wire c = (if c = 1 then (''b'', ''a'') else if c = 2 then (''a'', ''b'')
     else if c = 3 then (''c'', ''b'') else (''b'', ''c''))"

lemma line_wired: "wired (\<lambda>_. True) line_wire line_router [''a'', ''b'', ''c'']"
  by (auto simp: wired_def line_wire_def line_router_def gossip_add_peer_def gossip_router_new_def
      Let_def list_all_iff split: if_splits)

lemma line_reaches:
  "list_all (\<lambda>a. list_all (reaches line_router 2 a) [''a'', ''b'', ''c'']) [''a'', ''b'', ''c'']"
  by (simp add: line_router_def gossip_add_peer_def gossip_router_new_def Let_def list_ex_iff
      eval_nat_numeral)

definition line_history :: "net_action list" where
  "line_history = [NodeAnnounce ''a'' (announce_of ''agent:alice'') 10, Tick ''b'', Deliver 0, Lose 0]"

definition line_start :: gossip_network where
  "line_start = net_run (\<lambda>_. True) line_wire line_router line_history
     (net_start (\<lambda>a. registry_new ''mesh:m''))"

lemma announced_last_seen: "pe_last_seen (announced (msg, now)) = now"
  by (simp add: announced_def)

lemma line_start_alice:
  "get_peer (nw_regs line_start ''a'') ''agent:alice'' = Some (announced (announce_of ''agent:alice'', 10))"
  by (simp add: line_start_def line_history_def net_start_def line_router_def line_wire_def
      periodic_gossip_tick_def initiate_pull_all_def initiate_pull_def gossip_add_peer_def
      gossip_router_new_def remove_nth_def Let_def hm_eval announce_of_def announced_def
      handle_announce_def get_peer_def)

theorem gossip_network_converges_witness:
  "\<exists>x. get_peer (nw_regs (net_run (\<lambda>_. True) line_wire line_router
       (concat (rounds_schedule (\<lambda>_. True) line_wire line_router [''a'', ''b'', ''c''] 3 line_start))
       line_start) ''c'') ''agent:alice'' = Some x \<and> 10 \<le> pe_last_seen x"
proof -
  let ?segs = "rounds_schedule (\<lambda>_. True) line_wire line_router [''a'', ''b'', ''c''] 3 line_start"
  obtain seg segs where segs: "?segs = seg # segs" "length segs = 2"
    by (rule rounds_schedule_Suc [of 3 2]) simp
  have near: "list_all (\<lambda>a. list_all (reaches line_router (length segs) a)
      [''a'', ''b'', ''c'']) [''a'', ''b'', ''c'']"
    unfolding segs(2) by (rule line_reaches)
  have rounds: "gossip_rounds (\<lambda>_. True) line_wire line_router [''a'', ''b'', ''c'']
      (seg # segs) line_start"
    unfolding segs(1) [symmetric] by (rule rounds_schedule_rounds)
  have in_line: "''a'' \<in> set [''a'', ''b'', ''c'']" "''c'' \<in> set [''a'', ''b'', ''c'']"
    by simp_all
  note gossip_network_converges
    [OF line_wired near line_start_def rounds refl in_line, THEN conjunct2, THEN conjunct1]
  from regs_leD [OF this line_start_alice] show ?thesis
    by (simp only: segs(1) announced_last_seen)
qed

text \<open>
  C17: Gossip invents nothing and mixes nothing up. After any history of the network, every entry a
  node holds, and every entry in a message in flight, is exactly what some agent announced about
  itself at some node, with the time that node stamped on it; an agent id is bound to no other
  agent's announcement.
\<close>
theorem gossip_entries_were_announced:
  assumes "s = net_run ok wire routers acts (net_start (\<lambda>a. registry_new (mesh a)))"
    and "get_peer (nw_regs s a) k = Some e \<or>
      (\<exists>c push. (c, Push push) \<in> set (nw_flight s) \<and> e \<in> set (gpush_entries push) \<and> pe_agent_id e = k)"
  shows "\<exists>b msg now. NodeAnnounce b msg now \<in> set acts \<and> am_agent_id msg = k
     \<and> e = announced (msg, now)"
proof -
  define E where "E = (\<lambda>x :: peer_entry. \<exists>b msg now. NodeAnnounce b msg now \<in> set acts
      \<and> x = announced (msg, now))"
  have "list_all (step_allowed UNIV E) acts"
    by (auto simp: E_def list_all_iff split: net_action.splits)
  then have "confined wire UNIV E s"
    unfolding assms(1) by (intro confined_run) (auto simp: confined_def net_start_def)
  then have "E e"
    using assms(2) unfolding confined_def by blast
  moreover have "pe_agent_id e = k"
    using assms net_run_keyed [OF net_start_keyed] unfolding peer_lww.keyed_def by blast
  moreover have "pe_agent_id (announced (msg, now)) = am_agent_id msg" for msg now
    by (simp add: announced_def)
  ultimately show ?thesis
    unfolding E_def by metis
qed

theorem gossip_entries_were_announced_witness:
  "\<exists>b msg now. NodeAnnounce b msg now \<in> set line_history \<and> am_agent_id msg = ''agent:alice''
     \<and> announced (announce_of ''agent:alice'', 10) = announced (msg, now)"
  by (rule gossip_entries_were_announced [OF line_start_def, of "''a''"]) (rule disjI1, rule line_start_alice)

end
