(* ===== verification/Rooms.thy ===== *)
theory Rooms
  imports Hash_Map Events
begin

text \<open>
  Rooms and their members (\<open>RoomManager\<close> of \<open>p2p/src/room.rs\<close>): two maps kept in step, the rooms'
  metadata and the sets of their members.
\<close>

section \<open>Data\<close>

record room_info =
  ri_room_id :: string
  ri_mesh_id :: string
  ri_name :: string
  ri_created_at :: timestamp
  ri_max_members :: "nat option"

record room_manager =
  rm_mesh_id :: string
  rm_rooms :: "(string, room_info) hash_map"
  rm_members :: "(string, string hash_set) hash_map"

datatype room_error = RoomMissing | AlreadyJoined | RoomFull | NotMember

fun room_error_msg :: "room_error \<Rightarrow> string" where
  "room_error_msg RoomMissing = ''room not found''"
| "room_error_msg AlreadyJoined = ''already joined this room''"
| "room_error_msg RoomFull = ''room is full''"
| "room_error_msg NotMember = ''not a member of this room''"

section \<open>Operations\<close>

definition room_manager_new :: "string \<Rightarrow> room_manager" where
  "room_manager_new mesh_id = \<lparr>rm_mesh_id = mesh_id, rm_rooms = hm_new, rm_members = hm_new\<rparr>"

definition create_room ::
    "room_manager \<Rightarrow> string \<Rightarrow> string \<Rightarrow> nat option \<Rightarrow> timestamp
      \<Rightarrow> room_manager \<times> room_info option" where
  "create_room self room_id name max_members now =
     (if hm_contains_key (rm_rooms self) room_id then (self, None)
      else
        (let info = \<lparr>ri_room_id = room_id, ri_mesh_id = rm_mesh_id self, ri_name = name,
                     ri_created_at = now, ri_max_members = max_members\<rparr>
         in (self\<lparr>rm_rooms := hm_insert room_id info (rm_rooms self),
                  rm_members := hm_insert room_id hm_new (rm_members self)\<rparr>,
             Some info)))"

definition room_is_full :: "room_info \<Rightarrow> string hash_set \<Rightarrow> bool" where
  "room_is_full room member_set \<longleftrightarrow>
     (case ri_max_members room of None \<Rightarrow> False | Some limit \<Rightarrow> limit \<le> hm_len member_set)"

definition join_room ::
    "room_manager \<Rightarrow> string \<Rightarrow> string \<Rightarrow> room_manager \<times> event list \<times> (room_error, unit) result" where
  "join_room self room_id agent_id =
     (case hm_get (rm_rooms self) room_id of
        None \<Rightarrow> (self, [], Err RoomMissing)
      | Some room \<Rightarrow>
          (case hm_get (rm_members self) room_id of
             None \<Rightarrow> (self, [], Err RoomMissing)
           | Some member_set \<Rightarrow>
               if hm_contains_key member_set agent_id then (self, [], Err AlreadyJoined)
               else if room_is_full room member_set then (self, [], Err RoomFull)
               else
                 (self\<lparr>rm_members :=
                     hm_insert room_id (hm_insert agent_id () member_set) (rm_members self)\<rparr>,
                  [RoomJoined agent_id room_id,
                   PatchReady (rm_mesh_id self) (agent_id @ '' joined room '' @ room_id)],
                  Ok ())))"

definition leave_room ::
    "room_manager \<Rightarrow> string \<Rightarrow> string \<Rightarrow> room_manager \<times> event list \<times> (room_error, unit) result" where
  "leave_room self room_id agent_id =
     (case hm_get (rm_members self) room_id of
        None \<Rightarrow> (self, [], Err RoomMissing)
      | Some member_set \<Rightarrow>
          if \<not> hm_contains_key member_set agent_id then (self, [], Err NotMember)
          else
            (self\<lparr>rm_members := hm_insert room_id (hm_remove agent_id member_set) (rm_members self)\<rparr>,
             [RoomLeft agent_id room_id,
              PatchReady (rm_mesh_id self) (agent_id @ '' left room '' @ room_id)],
             Ok ()))"

definition room_members :: "room_manager \<Rightarrow> string \<Rightarrow> (room_error, string list) result" where
  "room_members self room_id = map_ok hm_keys (ok_or (hm_get (rm_members self) room_id) RoomMissing)"

definition list_rooms :: "room_manager \<Rightarrow> room_info list" where
  "list_rooms self = hm_values (rm_rooms self)"

definition get_room :: "room_manager \<Rightarrow> string \<Rightarrow> room_info option" where
  "get_room self room_id = hm_get (rm_rooms self) room_id"

definition member_count :: "room_manager \<Rightarrow> string \<Rightarrow> (room_error, nat) result" where
  "member_count self room_id = map_ok hm_len (ok_or (hm_get (rm_members self) room_id) RoomMissing)"

section \<open>The abstract view\<close>

text \<open>
  What the manager promises: each room has its metadata and a finite set of members; the abstract
  state is that map.
\<close>
definition room_abs :: "room_manager \<Rightarrow> string \<Rightarrow> (room_info \<times> string set) option" where
  "room_abs self rid =
     (case (hm_get (rm_rooms self) rid, hm_get (rm_members self) rid) of
        (Some info, Some ms) \<Rightarrow> Some (info, dom (hm_get ms))
      | _ \<Rightarrow> None)"

definition rooms_ok :: "room_manager \<Rightarrow> bool" where
  "rooms_ok self \<longleftrightarrow>
     dom (hm_get (rm_rooms self)) = dom (hm_get (rm_members self))
     \<and> (\<forall>rid info ms. hm_get (rm_rooms self) rid = Some info \<longrightarrow> hm_get (rm_members self) rid = Some ms
          \<longrightarrow> ri_room_id info = rid \<and> ri_mesh_id info = rm_mesh_id self
              \<and> (\<forall>limit. ri_max_members info = Some limit \<longrightarrow> hm_len ms \<le> limit))"

inductive room_step :: "room_manager \<Rightarrow> room_manager \<Rightarrow> bool" where
  room_create: "room_step r (fst (create_room r rid name limit now))"
| room_join: "room_step r (fst (join_room r rid a))"
| room_leave: "room_step r (fst (leave_room r rid a))"

inductive rooms_reachable :: "string \<Rightarrow> room_manager \<Rightarrow> bool" for mesh where
  rooms_start: "rooms_reachable mesh (room_manager_new mesh)"
| rooms_next: "rooms_reachable mesh r \<Longrightarrow> room_step r r' \<Longrightarrow> rooms_reachable mesh r'"

lemma rooms_ok_create: "rooms_ok r \<Longrightarrow> rooms_ok (fst (create_room r rid name limit now))"
  by (auto simp: rooms_ok_def create_room_def Let_def)

lemma rooms_ok_join: "rooms_ok r \<Longrightarrow> rooms_ok (fst (join_room r rid a))"
  by (auto simp: rooms_ok_def join_room_def room_is_full_def split: option.splits)

lemma rooms_ok_leave: "rooms_ok r \<Longrightarrow> rooms_ok (fst (leave_room r rid a))"
  by (fastforce simp: rooms_ok_def leave_room_def hm_contains_key_def split: option.splits
      dest: spec)

lemma rooms_reachable_ok: "rooms_reachable mesh r \<Longrightarrow> rooms_ok r \<and> rm_mesh_id r = mesh"
proof (induction rule: rooms_reachable.induct)
  case rooms_start
  show ?case by (simp add: rooms_ok_def room_manager_new_def)
next
  case (rooms_next r r')
  from rooms_next.hyps(2) have "rm_mesh_id r' = rm_mesh_id r"
    by (cases rule: room_step.cases)
      (auto simp: create_room_def join_room_def leave_room_def Let_def split: option.splits)
  moreover from rooms_next.hyps(2) have "rooms_ok r'"
    by (cases rule: room_step.cases)
      (use rooms_next.IH rooms_ok_create rooms_ok_join rooms_ok_leave in auto)
  ultimately show ?case using rooms_next.IH by simp
qed

lemma rooms_ok_dom:
  "rooms_ok r \<Longrightarrow> hm_get (rm_rooms r) rid = None \<longleftrightarrow> hm_get (rm_members r) rid = None"
  unfolding rooms_ok_def by blast

lemma room_abs_None: "rooms_ok r \<Longrightarrow> room_abs r rid = None \<longleftrightarrow> get_room r rid = None"
  by (force simp: room_abs_def rooms_ok_def get_room_def dom_def split: option.splits)

section \<open>Properties\<close>

text \<open>
  Rooms stay consistent and within their capacity. In every reachable manager the rooms with
  metadata are the rooms with a member set, each room is stored under the id it reports in the
  manager's mesh, and a room with a member limit never has more members than it.
\<close>
theorem rooms_within_capacity:
  assumes "rooms_reachable mesh r" and "get_room r rid = Some info"
  shows "\<exists>ms. room_members r rid = Ok ms \<and> distinct ms
     \<and> member_count r rid = Ok (length ms)
     \<and> ri_room_id info = rid \<and> ri_mesh_id info = mesh
     \<and> length ms \<le> unwrap_or (ri_max_members info) (length ms)"
proof -
  have ok: "rooms_ok r" and mesh: "rm_mesh_id r = mesh"
    using rooms_reachable_ok [OF assms(1)] by auto
  have info: "hm_get (rm_rooms r) rid = Some info"
    using assms(2) by (simp add: get_room_def)
  then obtain ms where ms: "hm_get (rm_members r) rid = Some ms"
    using rooms_ok_dom [OF ok, of rid] by auto
  have "length (hm_keys ms) = hm_len ms"
    by (simp add: hm_keys_def hm_len_def)
  moreover have "ri_room_id info = rid \<and> ri_mesh_id info = mesh
      \<and> (\<forall>limit. ri_max_members info = Some limit \<longrightarrow> hm_len ms \<le> limit)"
    using ok info ms mesh by (auto simp: rooms_ok_def)
  ultimately show ?thesis
    using ms by (cases "ri_max_members info") (auto simp: room_members_def member_count_def)
qed

theorem rooms_within_capacity_witness:
  "\<exists>ms. room_members (fst (join_room (fst (create_room (room_manager_new ''mesh:a'') ''room:r''
      ''R'' (Some 1) 0)) ''room:r'' ''agent:alice'')) ''room:r'' = Ok ms \<and> length ms \<le> 1"
proof -
  let ?info = "\<lparr>ri_room_id = ''room:r'', ri_mesh_id = ''mesh:a'', ri_name = ''R'', ri_created_at = 0,
      ri_max_members = Some 1\<rparr>"
  let ?r = "fst (join_room (fst (create_room (room_manager_new ''mesh:a'') ''room:r''
      ''R'' (Some 1) 0)) ''room:r'' ''agent:alice'')"
  have "get_room ?r ''room:r'' = Some ?info"
    by (simp add: join_room_def create_room_def room_manager_new_def get_room_def room_is_full_def Let_def)
  from rooms_within_capacity [OF rooms_next [OF rooms_next [OF rooms_start room_create] room_join] this]
  show ?thesis by auto
qed

text \<open>
  C20: Creating, joining and leaving refine the abstract rooms. Creating adds an empty room, only if
  the id is free; joining adds the agent exactly when the room exists, the agent is not in it and
  the limit is not reached, with the error of the first guard that fails otherwise; leaving removes
  a member and refuses anyone else; no operation touches another room, and a failed one changes
  nothing and announces nothing.
\<close>
theorem room_operations_refine:
  assumes "rooms_reachable mesh r"
  shows "room_abs (fst (create_room r rid name limit now)) =
       (if room_abs r rid = None
        then (room_abs r)(rid \<mapsto> (\<lparr>ri_room_id = rid, ri_mesh_id = mesh, ri_name = name,
               ri_created_at = now, ri_max_members = limit\<rparr>, {}))
        else room_abs r)
     \<and> (room_abs (fst (join_room r rid a)), snd (join_room r rid a)) =
       (case room_abs r rid of
          None \<Rightarrow> (room_abs r, [], Err RoomMissing)
        | Some (info, ms) \<Rightarrow>
            if a \<in> ms then (room_abs r, [], Err AlreadyJoined)
            else if unwrap_or (ri_max_members info) (card ms + 1) \<le> card ms
            then (room_abs r, [], Err RoomFull)
            else ((room_abs r)(rid \<mapsto> (info, insert a ms)),
                  [RoomJoined a rid, PatchReady mesh (a @ '' joined room '' @ rid)], Ok ()))
     \<and> (room_abs (fst (leave_room r rid a)), snd (leave_room r rid a)) =
       (case room_abs r rid of
          None \<Rightarrow> (room_abs r, [], Err RoomMissing)
        | Some (info, ms) \<Rightarrow>
            if a \<notin> ms then (room_abs r, [], Err NotMember)
            else ((room_abs r)(rid \<mapsto> (info, ms - {a})),
                  [RoomLeft a rid, PatchReady mesh (a @ '' left room '' @ rid)], Ok ()))"
proof -
  have ok: "rooms_ok r" and mesh: "rm_mesh_id r = mesh"
    using rooms_reachable_ok [OF assms] by auto
  have dom: "hm_get (rm_rooms r) rid = None \<longleftrightarrow> hm_get (rm_members r) rid = None"
    by (rule rooms_ok_dom [OF ok])
  show ?thesis
  proof (cases "hm_get (rm_rooms r) rid")
    case None
    with dom mesh show ?thesis
      by (auto simp: create_room_def join_room_def leave_room_def room_abs_def hm_contains_key_def
          fun_eq_iff Let_def)
  next
    case (Some info)
    with dom obtain ms where ms: "hm_get (rm_members r) rid = Some ms" by auto
    have abs: "room_abs r rid = Some (info, dom (hm_get ms))"
      using Some ms by (simp add: room_abs_def)
    have "fst (create_room r rid name limit now) = r"
      using Some by (simp add: create_room_def hm_contains_key_def)
    moreover have "room_is_full info ms \<longleftrightarrow>
        unwrap_or (ri_max_members info) (card (dom (hm_get ms)) + 1) \<le> card (dom (hm_get ms))"
      by (cases "ri_max_members info") (simp_all add: room_is_full_def hm_len_card)
    ultimately show ?thesis
      using Some ms abs mesh
      by (auto simp: join_room_def leave_room_def room_abs_def fun_eq_iff hm_contains_key_dom
          split: if_splits)
  qed
qed

theorem room_operations_refine_witness:
  "snd (snd (join_room (fst (create_room (room_manager_new ''mesh:a'') ''room:r'' ''R'' (Some 0) 0))
      ''room:r'' ''agent:alice'')) = Err RoomFull"
proof -
  let ?r = "fst (create_room (room_manager_new ''mesh:a'') ''room:r'' ''R'' (Some 0) 0)"
  have "room_abs ?r ''room:r'' = Some (\<lparr>ri_room_id = ''room:r'', ri_mesh_id = ''mesh:a'',
      ri_name = ''R'', ri_created_at = 0, ri_max_members = Some 0\<rparr>, {})"
    by (simp add: create_room_def room_manager_new_def room_abs_def Let_def)
  then show ?thesis
    using room_operations_refine [OF rooms_next [OF rooms_start room_create [of _ "''room:r''" "''R''"
        "Some 0" 0]], of "''mesh:a''" "''room:r''" "''N''" None 0 "''agent:alice''"]
    by auto
qed

end
