(* ===== verification/Room_Locks.thy ===== *)
theory Room_Locks
  imports Rooms
begin

text \<open>
  The room manager under concurrent calls (\<open>p2p/src/room.rs\<close>). The manager has two locks, one for
  the rooms and one for the members. \<open>create_room\<close> takes the first for writing and then, still
  holding it, the second; \<open>join_room\<close> takes the first for reading and then the second; the others
  take one lock. Here each call is cut where it waits for a lock. A lock is what its documentation
  says: any number of readers or one writer. The members lock is only ever held within one cut, so
  only the rooms lock can be found taken. The calls are shown to take effect one at a time, each at
  one of its own steps, and never to block each other for good.
\<close>

section \<open>The parts of the calls\<close>

text \<open>\<open>create_room\<close> up to its second lock: the rooms are written, the members not yet.\<close>
definition create_begin ::
    "room_manager \<Rightarrow> string \<Rightarrow> string \<Rightarrow> nat option \<Rightarrow> timestamp
      \<Rightarrow> room_manager \<times> room_info option" where
  "create_begin self room_id name max_members now =
     (if hm_contains_key (rm_rooms self) room_id then (self, None)
      else
        (let info = \<lparr>ri_room_id = room_id, ri_mesh_id = rm_mesh_id self, ri_name = name,
                     ri_created_at = now, ri_max_members = max_members\<rparr>
         in (self\<lparr>rm_rooms := hm_insert room_id info (rm_rooms self)\<rparr>, Some info)))"

definition create_finish :: "room_manager \<Rightarrow> string \<Rightarrow> room_manager" where
  "create_finish self room_id =
     self\<lparr>rm_members := hm_insert room_id hm_new (rm_members self)\<rparr>"

text \<open>\<open>join_room\<close> from its second lock on, with the room it has read under the first.\<close>
definition join_finish ::
    "room_manager \<Rightarrow> string \<Rightarrow> string \<Rightarrow> room_info
      \<Rightarrow> room_manager \<times> event list \<times> (room_error, unit) result" where
  "join_finish self room_id agent_id room =
     (case hm_get (rm_members self) room_id of
        None \<Rightarrow> (self, [], Err RoomMissing)
      | Some member_set \<Rightarrow>
          if hm_contains_key member_set agent_id then (self, [], Err AlreadyJoined)
          else if room_is_full room member_set then (self, [], Err RoomFull)
          else
            (self\<lparr>rm_members :=
                hm_insert room_id (hm_insert agent_id () member_set) (rm_members self)\<rparr>,
             [RoomJoined agent_id room_id,
              PatchReady (rm_mesh_id self) (agent_id @ '' joined room '' @ room_id)],
             Ok ()))"

lemma create_room_parts:
  "create_room self rid name limit now =
     (case create_begin self rid name limit now of
        (self', None) \<Rightarrow> (self', None)
      | (self', Some info) \<Rightarrow> (create_finish self' rid, Some info))"
  by (simp add: create_room_def create_begin_def create_finish_def Let_def)

lemma join_room_parts:
  "join_room self rid a =
     (case hm_get (rm_rooms self) rid of
        None \<Rightarrow> (self, [], Err RoomMissing)
      | Some room \<Rightarrow> join_finish self rid a room)"
  by (simp add: join_room_def join_finish_def split: option.splits)

section \<open>Tasks\<close>

datatype room_call =
    CreateCall string string "nat option" timestamp
  | JoinCall string string
  | LeaveCall string string
  | CountCall string
  | GetCall string

datatype room_answer =
    CreateAnswer "room_info option"
  | ChangeAnswer "event list \<times> (room_error, unit) result"
  | CountAnswer "(room_error, nat) result"
  | GetAnswer "room_info option"

datatype room_phase =
    Calling room_call                  \<comment> \<open>waits for its first lock\<close>
  | CreateHolds room_call room_info    \<comment> \<open>holds the rooms for writing, waits for the members\<close>
  | JoinHolds room_call room_info      \<comment> \<open>holds the rooms for reading, waits for the members\<close>
  | Answered room_call room_answer

record room_tasks =
  rt_manager :: room_manager
  rt_phases :: "room_phase list"

fun holds_write :: "room_phase \<Rightarrow> bool" where
  "holds_write (CreateHolds _ _) = True"
| "holds_write _ = False"

fun holds_read :: "room_phase \<Rightarrow> bool" where
  "holds_read (JoinHolds _ _) = True"
| "holds_read _ = False"

definition may_read :: "room_tasks \<Rightarrow> bool" where
  "may_read s \<longleftrightarrow> list_all (\<lambda>ph. \<not> holds_write ph) (rt_phases s)"

definition may_write :: "room_tasks \<Rightarrow> bool" where
  "may_write s \<longleftrightarrow> list_all (\<lambda>ph. \<not> holds_write ph \<and> \<not> holds_read ph) (rt_phases s)"

text \<open>One cut of a call, \<open>None\<close> when it has to wait (or has answered).\<close>
fun phase_step ::
    "bool \<Rightarrow> bool \<Rightarrow> room_manager \<Rightarrow> room_phase \<Rightarrow> (room_manager \<times> room_phase) option" where
  "phase_step wr rd m (Calling (CreateCall rid name limit now)) =
     (if wr then
        Some (case create_begin m rid name limit now of
                (m', None) \<Rightarrow> (m', Answered (CreateCall rid name limit now) (CreateAnswer None))
              | (m', Some info) \<Rightarrow> (m', CreateHolds (CreateCall rid name limit now) info))
      else None)"
| "phase_step wr rd m (Calling (JoinCall rid a)) =
     (if rd then
        Some (case hm_get (rm_rooms m) rid of
                None \<Rightarrow> (m, Answered (JoinCall rid a) (ChangeAnswer ([], Err RoomMissing)))
              | Some room \<Rightarrow> (m, JoinHolds (JoinCall rid a) room))
      else None)"
| "phase_step wr rd m (Calling (LeaveCall rid a)) =
     Some (let (m', ans) = leave_room m rid a in (m', Answered (LeaveCall rid a) (ChangeAnswer ans)))"
| "phase_step wr rd m (Calling (CountCall rid)) =
     Some (m, Answered (CountCall rid) (CountAnswer (member_count m rid)))"
| "phase_step wr rd m (Calling (GetCall rid)) =
     (if rd then Some (m, Answered (GetCall rid) (GetAnswer (get_room m rid))) else None)"
| "phase_step wr rd m (CreateHolds c info) =
     Some (create_finish m (ri_room_id info), Answered c (CreateAnswer (Some info)))"
| "phase_step wr rd m (JoinHolds (JoinCall rid a) room) =
     Some (let (m', ans) = join_finish m rid a room in (m', Answered (JoinCall rid a) (ChangeAnswer ans)))"
| "phase_step wr rd m _ = None"

definition task_step :: "nat \<Rightarrow> room_tasks \<Rightarrow> room_tasks option" where
  "task_step t s =
     (if t < length (rt_phases s) then
        (case phase_step (may_write s) (may_read s) (rt_manager s) (rt_phases s ! t) of
           None \<Rightarrow> None
         | Some (m, ph) \<Rightarrow> Some \<lparr>rt_manager = m, rt_phases = (rt_phases s)[t := ph]\<rparr>)
      else None)"

inductive tasks_reachable :: "string \<Rightarrow> room_tasks \<Rightarrow> bool" for mesh where
  rt_start: "tasks_reachable mesh \<lparr>rt_manager = room_manager_new mesh, rt_phases = []\<rparr>"
| rt_call: "tasks_reachable mesh s \<Longrightarrow>
    tasks_reachable mesh (s\<lparr>rt_phases := rt_phases s @ [Calling c]\<rparr>)"
| rt_step: "tasks_reachable mesh s \<Longrightarrow> task_step t s = Some s' \<Longrightarrow> tasks_reachable mesh s'"

section \<open>The specification\<close>

text \<open>The calls on the abstract rooms, each in one go.\<close>
type_synonym abs_rooms = "string \<Rightarrow> (room_info \<times> string set) option"

fun room_spec :: "string \<Rightarrow> room_call \<Rightarrow> abs_rooms \<Rightarrow> abs_rooms \<times> room_answer" where
  "room_spec mesh (CreateCall rid name limit now) rooms =
     (case rooms rid of
        Some _ \<Rightarrow> (rooms, CreateAnswer None)
      | None \<Rightarrow>
          (let info = \<lparr>ri_room_id = rid, ri_mesh_id = mesh, ri_name = name, ri_created_at = now,
                       ri_max_members = limit\<rparr>
           in (rooms(rid \<mapsto> (info, {})), CreateAnswer (Some info))))"
| "room_spec mesh (JoinCall rid a) rooms =
     (case rooms rid of
        None \<Rightarrow> (rooms, ChangeAnswer ([], Err RoomMissing))
      | Some (info, ms) \<Rightarrow>
          if a \<in> ms then (rooms, ChangeAnswer ([], Err AlreadyJoined))
          else if unwrap_or (ri_max_members info) (card ms + 1) \<le> card ms
          then (rooms, ChangeAnswer ([], Err RoomFull))
          else (rooms(rid \<mapsto> (info, insert a ms)),
                ChangeAnswer ([RoomJoined a rid, PatchReady mesh (a @ '' joined room '' @ rid)], Ok ())))"
| "room_spec mesh (LeaveCall rid a) rooms =
     (case rooms rid of
        None \<Rightarrow> (rooms, ChangeAnswer ([], Err RoomMissing))
      | Some (info, ms) \<Rightarrow>
          if a \<notin> ms then (rooms, ChangeAnswer ([], Err NotMember))
          else (rooms(rid \<mapsto> (info, ms - {a})),
                ChangeAnswer ([RoomLeft a rid, PatchReady mesh (a @ '' left room '' @ rid)], Ok ())))"
| "room_spec mesh (CountCall rid) rooms =
     (rooms, CountAnswer (case rooms rid of None \<Rightarrow> Err RoomMissing | Some (_, ms) \<Rightarrow> Ok (card ms)))"
| "room_spec mesh (GetCall rid) rooms = (rooms, GetAnswer (map_option fst (rooms rid)))"

section \<open>The invariant\<close>

text \<open>What a task in a phase relies on, and what a manager looks like beside the other tasks.\<close>
fun phase_ok :: "room_manager \<Rightarrow> room_phase \<Rightarrow> bool" where
  "phase_ok m (CreateHolds c info) \<longleftrightarrow>
     hm_get (rm_rooms m) (ri_room_id info) = Some info
     \<and> hm_get (rm_members m) (ri_room_id info) = None
     \<and> (\<exists>name limit now. c = CreateCall (ri_room_id info) name limit now
          \<and> info = \<lparr>ri_room_id = ri_room_id info, ri_mesh_id = rm_mesh_id m, ri_name = name,
                    ri_created_at = now, ri_max_members = limit\<rparr>)"
| "phase_ok m (JoinHolds c room) \<longleftrightarrow>
     (\<exists>rid a. c = JoinCall rid a \<and> hm_get (rm_rooms m) rid = Some room)"
| "phase_ok m _ \<longleftrightarrow> True"

definition tasks_ok :: "string \<Rightarrow> room_tasks \<Rightarrow> bool" where
  "tasks_ok mesh s \<longleftrightarrow>
     (let m = rt_manager s; phs = rt_phases s; n = length phs in
        rm_mesh_id m = mesh
        \<and> (\<forall>t<n. phase_ok m (phs ! t))
        \<and> (\<forall>t<n. holds_write (phs ! t) \<longrightarrow>
             (\<forall>u<n. u \<noteq> t \<longrightarrow> \<not> holds_write (phs ! u) \<and> \<not> holds_read (phs ! u)))
        \<and> (\<forall>rid. hm_get (rm_rooms m) rid = None \<longrightarrow> hm_get (rm_members m) rid = None)
        \<and> (\<forall>rid. hm_get (rm_rooms m) rid \<noteq> None \<longrightarrow> hm_get (rm_members m) rid = None
             \<longrightarrow> (\<exists>t<n. \<exists>c info. phs ! t = CreateHolds c info \<and> ri_room_id info = rid)))"

lemma tasks_okD:
  assumes "tasks_ok mesh s"
  shows "rm_mesh_id (rt_manager s) = mesh"
    and "t < length (rt_phases s) \<Longrightarrow> phase_ok (rt_manager s) (rt_phases s ! t)"
    and "t < length (rt_phases s) \<Longrightarrow> u < length (rt_phases s) \<Longrightarrow> t \<noteq> u
      \<Longrightarrow> holds_write (rt_phases s ! t)
      \<Longrightarrow> \<not> holds_write (rt_phases s ! u) \<and> \<not> holds_read (rt_phases s ! u)"
    and "hm_get (rm_rooms (rt_manager s)) rid = None \<Longrightarrow> hm_get (rm_members (rt_manager s)) rid = None"
    and "hm_get (rm_rooms (rt_manager s)) rid \<noteq> None \<Longrightarrow> hm_get (rm_members (rt_manager s)) rid = None
      \<Longrightarrow> \<exists>t<length (rt_phases s). \<exists>c info. rt_phases s ! t = CreateHolds c info \<and> ri_room_id info = rid"
  using assms unfolding tasks_ok_def Let_def by blast+

text \<open>When nobody writes the rooms, the two maps have the same rooms.\<close>
lemma quiet_dom:
  assumes "tasks_ok mesh s" "may_read s"
  shows "hm_get (rm_rooms (rt_manager s)) rid = None \<longleftrightarrow> hm_get (rm_members (rt_manager s)) rid = None"
proof -
  have "\<not> holds_write (rt_phases s ! t)" if "t < length (rt_phases s)" for t
    using assms(2) that by (simp add: may_read_def list_all_length)
  then show ?thesis
    using tasks_okD(4,5) [OF assms(1), of rid] by fastforce
qed

text \<open>A step of task \<open>t\<close>: what has to be shown of the new manager and the new phase.\<close>
lemma tasks_ok_update:
  assumes "tasks_ok mesh s" "t < length (rt_phases s)"
    and "rm_mesh_id m = mesh" "phase_ok m ph"
    and others: "\<And>u. u < length (rt_phases s) \<Longrightarrow> u \<noteq> t \<Longrightarrow> phase_ok m (rt_phases s ! u)"
    and wr: "holds_write ph \<Longrightarrow> may_write s"
    and rd: "holds_read ph \<Longrightarrow> may_read s"
    and dom: "\<And>rid. hm_get (rm_rooms m) rid = None \<Longrightarrow> hm_get (rm_members m) rid = None"
    and pending: "\<And>rid. hm_get (rm_rooms m) rid \<noteq> None \<Longrightarrow> hm_get (rm_members m) rid = None \<Longrightarrow>
        (\<exists>c info. ph = CreateHolds c info \<and> ri_room_id info = rid)
        \<or> (\<exists>u<length (rt_phases s). u \<noteq> t \<and>
             (\<exists>c info. rt_phases s ! u = CreateHolds c info \<and> ri_room_id info = rid))"
  shows "tasks_ok mesh \<lparr>rt_manager = m, rt_phases = (rt_phases s)[t := ph]\<rparr>"
proof -
  have free: "holds_write ph \<Longrightarrow> u < length (rt_phases s)
      \<Longrightarrow> \<not> holds_write (rt_phases s ! u) \<and> \<not> holds_read (rt_phases s ! u)"
    and free': "holds_read ph \<Longrightarrow> u < length (rt_phases s) \<Longrightarrow> \<not> holds_write (rt_phases s ! u)" for u
    using wr rd by (auto simp: may_write_def may_read_def list_all_length)
  have "\<exists>u<length (rt_phases s). \<exists>c info. (rt_phases s)[t := ph] ! u = CreateHolds c info \<and> ri_room_id info = rid"
    if "hm_get (rm_rooms m) rid \<noteq> None" "hm_get (rm_members m) rid = None" for rid
    using pending [OF that] assms(2) by (metis nth_list_update_eq nth_list_update_neq)
  then show ?thesis
    using assms(2-4) others dom free free' tasks_okD(3) [OF assms(1)]
    unfolding tasks_ok_def Let_def by (auto simp: nth_list_update)
qed

text \<open>A step that leaves the manager alone and takes no lock.\<close>
lemma tasks_ok_answer:
  assumes "tasks_ok mesh s" "t < length (rt_phases s)" "\<not> holds_write (rt_phases s ! t)"
  shows "tasks_ok mesh \<lparr>rt_manager = rt_manager s, rt_phases = (rt_phases s)[t := Answered c ans]\<rparr>"
proof (rule tasks_ok_update [OF assms(1,2) tasks_okD(1) [OF assms(1)]])
  fix rid
  assume "hm_get (rm_rooms (rt_manager s)) rid \<noteq> None" "hm_get (rm_members (rt_manager s)) rid = None"
  then show "(\<exists>c' info. Answered c ans = CreateHolds c' info \<and> ri_room_id info = rid)
      \<or> (\<exists>u<length (rt_phases s). u \<noteq> t \<and>
             (\<exists>c info. rt_phases s ! u = CreateHolds c info \<and> ri_room_id info = rid))"
    using tasks_okD(5) [OF assms(1)] assms(3) by (metis holds_write.simps(1))
qed (use tasks_okD(2,4) [OF assms(1)] in simp_all)

text \<open>A step that changes the members of an existing room.\<close>
lemma tasks_ok_members:
  assumes "tasks_ok mesh s" "t < length (rt_phases s)" "\<not> holds_write (rt_phases s ! t)"
    and "hm_get (rm_members (rt_manager s)) rid \<noteq> None"
  shows "tasks_ok mesh \<lparr>rt_manager = (rt_manager s)
      \<lparr>rm_members := hm_insert rid ms (rm_members (rt_manager s))\<rparr>,
      rt_phases = (rt_phases s)[t := Answered c ans]\<rparr>"
proof (rule tasks_ok_update [OF assms(1,2)])
  show "rm_mesh_id (rt_manager s\<lparr>rm_members := hm_insert rid ms (rm_members (rt_manager s))\<rparr>) = mesh"
    using tasks_okD(1) [OF assms(1)] by simp
next
  fix u
  assume u: "u < length (rt_phases s)" "u \<noteq> t"
  show "phase_ok (rt_manager s\<lparr>rm_members := hm_insert rid ms (rm_members (rt_manager s))\<rparr>) (rt_phases s ! u)"
    using tasks_okD(2) [OF assms(1) u(1)] assms(4) by (cases "rt_phases s ! u") auto
next
  fix r
  assume "hm_get (rm_rooms (rt_manager s\<lparr>rm_members := hm_insert rid ms (rm_members (rt_manager s))\<rparr>)) r \<noteq> None"
    "hm_get (rm_members (rt_manager s\<lparr>rm_members := hm_insert rid ms (rm_members (rt_manager s))\<rparr>)) r = None"
  then show "(\<exists>c' info. Answered c ans = CreateHolds c' info \<and> ri_room_id info = r)
      \<or> (\<exists>u<length (rt_phases s). u \<noteq> t \<and>
             (\<exists>c info. rt_phases s ! u = CreateHolds c info \<and> ri_room_id info = r))"
    using tasks_okD(5) [OF assms(1), of r] assms(3)
    by (simp split: if_splits) (metis holds_write.simps(1))
next
  fix r
  assume "hm_get (rm_rooms (rt_manager s\<lparr>rm_members := hm_insert rid ms (rm_members (rt_manager s))\<rparr>)) r = None"
  then show "hm_get (rm_members (rt_manager s\<lparr>rm_members := hm_insert rid ms (rm_members (rt_manager s))\<rparr>)) r = None"
    using tasks_okD(4) [OF assms(1), of r] assms(4) tasks_okD(4) [OF assms(1), of rid] by auto
qed simp_all

section \<open>Steps\<close>

lemma create_begin_cases:
  "create_begin m rid name limit now =
     (if hm_get (rm_rooms m) rid \<noteq> None then (m, None)
      else (m\<lparr>rm_rooms := hm_insert rid \<lparr>ri_room_id = rid, ri_mesh_id = rm_mesh_id m, ri_name = name,
                ri_created_at = now, ri_max_members = limit\<rparr> (rm_rooms m)\<rparr>,
            Some \<lparr>ri_room_id = rid, ri_mesh_id = rm_mesh_id m, ri_name = name,
                ri_created_at = now, ri_max_members = limit\<rparr>))"
  by (simp add: create_begin_def hm_contains_key_def Let_def)

lemma room_full_abs:
  "room_is_full info ms \<longleftrightarrow>
     unwrap_or (ri_max_members info) (card (dom (hm_get ms)) + 1) \<le> card (dom (hm_get ms))"
  by (cases "ri_max_members info") (simp_all add: room_is_full_def hm_len_card)

text \<open>The effect of a step on the invariant and on the abstract rooms, by the phase it starts from.\<close>
definition step_right :: "string \<Rightarrow> room_tasks \<Rightarrow> nat \<Rightarrow> room_manager \<Rightarrow> room_phase \<Rightarrow> bool" where
  "step_right mesh s t m ph \<longleftrightarrow>
     tasks_ok mesh \<lparr>rt_manager = m, rt_phases = (rt_phases s)[t := ph]\<rparr>
     \<and> (case ph of
          Answered c ans \<Rightarrow> (room_abs m, ans) = room_spec mesh c (room_abs (rt_manager s))
        | _ \<Rightarrow> room_abs m = room_abs (rt_manager s))"

lemma create_call_right:
  assumes ok: "tasks_ok mesh s" and t: "t < length (rt_phases s)"
    and ph: "rt_phases s ! t = Calling (CreateCall rid name limit now)" and free: "may_write s"
    and step: "phase_step (may_write s) (may_read s) (rt_manager s) (rt_phases s ! t) = Some (m, ph')"
  shows "step_right mesh s t m ph'"
proof -
  let ?m = "rt_manager s"
  let ?info = "\<lparr>ri_room_id = rid, ri_mesh_id = rm_mesh_id ?m, ri_name = name, ri_created_at = now,
    ri_max_members = limit\<rparr>"
  have "may_read s"
    using free by (simp add: may_read_def may_write_def list_all_iff)
  note dom = quiet_dom [OF ok this]
  have quiet: "\<not> holds_write (rt_phases s ! u) \<and> \<not> holds_read (rt_phases s ! u)"
    if "u < length (rt_phases s)" for u
    using free that by (simp add: may_write_def list_all_length)
  show ?thesis
  proof (cases "hm_get (rm_rooms ?m) rid")
    case (Some info)
    then have "m = ?m" "ph' = Answered (CreateCall rid name limit now) (CreateAnswer None)"
      using step free by (auto simp: ph create_begin_cases)
    moreover obtain ms where "room_abs ?m rid = Some (info, ms)"
      using Some dom [of rid] by (auto simp: room_abs_def)
    ultimately show ?thesis
      using tasks_ok_answer [OF ok t] by (simp add: step_right_def ph)
  next
    case None
    then have m: "m = ?m\<lparr>rm_rooms := hm_insert rid ?info (rm_rooms ?m)\<rparr>"
      and ph': "ph' = CreateHolds (CreateCall rid name limit now) ?info"
      using step free by (auto simp: ph create_begin_cases)
    have mem: "hm_get (rm_members ?m) rid = None"
      using None dom by blast
    have "room_abs m = room_abs ?m"
      using None mem by (auto simp: room_abs_def m fun_eq_iff)
    moreover have "tasks_ok mesh \<lparr>rt_manager = m, rt_phases = (rt_phases s)[t := ph']\<rparr>"
    proof (rule tasks_ok_update [OF ok t])
      show "phase_ok m ph'"
        using mem by (simp add: ph' m)
    next
      fix u
      assume "u < length (rt_phases s)" "u \<noteq> t"
      then show "phase_ok m (rt_phases s ! u)"
        using quiet [of u] by (cases "rt_phases s ! u") auto
    next
      fix r
      assume "hm_get (rm_rooms m) r \<noteq> None" "hm_get (rm_members m) r = None"
      then have "r = rid"
        using dom [of r] by (auto simp: m split: if_splits)
      then show "(\<exists>c info. ph' = CreateHolds c info \<and> ri_room_id info = r)
          \<or> (\<exists>u<length (rt_phases s). u \<noteq> t \<and>
             (\<exists>c info. rt_phases s ! u = CreateHolds c info \<and> ri_room_id info = r))"
        by (simp add: ph')
    qed (use free dom tasks_okD(1) [OF ok] in \<open>auto simp: m ph' split: if_splits\<close>)
    ultimately show ?thesis
      by (simp add: step_right_def ph')
  qed
qed

lemma create_holds_right:
  assumes ok: "tasks_ok mesh s" and t: "t < length (rt_phases s)"
    and ph: "rt_phases s ! t = CreateHolds c info"
  shows "step_right mesh s t (create_finish (rt_manager s) (ri_room_id info))
    (Answered c (CreateAnswer (Some info)))"
proof -
  let ?m = "rt_manager s" and ?rid = "ri_room_id info"
  have i: "hm_get (rm_rooms ?m) ?rid = Some info" "hm_get (rm_members ?m) ?rid = None"
    and c: "\<exists>name limit now. c = CreateCall ?rid name limit now
      \<and> info = \<lparr>ri_room_id = ?rid, ri_mesh_id = mesh, ri_name = name,
              ri_created_at = now, ri_max_members = limit\<rparr>"
    using tasks_okD(2) [OF ok t] tasks_okD(1) [OF ok] by (simp_all add: ph)
  have others: "\<not> holds_write (rt_phases s ! u) \<and> \<not> holds_read (rt_phases s ! u)"
    if "u < length (rt_phases s)" "u \<noteq> t" for u
    using tasks_okD(3) [OF ok t that(1)] that(2) by (simp add: ph)
  have "tasks_ok mesh \<lparr>rt_manager = create_finish ?m ?rid,
      rt_phases = (rt_phases s)[t := Answered c (CreateAnswer (Some info))]\<rparr>"
  proof (rule tasks_ok_update [OF ok t])
    fix u
    assume "u < length (rt_phases s)" "u \<noteq> t"
    then show "phase_ok (create_finish ?m ?rid) (rt_phases s ! u)"
      using others [of u] by (cases "rt_phases s ! u") auto
  next
    fix r
    assume r: "hm_get (rm_rooms (create_finish ?m ?rid)) r \<noteq> None"
      "hm_get (rm_members (create_finish ?m ?rid)) r = None"
    then have "r \<noteq> ?rid" "hm_get (rm_rooms ?m) r \<noteq> None" "hm_get (rm_members ?m) r = None"
      by (auto simp: create_finish_def split: if_splits)
    from tasks_okD(5) [OF ok this(2,3)] \<open>r \<noteq> ?rid\<close>
    show "(\<exists>c' info'. Answered c (CreateAnswer (Some info)) = CreateHolds c' info' \<and> ri_room_id info' = r)
        \<or> (\<exists>u<length (rt_phases s). u \<noteq> t \<and>
             (\<exists>c info. rt_phases s ! u = CreateHolds c info \<and> ri_room_id info = r))"
      using ph by (metis room_phase.inject(2))
  qed (use i tasks_okD(1,4) [OF ok] in \<open>auto simp: create_finish_def\<close>)
  moreover have "room_abs ?m ?rid = None"
    using i by (simp add: room_abs_def)
  moreover have "room_abs (create_finish ?m ?rid) = (room_abs ?m)(?rid \<mapsto> (info, {}))"
    using i by (auto simp: room_abs_def create_finish_def fun_eq_iff)
  ultimately show ?thesis
    using c by (auto simp: step_right_def Let_def)
qed

lemma members_changed:
  assumes "room_abs m rid = Some (info, A)"
  shows "room_abs (m\<lparr>rm_members := hm_insert rid ms (rm_members m)\<rparr>)
    = (room_abs m)(rid \<mapsto> (info, dom (hm_get ms)))"
  using assms by (auto simp: room_abs_def fun_eq_iff split: option.splits)

lemma join_holds_right:
  assumes ok: "tasks_ok mesh s" and t: "t < length (rt_phases s)"
    and ph: "rt_phases s ! t = JoinHolds (JoinCall rid a) room"
    and step: "join_finish (rt_manager s) rid a room = (m, ans)"
  shows "step_right mesh s t m (Answered (JoinCall rid a) (ChangeAnswer ans))"
proof -
  let ?m = "rt_manager s"
  have room: "hm_get (rm_rooms ?m) rid = Some room" and mesh: "rm_mesh_id ?m = mesh"
    using tasks_okD(1,2) [OF ok] t ph by fastforce+
  have "may_read s"
    unfolding may_read_def list_all_length
  proof (intro allI impI)
    fix u
    assume u: "u < length (rt_phases s)"
    show "\<not> holds_write (rt_phases s ! u)"
      using tasks_okD(3) [OF ok u t] ph by (cases "u = t") auto
  qed
  from quiet_dom [OF ok this, of rid] room
  obtain ms where ms: "hm_get (rm_members ?m) rid = Some ms" by auto
  have abs: "room_abs ?m rid = Some (room, dom (hm_get ms))"
    using room ms by (simp add: room_abs_def)
  have ph_w: "\<not> holds_write (rt_phases s ! t)"
    by (simp add: ph)
  show ?thesis
  proof (cases "hm_contains_key ms a \<or> room_is_full room ms")
    case True
    then have "m = ?m"
      using step by (auto simp: join_finish_def ms split: if_splits)
    then show ?thesis
      using True step abs tasks_ok_answer [OF ok t ph_w]
      by (auto simp: step_right_def join_finish_def ms hm_contains_key_dom room_full_abs
          split: if_splits)
  next
    case False
    then have m: "m = ?m\<lparr>rm_members := hm_insert rid (hm_insert a () ms) (rm_members ?m)\<rparr>"
      and ans: "ans = ([RoomJoined a rid, PatchReady mesh (a @ '' joined room '' @ rid)], Ok ())"
      using step mesh by (auto simp: join_finish_def ms)
    have "hm_get (rm_members ?m) rid \<noteq> None"
      by (simp add: ms)
    from tasks_ok_members [OF ok t ph_w this] show ?thesis
      using False abs
      by (simp add: step_right_def m ans members_changed [OF abs] hm_contains_key_dom room_full_abs
          insert_commute)
  qed
qed

lemma leave_call_right:
  assumes ok: "tasks_ok mesh s" and t: "t < length (rt_phases s)"
    and ph: "rt_phases s ! t = Calling (LeaveCall rid a)"
    and step: "leave_room (rt_manager s) rid a = (m, ans)"
  shows "step_right mesh s t m (Answered (LeaveCall rid a) (ChangeAnswer ans))"
proof -
  let ?m = "rt_manager s"
  have ph_w: "\<not> holds_write (rt_phases s ! t)"
    by (simp add: ph)
  note mesh = tasks_okD(1) [OF ok]
  show ?thesis
  proof (cases "hm_get (rm_members ?m) rid")
    case None
    then have "m = ?m" "ans = ([], Err RoomMissing)" "room_abs ?m rid = None"
      using step by (auto simp: leave_room_def room_abs_def split: option.splits)
    then show ?thesis
      using tasks_ok_answer [OF ok t ph_w] by (simp add: step_right_def)
  next
    case (Some ms)
    then obtain room where "hm_get (rm_rooms ?m) rid = Some room"
      using tasks_okD(4) [OF ok, of rid] by (cases "hm_get (rm_rooms ?m) rid") auto
    then have abs: "room_abs ?m rid = Some (room, dom (hm_get ms))"
      using Some by (simp add: room_abs_def)
    show ?thesis
    proof (cases "hm_contains_key ms a")
      case False
      then have "m = ?m" "ans = ([], Err NotMember)"
        using step by (auto simp: leave_room_def Some)
      then show ?thesis
        using False abs tasks_ok_answer [OF ok t ph_w]
        by (simp add: step_right_def hm_contains_key_dom)
    next
      case True
      then have m: "m = ?m\<lparr>rm_members := hm_insert rid (hm_remove a ms) (rm_members ?m)\<rparr>"
        and ans: "ans = ([RoomLeft a rid, PatchReady mesh (a @ '' left room '' @ rid)], Ok ())"
        using step mesh by (auto simp: leave_room_def Some)
      have "hm_get (rm_members ?m) rid \<noteq> None"
        by (simp add: Some)
      from tasks_ok_members [OF ok t ph_w this] show ?thesis
        using True abs
        by (simp add: step_right_def m ans members_changed [OF abs] hm_contains_key_dom)
    qed
  qed
qed

lemma join_call_right:
  assumes ok: "tasks_ok mesh s" and t: "t < length (rt_phases s)"
    and ph: "rt_phases s ! t = Calling (JoinCall rid a)" and free: "may_read s"
  shows "case hm_get (rm_rooms (rt_manager s)) rid of
      None \<Rightarrow> step_right mesh s t (rt_manager s) (Answered (JoinCall rid a) (ChangeAnswer ([], Err RoomMissing)))
    | Some room \<Rightarrow> step_right mesh s t (rt_manager s) (JoinHolds (JoinCall rid a) room)"
proof (cases "hm_get (rm_rooms (rt_manager s)) rid")
  case None
  then have "room_abs (rt_manager s) rid = None"
    by (simp add: room_abs_def)
  with None tasks_ok_answer [OF ok t] show ?thesis
    by (simp add: step_right_def ph)
next
  case (Some room)
  have "tasks_ok mesh \<lparr>rt_manager = rt_manager s,
      rt_phases = (rt_phases s)[t := JoinHolds (JoinCall rid a) room]\<rparr>"
  proof (rule tasks_ok_update [OF ok t])
    fix r
    assume "hm_get (rm_rooms (rt_manager s)) r \<noteq> None" "hm_get (rm_members (rt_manager s)) r = None"
    then show "(\<exists>c info. JoinHolds (JoinCall rid a) room = CreateHolds c info \<and> ri_room_id info = r)
        \<or> (\<exists>u<length (rt_phases s). u \<noteq> t \<and>
             (\<exists>c info. rt_phases s ! u = CreateHolds c info \<and> ri_room_id info = r))"
      using quiet_dom [OF ok free, of r] by simp
  qed (use Some free tasks_okD [OF ok] in simp_all)
  with Some show ?thesis
    by (simp add: step_right_def)
qed

lemma read_call_right:
  assumes ok: "tasks_ok mesh s" and t: "t < length (rt_phases s)"
  shows "rt_phases s ! t = Calling (CountCall rid) \<Longrightarrow>
      step_right mesh s t (rt_manager s) (Answered (CountCall rid) (CountAnswer (member_count (rt_manager s) rid)))"
    and "rt_phases s ! t = Calling (GetCall rid) \<Longrightarrow> may_read s \<Longrightarrow>
      step_right mesh s t (rt_manager s) (Answered (GetCall rid) (GetAnswer (get_room (rt_manager s) rid)))"
proof -
  have "member_count (rt_manager s) rid =
      (case room_abs (rt_manager s) rid of None \<Rightarrow> Err RoomMissing | Some (_, ms) \<Rightarrow> Ok (card ms))"
    using tasks_okD(4) [OF ok, of rid]
    by (auto simp: member_count_def room_abs_def hm_len_card split: option.splits)
  then show "rt_phases s ! t = Calling (CountCall rid) \<Longrightarrow>
      step_right mesh s t (rt_manager s) (Answered (CountCall rid) (CountAnswer (member_count (rt_manager s) rid)))"
    using tasks_ok_answer [OF ok t] by (simp add: step_right_def)
  show "rt_phases s ! t = Calling (GetCall rid) \<Longrightarrow> may_read s \<Longrightarrow>
      step_right mesh s t (rt_manager s) (Answered (GetCall rid) (GetAnswer (get_room (rt_manager s) rid)))"
    using tasks_ok_answer [OF ok t] quiet_dom [OF ok, of rid]
    by (auto simp: step_right_def get_room_def room_abs_def split: option.splits)
qed

lemma phase_step_right:
  assumes ok: "tasks_ok mesh s" and t: "t < length (rt_phases s)"
    and step: "phase_step (may_write s) (may_read s) (rt_manager s) (rt_phases s ! t) = Some (m, ph')"
  shows "step_right mesh s t m ph'"
proof (cases "rt_phases s ! t")
  case (Calling c)
  show ?thesis
  proof (cases c)
    case (CreateCall rid name limit now)
    with Calling step have "may_write s" by (simp split: if_splits)
    with ok t Calling CreateCall step show ?thesis by (blast intro: create_call_right)
  next
    case (JoinCall rid a)
    with Calling step have "may_read s" by (simp split: if_splits)
    with join_call_right [OF ok t] Calling JoinCall step show ?thesis
      by (auto split: option.splits)
  next
    case (LeaveCall rid a)
    with leave_call_right [OF ok t] Calling step show ?thesis
      by (auto simp: Let_def split: prod.splits)
  next
    case (CountCall rid)
    with read_call_right(1) [OF ok t] Calling step show ?thesis by auto
  next
    case (GetCall rid)
    with read_call_right(2) [OF ok t] Calling step show ?thesis by (auto split: if_splits)
  qed
next
  case (CreateHolds c info)
  with create_holds_right [OF ok t] step show ?thesis by auto
next
  case (JoinHolds c room)
  then obtain rid a where c: "c = JoinCall rid a"
    using tasks_okD(2) [OF ok t] by auto
  with join_holds_right [OF ok t] JoinHolds step show ?thesis
    by (auto simp: Let_def split: prod.splits)
next
  case (Answered c ans)
  with step show ?thesis by simp
qed

lemma task_step_right:
  assumes "tasks_ok mesh s" "task_step t s = Some s'"
  shows "t < length (rt_phases s)" "\<exists>m ph. s' = \<lparr>rt_manager = m, rt_phases = (rt_phases s)[t := ph]\<rparr>
    \<and> step_right mesh s t m ph"
proof -
  from assms(2) show t: "t < length (rt_phases s)"
    by (simp add: task_step_def split: if_splits)
  with assms(2) obtain m ph where
    "phase_step (may_write s) (may_read s) (rt_manager s) (rt_phases s ! t) = Some (m, ph)"
    "s' = \<lparr>rt_manager = m, rt_phases = (rt_phases s)[t := ph]\<rparr>"
    by (auto simp: task_step_def split: option.splits)
  with phase_step_right [OF assms(1) t] show "\<exists>m ph. s' = \<lparr>rt_manager = m,
      rt_phases = (rt_phases s)[t := ph]\<rparr> \<and> step_right mesh s t m ph"
    by blast
qed

lemma tasks_ok_call:
  assumes "tasks_ok mesh s"
  shows "tasks_ok mesh (s\<lparr>rt_phases := rt_phases s @ [Calling c]\<rparr>)"
proof -
  let ?phs = "rt_phases s @ [Calling c]"
  have nth: "?phs ! t = (if t < length (rt_phases s) then rt_phases s ! t else Calling c)"
    if "t < length ?phs" for t
    using that by (auto simp: nth_append less_Suc_eq)
  have pending: "\<exists>t<length ?phs. \<exists>c' info. ?phs ! t = CreateHolds c' info \<and> ri_room_id info = rid"
    if "hm_get (rm_rooms (rt_manager s)) rid \<noteq> None" "hm_get (rm_members (rt_manager s)) rid = None" for rid
    using tasks_okD(5) [OF assms that] by (auto simp: nth_append intro: less_SucI)
  have "phase_ok (rt_manager s) (?phs ! t)" if "t < length ?phs" for t
    using tasks_okD(2) [OF assms] by (simp add: nth [OF that])
  moreover have "\<not> holds_write (?phs ! u) \<and> \<not> holds_read (?phs ! u)"
    if "t < length ?phs" "holds_write (?phs ! t)" "u < length ?phs" "u \<noteq> t" for t u
    using tasks_okD(3) [OF assms, of t u] that(2,4) by (simp add: nth [OF that(1)] nth [OF that(3)] split: if_splits)
  ultimately show ?thesis
    using tasks_okD(1,4) [OF assms] pending unfolding tasks_ok_def Let_def by simp
qed

lemma tasks_reachable_ok: "tasks_reachable mesh s \<Longrightarrow> tasks_ok mesh s"
proof (induction rule: tasks_reachable.induct)
  case rt_start
  show ?case by (simp add: tasks_ok_def room_manager_new_def)
next
  case (rt_call s c)
  from rt_call.IH show ?case by (rule tasks_ok_call)
next
  case (rt_step s t s')
  from task_step_right(2) [OF rt_step.IH rt_step.hyps(2)] show ?case
    by (auto simp: step_right_def)
qed

section \<open>Progress\<close>

text \<open>The steps a call has left.\<close>
fun phase_work :: "room_phase \<Rightarrow> nat" where
  "phase_work (Calling _) = 2"
| "phase_work (CreateHolds _ _) = 1"
| "phase_work (JoinHolds _ _) = 1"
| "phase_work (Answered _ _) = 0"

definition tasks_work :: "room_tasks \<Rightarrow> nat" where
  "tasks_work s = sum_list (map phase_work (rt_phases s))"

lemma phase_step_work:
  "phase_step wr rd m ph = Some (m', ph') \<Longrightarrow> phase_work ph' < phase_work ph"
  by (induction wr rd m ph rule: phase_step.induct)
    (auto simp: Let_def split: if_splits option.splits prod.splits)

lemma sum_list_update_less:
  "t < length xs \<Longrightarrow> f y < f (xs ! t) \<Longrightarrow> sum_list (map f (xs[t := y])) < (sum_list (map f xs) :: nat)"
  by (induction xs arbitrary: t) (auto split: nat.splits)

lemma task_step_work:
  assumes "task_step t s = Some s'"
  shows "tasks_work s' < tasks_work s"
  using assms phase_step_work
  by (auto simp: task_step_def tasks_work_def split: if_splits option.splits intro!: sum_list_update_less)

lemma holder_steps:
  assumes "tasks_ok mesh s" "t < length (rt_phases s)"
    and "holds_write (rt_phases s ! t) \<or> holds_read (rt_phases s ! t)"
  shows "task_step t s \<noteq> None"
  using assms(2,3) tasks_okD(2) [OF assms(1,2)]
  by (cases "rt_phases s ! t") (auto simp: task_step_def split: prod.splits)

lemma caller_steps:
  assumes "may_write s" "t < length (rt_phases s)" "rt_phases s ! t = Calling c"
  shows "task_step t s \<noteq> None"
proof -
  have "may_read s"
    using assms(1) by (simp add: may_write_def may_read_def list_all_iff)
  with assms show ?thesis
    by (cases c) (auto simp: task_step_def split: option.splits prod.splits)
qed

definition all_answered :: "room_tasks \<Rightarrow> bool" where
  "all_answered s \<longleftrightarrow> list_all (\<lambda>ph. phase_work ph = 0) (rt_phases s)"

lemma not_stuck:
  assumes "tasks_ok mesh s" "\<not> all_answered s"
  shows "\<exists>t. task_step t s \<noteq> None"
proof (cases "may_write s")
  case True
  obtain t where t: "t < length (rt_phases s)" "phase_work (rt_phases s ! t) \<noteq> 0"
    using assms(2) by (auto simp: all_answered_def list_all_length)
  then obtain c where "rt_phases s ! t = Calling c"
    using True by (cases "rt_phases s ! t") (auto simp: may_write_def list_all_length)
  then show ?thesis
    using caller_steps [OF True t(1)] by blast
next
  case False
  then obtain t where "t < length (rt_phases s)"
      "holds_write (rt_phases s ! t) \<or> holds_read (rt_phases s ! t)"
    by (auto simp: may_write_def list_all_length)
  then show ?thesis
    using holder_steps [OF assms(1)] by blast
qed

text \<open>A schedule is the list of the tasks that step; a task that has to wait is passed over.\<close>
definition run_tasks :: "nat list \<Rightarrow> room_tasks \<Rightarrow> room_tasks" where
  "run_tasks sched s = fold (\<lambda>t s. case task_step t s of None \<Rightarrow> s | Some s' \<Rightarrow> s') sched s"

lemma completable:
  assumes "tasks_ok mesh s"
  shows "\<exists>sched. length sched \<le> tasks_work s \<and> all_answered (run_tasks sched s)"
  using assms
proof (induction "tasks_work s" arbitrary: s rule: less_induct)
  case less
  show ?case
  proof (cases "all_answered s")
    case True
    then show ?thesis by (intro exI [of _ "[]"]) (simp add: run_tasks_def)
  next
    case False
    then obtain t s' where st: "task_step t s = Some s'"
      using not_stuck [OF less.prems] by blast
    have "tasks_ok mesh s'"
      using task_step_right(2) [OF less.prems st] by (auto simp: step_right_def)
    from less.hyps [OF task_step_work [OF st] this] obtain sched where
      "length sched \<le> tasks_work s'" "all_answered (run_tasks sched s')" by blast
    with st task_step_work [OF st] show ?thesis
      by (intro exI [of _ "t # sched"]) (simp add: run_tasks_def)
  qed
qed

section \<open>Properties\<close>

text \<open>
  C5: Concurrent calls of the room manager are linearizable. Whatever calls run at once and however
  their steps are scheduled, the step at which a call answers does to the abstract rooms, and
  answers, exactly what the call does in one go; every other step leaves them as they are, and no
  step touches another call. (Between its two locks \<open>create_room\<close> has written the room but not its
  members; nobody can tell.)
\<close>
theorem room_calls_linearizable:
  assumes "tasks_reachable mesh s" and "task_step t s = Some s'"
  shows "(case rt_phases s' ! t of
            Answered c ans \<Rightarrow>
              (room_abs (rt_manager s'), ans) = room_spec mesh c (room_abs (rt_manager s))
          | _ \<Rightarrow> room_abs (rt_manager s') = room_abs (rt_manager s))
     \<and> rt_phases s' = (rt_phases s)[t := rt_phases s' ! t]"
proof -
  note ok = tasks_reachable_ok [OF assms(1)]
  obtain m ph where s': "s' = \<lparr>rt_manager = m, rt_phases = (rt_phases s)[t := ph]\<rparr>"
    and right: "step_right mesh s t m ph"
    using task_step_right(2) [OF ok assms(2)] by blast
  moreover have "rt_phases s' ! t = ph"
    using task_step_right(1) [OF ok assms(2)] by (simp add: s')
  ultimately show ?thesis
    unfolding step_right_def by (cases ph) simp_all
qed

text \<open>
  C13: Concurrent calls of the room manager do not deadlock. In every reachable state a call that holds
  the rooms lock can take its next step, and when none holds it every waiting call can; every
  step brings its call closer to its answer, so the calls made so far all answer after at most two
  steps each.
\<close>
theorem room_calls_complete:
  assumes "tasks_reachable mesh s"
  shows "(\<exists>sched. length sched \<le> 2 * length (rt_phases s) \<and> all_answered (run_tasks sched s))
     \<and> (all_answered s \<or> (\<exists>t. task_step t s \<noteq> None))
     \<and> (t < length (rt_phases s) \<and> (holds_write (rt_phases s ! t) \<or> holds_read (rt_phases s ! t))
          \<longrightarrow> task_step t s \<noteq> None)
     \<and> (t < length (rt_phases s) \<and> may_write s \<and> rt_phases s ! t = Calling c \<longrightarrow> task_step t s \<noteq> None)"
proof -
  note ok = tasks_reachable_ok [OF assms(1)]
  have "tasks_work s \<le> 2 * length (rt_phases s)"
  proof -
    have "sum_list (map phase_work phs) \<le> 2 * length phs" for phs
    proof (induction phs)
      case (Cons ph phs)
      then show ?case by (cases ph) auto
    qed simp
    then show ?thesis by (simp add: tasks_work_def)
  qed
  then have "\<exists>sched. length sched \<le> 2 * length (rt_phases s) \<and> all_answered (run_tasks sched s)"
    using completable [OF ok] by (meson le_trans)
  then show ?thesis
    using not_stuck [OF ok] holder_steps [OF ok] caller_steps by blast
qed

text \<open>Two agents join a room for one while it is being created by a third call.\<close>
definition demo_calls :: "room_call list" where
  "demo_calls = [CreateCall ''room:r'' ''R'' (Some 1) 0, JoinCall ''room:r'' ''agent:alice'',
     JoinCall ''room:r'' ''agent:bob'']"

definition demo_tasks :: room_tasks where
  "demo_tasks = \<lparr>rt_manager = room_manager_new ''mesh:a'', rt_phases = map Calling demo_calls\<rparr>"

lemma demo_tasks_reachable: "tasks_reachable ''mesh:a'' demo_tasks"
  using rt_call [OF rt_call [OF rt_call [OF rt_start]]]
  by (force simp: demo_tasks_def demo_calls_def)

text \<open>The creating call has taken its first step: the room is written, and not yet visible.\<close>
theorem room_calls_linearizable_witness:
  "hm_get (rm_rooms (rt_manager (the (task_step 0 demo_tasks)))) ''room:r'' \<noteq> None
   \<and> room_abs (rt_manager (the (task_step 0 demo_tasks))) = room_abs (rt_manager demo_tasks)"
proof -
  have step: "task_step 0 demo_tasks = Some (the (task_step 0 demo_tasks))"
    by (simp add: task_step_def demo_tasks_def demo_calls_def may_write_def create_begin_cases
        room_manager_new_def)
  have "rt_phases (the (task_step 0 demo_tasks)) ! 0 = CreateHolds (hd demo_calls)
      \<lparr>ri_room_id = ''room:r'', ri_mesh_id = ''mesh:a'', ri_name = ''R'', ri_created_at = 0,
       ri_max_members = Some 1\<rparr>"
    by (simp add: task_step_def demo_tasks_def demo_calls_def may_write_def create_begin_cases
        room_manager_new_def)
  then have "room_abs (rt_manager (the (task_step 0 demo_tasks))) = room_abs (rt_manager demo_tasks)"
    using room_calls_linearizable [OF demo_tasks_reachable step] by simp
  then show ?thesis
    by (simp add: task_step_def demo_tasks_def demo_calls_def may_write_def create_begin_cases
        room_manager_new_def)
qed

theorem room_calls_complete_witness:
  "\<exists>sched. length sched \<le> 6 \<and> all_answered (run_tasks sched demo_tasks)"
  using room_calls_complete [OF demo_tasks_reachable, THEN conjunct1]
  by (simp add: demo_tasks_def demo_calls_def)

end
