(* ===== verification/Matchmaking.thy ===== *)
theory Matchmaking
  imports Complex_Main Hash_Map Events
begin

text \<open>
  Match requests, schedule slots and offers (\<open>Matchmaker\<close> of \<open>p2p/src/matchmaking.rs\<close>): three
  independent keyed stores. An id made by \<open>Uuid::new_v4\<close> is an argument of the operation that makes
  it, as is every reading of the clock. A skill bound is an \<open>f64\<close>: a real number (kept as a
  rational), an infinity or \<open>NaN\<close>, with the IEEE comparison, under which \<open>NaN\<close> is below nothing.
\<close>

section \<open>Data\<close>

datatype f64 = NaN | NegInf | Finite rat | PosInf

fun f64_le :: "f64 \<Rightarrow> f64 \<Rightarrow> bool" where
  "f64_le NaN _ = False"
| "f64_le _ NaN = False"
| "f64_le NegInf _ = True"
| "f64_le _ PosInf = True"
| "f64_le (Finite x) (Finite y) = (x \<le> y)"
| "f64_le _ _ = False"

datatype match_error =
    RequestNotFound string
  | OfferNotFound string
  | ScheduleNotFound string
  | OfferExpired
  | NoMatchFound

fun match_error_msg :: "match_error \<Rightarrow> string" where
  "match_error_msg (RequestNotFound r) = ''request not found: '' @ r"
| "match_error_msg (OfferNotFound r) = ''offer not found: '' @ r"
| "match_error_msg (ScheduleNotFound r) = ''schedule not found: '' @ r"
| "match_error_msg OfferExpired = ''offer expired''"
| "match_error_msg NoMatchFound = ''no matching peers found''"

record skill_range =
  skr_min :: f64
  skr_max :: f64

record time_window =
  tw_start :: timestamp
  tw_end :: timestamp

record match_request =
  mr_request_id :: string
  mr_agent_id :: string
  mr_mesh_id :: string
  mr_game :: string
  mr_skill_range :: skill_range
  mr_time_window :: time_window
  mr_created_at :: timestamp

datatype slot_state = Proposed | SlotConfirmed | SlotDeclined

record schedule_slot =
  sl_schedule_id :: string
  sl_agent_id :: string
  sl_mesh_id :: string
  sl_slot_start :: timestamp
  sl_slot_end :: timestamp
  sl_state :: slot_state
  sl_created_at :: timestamp

record peer_offer =
  po_offer_id :: string
  po_from_agent :: string
  po_mesh_id :: string
  po_summary :: string
  po_expires_at :: timestamp
  po_created_at :: timestamp

record matchmaker =
  mm_mesh_id :: string
  mm_requests :: "(string, match_request) hash_map"
  mm_schedules :: "(string, schedule_slot) hash_map"
  mm_offers :: "(string, peer_offer) hash_map"

section \<open>Operations\<close>

definition matchmaker_new :: "string \<Rightarrow> matchmaker" where
  "matchmaker_new mesh_id =
     \<lparr>mm_mesh_id = mesh_id, mm_requests = hm_new, mm_schedules = hm_new, mm_offers = hm_new\<rparr>"

definition submit_request ::
    "matchmaker \<Rightarrow> string \<Rightarrow> string \<Rightarrow> skill_range \<Rightarrow> time_window \<Rightarrow> string \<Rightarrow> timestamp
      \<Rightarrow> matchmaker \<times> event list \<times> match_request" where
  "submit_request self agent_id game skill_range time_window uuid now =
     (let request = \<lparr>mr_request_id = uuid, mr_agent_id = agent_id, mr_mesh_id = mm_mesh_id self,
                     mr_game = game, mr_skill_range = skill_range, mr_time_window = time_window,
                     mr_created_at = now\<rparr>
      in (self\<lparr>mm_requests := hm_insert uuid request (mm_requests self)\<rparr>,
          [PatchReady (mm_mesh_id self) (agent_id @ '' submitted match request for '' @ game)],
          request))"

definition ranges_overlap :: "skill_range \<Rightarrow> skill_range \<Rightarrow> bool" where
  "ranges_overlap a b \<longleftrightarrow> f64_le (skr_min a) (skr_max b) \<and> f64_le (skr_min b) (skr_max a)"

definition windows_overlap :: "time_window \<Rightarrow> time_window \<Rightarrow> bool" where
  "windows_overlap a b \<longleftrightarrow> tw_start a < tw_end b \<and> tw_start b < tw_end a"

definition compatible :: "match_request \<Rightarrow> match_request \<Rightarrow> bool" where
  "compatible target r \<longleftrightarrow>
     mr_request_id r \<noteq> mr_request_id target
     \<and> mr_game r = mr_game target
     \<and> ranges_overlap (mr_skill_range r) (mr_skill_range target)
     \<and> windows_overlap (mr_time_window r) (mr_time_window target)"

definition find_matches ::
    "matchmaker \<Rightarrow> string \<Rightarrow> (match_error, match_request list) result" where
  "find_matches self request_id =
     (case hm_get (mm_requests self) request_id of
        None \<Rightarrow> Err (RequestNotFound request_id)
      | Some target \<Rightarrow> Ok (filter (compatible target) (hm_values (mm_requests self))))"

definition cancel_request ::
    "matchmaker \<Rightarrow> string \<Rightarrow> matchmaker \<times> (match_error, match_request) result" where
  "cancel_request self request_id =
     (self\<lparr>mm_requests := hm_remove request_id (mm_requests self)\<rparr>,
      ok_or (hm_get (mm_requests self) request_id) (RequestNotFound request_id))"

definition list_requests :: "matchmaker \<Rightarrow> match_request list" where
  "list_requests self = hm_values (mm_requests self)"

definition requests_for_game :: "matchmaker \<Rightarrow> string \<Rightarrow> match_request list" where
  "requests_for_game self game = filter (\<lambda>r. mr_game r = game) (hm_values (mm_requests self))"

definition propose_slot ::
    "matchmaker \<Rightarrow> string \<Rightarrow> timestamp \<Rightarrow> timestamp \<Rightarrow> string \<Rightarrow> timestamp
      \<Rightarrow> matchmaker \<times> event list \<times> schedule_slot" where
  "propose_slot self agent_id slot_start slot_end uuid now =
     (let slot = \<lparr>sl_schedule_id = uuid, sl_agent_id = agent_id, sl_mesh_id = mm_mesh_id self,
                  sl_slot_start = slot_start, sl_slot_end = slot_end, sl_state = Proposed,
                  sl_created_at = now\<rparr>
      in (self\<lparr>mm_schedules := hm_insert uuid slot (mm_schedules self)\<rparr>,
          [PatchReady (mm_mesh_id self) (agent_id @ '' proposed schedule slot'')],
          slot))"

definition confirm_slot ::
    "matchmaker \<Rightarrow> string \<Rightarrow> matchmaker \<times> event list \<times> (match_error, schedule_slot) result" where
  "confirm_slot self schedule_id =
     (case hm_get (mm_schedules self) schedule_id of
        None \<Rightarrow> (self, [], Err (ScheduleNotFound schedule_id))
      | Some slot \<Rightarrow>
          (let result = slot\<lparr>sl_state := SlotConfirmed\<rparr>
           in (self\<lparr>mm_schedules := hm_insert schedule_id result (mm_schedules self)\<rparr>,
               [PatchReady (mm_mesh_id self) (''schedule '' @ schedule_id @ '' confirmed'')],
               Ok result)))"

definition decline_slot ::
    "matchmaker \<Rightarrow> string \<Rightarrow> matchmaker \<times> event list \<times> (match_error, schedule_slot) result" where
  "decline_slot self schedule_id =
     (case hm_get (mm_schedules self) schedule_id of
        None \<Rightarrow> (self, [], Err (ScheduleNotFound schedule_id))
      | Some slot \<Rightarrow>
          (let result = slot\<lparr>sl_state := SlotDeclined\<rparr>
           in (self\<lparr>mm_schedules := hm_insert schedule_id result (mm_schedules self)\<rparr>,
               [PatchReady (mm_mesh_id self) (''schedule '' @ schedule_id @ '' declined'')],
               Ok result)))"

definition get_slot :: "matchmaker \<Rightarrow> string \<Rightarrow> (match_error, schedule_slot) result" where
  "get_slot self schedule_id =
     ok_or (hm_get (mm_schedules self) schedule_id) (ScheduleNotFound schedule_id)"

definition list_schedules :: "matchmaker \<Rightarrow> schedule_slot list" where
  "list_schedules self = hm_values (mm_schedules self)"

definition slots_for_agent :: "matchmaker \<Rightarrow> string \<Rightarrow> schedule_slot list" where
  "slots_for_agent self agent_id =
     filter (\<lambda>s. sl_agent_id s = agent_id) (hm_values (mm_schedules self))"

definition submit_offer ::
    "matchmaker \<Rightarrow> string \<Rightarrow> string \<Rightarrow> string \<Rightarrow> timestamp \<Rightarrow> timestamp
      \<Rightarrow> matchmaker \<times> event list \<times> peer_offer" where
  "submit_offer self from_agent offer_id summary expires_at now =
     (let offer = \<lparr>po_offer_id = offer_id, po_from_agent = from_agent, po_mesh_id = mm_mesh_id self,
                   po_summary = summary, po_expires_at = expires_at, po_created_at = now\<rparr>
      in (self\<lparr>mm_offers := hm_insert offer_id offer (mm_offers self)\<rparr>,
          [PatchReady (mm_mesh_id self) (from_agent @ '' submitted offer '' @ offer_id)],
          offer))"

definition get_offer ::
    "matchmaker \<Rightarrow> string \<Rightarrow> timestamp \<Rightarrow> (match_error, peer_offer) result" where
  "get_offer self offer_id now =
     (case hm_get (mm_offers self) offer_id of
        None \<Rightarrow> Err (OfferNotFound offer_id)
      | Some offer \<Rightarrow> if po_expires_at offer < now then Err OfferExpired else Ok offer)"

definition active_offers :: "matchmaker \<Rightarrow> timestamp \<Rightarrow> peer_offer list" where
  "active_offers self now = filter (\<lambda>o'. now \<le> po_expires_at o') (hm_values (mm_offers self))"

definition withdraw_offer ::
    "matchmaker \<Rightarrow> string \<Rightarrow> matchmaker \<times> (match_error, peer_offer) result" where
  "withdraw_offer self offer_id =
     (self\<lparr>mm_offers := hm_remove offer_id (mm_offers self)\<rparr>,
      ok_or (hm_get (mm_offers self) offer_id) (OfferNotFound offer_id))"

definition purge_expired :: "matchmaker \<Rightarrow> timestamp \<Rightarrow> matchmaker" where
  "purge_expired self now =
     self\<lparr>mm_requests := hm_retain (\<lambda>_ r. now \<le> tw_end (mr_time_window r)) (mm_requests self),
          mm_offers := hm_retain (\<lambda>_ o'. now \<le> po_expires_at o') (mm_offers self)\<rparr>"

section \<open>Three keyed stores\<close>

text \<open>
  Each store is a keyed store for the operations that insert and remove; a request is the tuple of
  the arguments.
\<close>

interpretation offers: keyed_store "\<lambda>m. hm_get (mm_offers m)" po_offer_id "\<lambda>p. p"
    "\<lambda>p m. m\<lparr>mm_offers := hm_insert (po_offer_id p) p (mm_offers m)\<rparr>"
    "\<lambda>k m. fst (withdraw_offer m k)"
  by unfold_locales (simp_all add: withdraw_offer_def)

interpretation requests: keyed_store "\<lambda>m. hm_get (mm_requests m)" mr_request_id "\<lambda>p. p"
    "\<lambda>p m. m\<lparr>mm_requests := hm_insert (mr_request_id p) p (mm_requests m)\<rparr>"
    "\<lambda>k m. fst (cancel_request m k)"
  by unfold_locales (simp_all add: cancel_request_def)

lemma submit_offer_put:
  "fst (submit_offer m a k s e now) =
     m\<lparr>mm_offers := hm_insert k (snd (snd (submit_offer m a k s e now))) (mm_offers m)\<rparr>"
  by (simp add: submit_offer_def Let_def)

section \<open>Reachable matchmakers\<close>

inductive match_step :: "matchmaker \<Rightarrow> matchmaker \<Rightarrow> bool" where
  m_submit: "match_step m (fst (submit_request m a g r w i now))"
| m_cancel: "match_step m (fst (cancel_request m i))"
| m_propose: "match_step m (fst (propose_slot m a s e i now))"
| m_confirm: "match_step m (fst (confirm_slot m i))"
| m_decline: "match_step m (fst (decline_slot m i))"
| m_offer: "match_step m (fst (submit_offer m a k s e now))"
| m_withdraw: "match_step m (fst (withdraw_offer m k))"
| m_purge: "match_step m (purge_expired m now)"

inductive match_reachable :: "string \<Rightarrow> matchmaker \<Rightarrow> bool" for mesh where
  m_start: "match_reachable mesh (matchmaker_new mesh)"
| m_next: "match_reachable mesh m \<Longrightarrow> match_step m m' \<Longrightarrow> match_reachable mesh m'"

definition matchmaker_ok :: "matchmaker \<Rightarrow> bool" where
  "matchmaker_ok m \<longleftrightarrow>
     (\<forall>k r. hm_get (mm_requests m) k = Some r \<longrightarrow> mr_request_id r = k)
     \<and> (\<forall>k s. hm_get (mm_schedules m) k = Some s \<longrightarrow> sl_schedule_id s = k)
     \<and> (\<forall>k p. hm_get (mm_offers m) k = Some p \<longrightarrow> po_offer_id p = k)"

lemmas match_ops = submit_request_def cancel_request_def propose_slot_def confirm_slot_def
  decline_slot_def submit_offer_def withdraw_offer_def purge_expired_def

lemma matchmaker_ok_step: "match_step m m' \<Longrightarrow> matchmaker_ok m \<Longrightarrow> matchmaker_ok m'"
  by (induction rule: match_step.induct)
    (auto simp: matchmaker_ok_def match_ops Let_def split: option.splits if_splits)

lemma match_reachable_ok: "match_reachable mesh m \<Longrightarrow> matchmaker_ok m"
proof (induction rule: match_reachable.induct)
  case m_start
  show ?case by (simp add: matchmaker_ok_def matchmaker_new_def)
next
  case (m_next m m')
  then show ?case by (blast intro: matchmaker_ok_step)
qed

lemma ranges_overlap_sym: "ranges_overlap a b \<longleftrightarrow> ranges_overlap b a"
  by (auto simp: ranges_overlap_def)

lemma windows_overlap_sym: "windows_overlap a b \<longleftrightarrow> windows_overlap b a"
  by (auto simp: windows_overlap_def)

lemma compatible_sym: "compatible a b \<longleftrightarrow> compatible b a"
  using ranges_overlap_sym windows_overlap_sym by (auto simp: compatible_def)

lemma request_values:
  "matchmaker_ok m \<Longrightarrow>
     r \<in> set (hm_values (mm_requests m)) \<longleftrightarrow> hm_get (mm_requests m) (mr_request_id r) = Some r"
  by (auto simp: matchmaker_ok_def)

text \<open>Decisions on a slot: \<open>True\<close> confirms it, \<open>False\<close> declines it.\<close>
definition decide :: "string \<Rightarrow> bool \<Rightarrow> matchmaker \<Rightarrow> matchmaker" where
  "decide k yes m = (if yes then fst (confirm_slot m k) else fst (decline_slot m k))"

lemma decide_schedules:
  assumes "hm_get (mm_schedules m) k = Some s"
  shows "hm_get (mm_schedules (decide k yes m)) =
    (hm_get (mm_schedules m))(k \<mapsto> s\<lparr>sl_state := if yes then SlotConfirmed else SlotDeclined\<rparr>)"
  using assms by (simp add: decide_def confirm_slot_def decline_slot_def Let_def)

lemma decides_schedules:
  assumes "hm_get (mm_schedules m) k = Some s"
  shows "hm_get (mm_schedules (fold (decide k) ds m)) =
    (hm_get (mm_schedules m))(k \<mapsto> s\<lparr>sl_state :=
      if ds = [] then sl_state s else if last ds then SlotConfirmed else SlotDeclined\<rparr>)"
  using assms
proof (induction ds arbitrary: m s)
  case Nil
  then show ?case by (simp add: fun_upd_idem)
next
  case (Cons d ds)
  have "hm_get (mm_schedules (decide k d m)) k
      = Some (s\<lparr>sl_state := if d then SlotConfirmed else SlotDeclined\<rparr>)"
    by (simp add: decide_schedules [OF Cons.prems])
  from Cons.IH [OF this] show ?case
    by (cases "ds = []") (simp_all add: decide_schedules [OF Cons.prems] fun_eq_iff)
qed

section \<open>Properties\<close>

text \<open>What the doc comment of \<open>find_matches\<close> calls compatible: also from different agents.\<close>
definition documented_match :: "match_request \<Rightarrow> match_request \<Rightarrow> bool" where
  "documented_match t r \<longleftrightarrow>
     mr_game r = mr_game t \<and> ranges_overlap (mr_skill_range r) (mr_skill_range t)
     \<and> windows_overlap (mr_time_window r) (mr_time_window t) \<and> mr_agent_id r \<noteq> mr_agent_id t"

text \<open>
  C25: What \<open>find_matches\<close> finds. In every reachable matchmaker the matches of a pending request are the
  other pending requests for the same game whose skill range and time window overlap its own, each
  once. Those of other agents are exactly the ones its doc comment calls compatible; requests
  of the same agent, which the comment excludes, are found as well. Matching is symmetric: if one request finds
  another, it is found by it; and a request with a \<open>NaN\<close> skill bound matches nothing.
\<close>
theorem find_matches_exact:
  assumes "match_reachable mesh m" and "find_matches m i = Ok rs"
  shows "distinct rs
     \<and> (\<exists>t. hm_get (mm_requests m) i = Some t
        \<and> set rs = {r. hm_get (mm_requests m) (mr_request_id r) = Some r
              \<and> mr_request_id r \<noteq> i \<and> mr_game r = mr_game t
              \<and> f64_le (skr_min (mr_skill_range r)) (skr_max (mr_skill_range t))
              \<and> f64_le (skr_min (mr_skill_range t)) (skr_max (mr_skill_range r))
              \<and> tw_start (mr_time_window r) < tw_end (mr_time_window t)
              \<and> tw_start (mr_time_window t) < tw_end (mr_time_window r)}
        \<and> {r \<in> set rs. mr_agent_id r \<noteq> mr_agent_id t} =
            {r. hm_get (mm_requests m) (mr_request_id r) = Some r \<and> documented_match t r}
        \<and> (\<forall>r. r \<in> set rs \<longrightarrow> (\<exists>rs'. find_matches m (mr_request_id r) = Ok rs' \<and> t \<in> set rs'))
        \<and> (skr_min (mr_skill_range t) = NaN \<or> skr_max (mr_skill_range t) = NaN \<longrightarrow> rs = []))"
proof -
  note ok = match_reachable_ok [OF assms(1)]
  obtain t where t: "hm_get (mm_requests m) i = Some t"
    and rs: "rs = filter (compatible t) (hm_values (mm_requests m))"
    using assms(2) by (auto simp: find_matches_def split: option.splits)
  have id: "mr_request_id t = i"
    using ok t by (auto simp: matchmaker_ok_def)
  have "map mr_request_id (hm_values (mm_requests m)) = hm_keys (mm_requests m)"
    using ok by (auto simp: hm_values_def hm_keys_def matchmaker_ok_def simp flip: hm_entries_iff)
  then have "distinct (map mr_request_id (hm_values (mm_requests m)))"
    by simp
  then have "distinct rs"
    unfolding rs by (intro distinct_filter) (simp add: distinct_map)
  moreover have mem: "r \<in> set rs \<longleftrightarrow> hm_get (mm_requests m) (mr_request_id r) = Some r \<and> compatible t r"
    for r
    unfolding rs using request_values [OF ok, of r] by auto
  moreover have "{r \<in> set rs. mr_agent_id r \<noteq> mr_agent_id t} =
      {r. hm_get (mm_requests m) (mr_request_id r) = Some r \<and> documented_match t r}"
    unfolding mem using t id by (auto simp: compatible_def documented_match_def)
  moreover have "\<exists>rs'. find_matches m (mr_request_id r) = Ok rs' \<and> t \<in> set rs'" if "r \<in> set rs" for r
    using that t id compatible_sym [of t r] unfolding mem by (auto simp: find_matches_def)
  moreover have "skr_min (mr_skill_range t) = NaN \<or> skr_max (mr_skill_range t) = NaN \<Longrightarrow> rs = []"
  proof -
    assume nan: "skr_min (mr_skill_range t) = NaN \<or> skr_max (mr_skill_range t) = NaN"
    have "f64_le x NaN = False" for x by (cases x) auto
    with nan have "\<not> compatible t r" for r
      by (auto simp: compatible_def ranges_overlap_def)
    then show "rs = []" by (simp add: rs)
  qed
  moreover have "set rs = {r. hm_get (mm_requests m) (mr_request_id r) = Some r
              \<and> mr_request_id r \<noteq> i \<and> mr_game r = mr_game t
              \<and> f64_le (skr_min (mr_skill_range r)) (skr_max (mr_skill_range t))
              \<and> f64_le (skr_min (mr_skill_range t)) (skr_max (mr_skill_range r))
              \<and> tw_start (mr_time_window r) < tw_end (mr_time_window t)
              \<and> tw_start (mr_time_window t) < tw_end (mr_time_window r)}"
    unfolding set_eq_iff mem using id by (auto simp: compatible_def ranges_overlap_def windows_overlap_def)
  ultimately show ?thesis
    using t by blast
qed

definition demo_request :: "string \<Rightarrow> string \<Rightarrow> matchmaker \<Rightarrow> matchmaker" where
  "demo_request a i m = fst (submit_request m a ''chess'' \<lparr>skr_min = Finite 1000, skr_max = Finite 1500\<rparr>
     \<lparr>tw_start = 0, tw_end = 100\<rparr> i 0)"

definition demo_match :: matchmaker where
  "demo_match = demo_request ''agent:bob'' ''r2'' (demo_request ''agent:alice'' ''r1''
     (matchmaker_new ''mesh:a''))"

lemma demo_match_reachable: "match_reachable ''mesh:a'' demo_match"
  unfolding demo_match_def demo_request_def by (rule m_next [OF m_next [OF m_start m_submit] m_submit])

text \<open>Alice's first request finds Bob's, and her own second one.\<close>
theorem find_matches_exact_witness:
  "\<exists>rs. find_matches (demo_request ''agent:alice'' ''r3'' demo_match) ''r1'' = Ok rs \<and> distinct rs
     \<and> mr_agent_id ` set rs = {''agent:alice'', ''agent:bob''}"
proof -
  let ?m = "demo_request ''agent:alice'' ''r3'' demo_match"
  have reach: "match_reachable ''mesh:a'' ?m"
    using m_next [OF demo_match_reachable m_submit] by (simp add: demo_request_def)
  obtain rs where rs: "find_matches ?m ''r1'' = Ok rs"
    by (auto simp: find_matches_def demo_match_def demo_request_def submit_request_def
        matchmaker_new_def Let_def)
  define req where "req = (\<lambda>a i. \<lparr>mr_request_id = i, mr_agent_id = a, mr_mesh_id = ''mesh:a'', mr_game = ''chess'',
    mr_skill_range = \<lparr>skr_min = Finite 1000, skr_max = Finite 1500\<rparr>,
    mr_time_window = \<lparr>tw_start = 0, tw_end = 100\<rparr>, mr_created_at = 0\<rparr>)"
  have pending: "hm_get (mm_requests ?m) k = (if k = ''r3'' then Some (req ''agent:alice'' k)
      else if k = ''r2'' then Some (req ''agent:bob'' k) else if k = ''r1'' then Some (req ''agent:alice'' k) else None)" for k
    by (simp add: demo_match_def demo_request_def submit_request_def matchmaker_new_def req_def Let_def)
  have "mr_request_id (req x i) = i" for x i by (simp add: req_def)
  note exact = find_matches_exact [OF reach rs]
  have own: "hm_get (mm_requests ?m) ''r1'' = Some (req ''agent:alice'' ''r1'')"
    by (simp add: pending)
  have "r = req ''agent:bob'' ''r2'' \<or> r = req ''agent:alice'' ''r3''" if "r \<in> set rs" for r
  proof -
    have "hm_get (mm_requests ?m) (mr_request_id r) = Some r" "mr_request_id r \<noteq> ''r1''"
      using exact that by blast+
    then show ?thesis
      unfolding pending by (metis option.sel option.distinct(1))
  qed
  moreover have "req ''agent:bob'' ''r2'' \<in> set rs" "req ''agent:alice'' ''r3'' \<in> set rs"
    using exact own by (simp_all add: pending req_def)
  ultimately have "set rs = {req ''agent:bob'' ''r2'', req ''agent:alice'' ''r3''}"
    by blast
  then have "mr_agent_id ` set rs = {''agent:alice'', ''agent:bob''}"
    by (auto simp: req_def)
  moreover have "distinct rs"
    using find_matches_exact [OF reach rs] by blast
  ultimately show ?thesis
    using rs by blast
qed

text \<open>
  An agent can be matched with itself. Two pending requests that one agent has submitted for the
  same game and the same non-empty range and window are each listed among the other's matches,
  although only requests from different agents are documented to be compatible.
\<close>
theorem agent_matched_with_itself:
  assumes "i \<noteq> j" and "f64_le (skr_min sr) (skr_max sr)" and "tw_start window < tw_end window"
    and "submit_request m a game sr window i now = (m1, ev1, r1)"
    and "submit_request m1 a game sr window j now' = (m2, ev2, r2)"
  shows "\<exists>rs. find_matches m2 i = Ok rs \<and> r2 \<in> set rs \<and> mr_agent_id r2 = a \<and> mr_agent_id r1 = a"
proof -
  have "hm_get (mm_requests m2) i = Some r1" "hm_get (mm_requests m2) j = Some r2"
    using assms(1,4,5) by (auto simp: submit_request_def Let_def)
  moreover have "compatible r1 r2" "mr_agent_id r2 = a" "mr_agent_id r1 = a"
    using assms by (auto simp: submit_request_def Let_def compatible_def ranges_overlap_def
        windows_overlap_def)
  ultimately show ?thesis
    by (auto simp: find_matches_def)
qed

theorem agent_matched_with_itself_witness:
  "\<exists>rs r. find_matches (demo_request ''agent:bob'' ''r2'' (demo_request ''agent:bob'' ''r1''
      (matchmaker_new ''mesh:a''))) ''r1'' = Ok rs \<and> r \<in> set rs \<and> mr_agent_id r = ''agent:bob''"
proof -
  obtain m1 ev1 r1 where 1: "submit_request (matchmaker_new ''mesh:a'') ''agent:bob'' ''chess''
      \<lparr>skr_min = Finite 1000, skr_max = Finite 1500\<rparr> \<lparr>tw_start = 0, tw_end = 100\<rparr> ''r1'' 0 = (m1, ev1, r1)"
    by (metis prod_cases3)
  obtain m2 ev2 r2 where 2: "submit_request m1 ''agent:bob'' ''chess''
      \<lparr>skr_min = Finite 1000, skr_max = Finite 1500\<rparr> \<lparr>tw_start = 0, tw_end = 100\<rparr> ''r2'' 0 = (m2, ev2, r2)"
    by (metis prod_cases3)
  from agent_matched_with_itself [OF _ _ _ 1 2] 1 2 show ?thesis
    by (auto simp: demo_request_def)
qed

text \<open>
  Offers expire consistently. At any time the active offers are exactly those \<open>get_offer\<close>
  returns; purging changes neither then nor at any later time, it only turns the error for an
  expired offer from \<open>OfferExpired\<close> into \<open>OfferNotFound\<close>; it drops the requests whose window has
  ended, no others, and no schedule slot.
\<close>
theorem purge_invisible_for_offers:
  assumes "match_reachable mesh m" and "now \<le> now'"
  shows "set (active_offers m now) = {p. get_offer m (po_offer_id p) now = Ok p}
     \<and> set (active_offers (purge_expired m now) now') = set (active_offers m now')
     \<and> get_offer (purge_expired m now) k now' =
         (case hm_get (mm_offers m) k of
            None \<Rightarrow> Err (OfferNotFound k)
          | Some p \<Rightarrow> if po_expires_at p < now then Err (OfferNotFound k) else get_offer m k now')
     \<and> set (list_requests (purge_expired m now)) =
         {r \<in> set (list_requests m). now \<le> tw_end (mr_time_window r)}
     \<and> mm_schedules (purge_expired m now) = mm_schedules m"
proof -
  note ok = match_reachable_ok [OF assms(1)]
  have "p \<in> set (active_offers m now) \<longleftrightarrow> get_offer m (po_offer_id p) now = Ok p" for p
    using ok by (auto simp: active_offers_def get_offer_def matchmaker_ok_def split: option.splits)
  moreover have "p \<in> set (active_offers (purge_expired m now) now') \<longleftrightarrow> p \<in> set (active_offers m now')" for p
    using assms(2) by (auto simp: active_offers_def purge_expired_def split: option.splits)
  moreover have "r \<in> set (list_requests (purge_expired m now)) \<longleftrightarrow>
      r \<in> set (list_requests m) \<and> now \<le> tw_end (mr_time_window r)" for r
    by (auto simp: list_requests_def purge_expired_def split: option.splits)
  moreover have "get_offer (purge_expired m now) k now' =
      (case hm_get (mm_offers m) k of
         None \<Rightarrow> Err (OfferNotFound k)
       | Some p \<Rightarrow> if po_expires_at p < now then Err (OfferNotFound k) else get_offer m k now')"
    by (auto simp: get_offer_def purge_expired_def split: option.splits)
  ultimately show ?thesis
    by (auto simp: purge_expired_def)
qed

theorem purge_invisible_for_offers_witness:
  "get_offer (purge_expired (fst (submit_offer (matchmaker_new ''mesh:a'') ''agent:alice'' ''o1''
      ''s'' 50 0)) 60) ''o1'' 70 = Err (OfferNotFound ''o1'')"
proof -
  have "match_reachable ''mesh:a''
      (fst (submit_offer (matchmaker_new ''mesh:a'') ''agent:alice'' ''o1'' ''s'' 50 0))"
    by (rule m_next [OF m_start m_offer])
  from purge_invisible_for_offers [OF this, of 60 70 "''o1''"] show ?thesis
    by (simp add: submit_offer_def Let_def matchmaker_new_def)
qed

text \<open>
  The last decision on a schedule slot wins. Confirming and declining are accepted in any state,
  so after any sequence of decisions on a known slot its state is the last decision, also when that
  confirms a slot already declined; its agent and its times, and every other slot, are untouched.
\<close>
theorem last_slot_decision_wins:
  assumes "get_slot m k = Ok s" and "ds \<noteq> []"
  shows "get_slot (fold (decide k) ds m) k =
       Ok (s\<lparr>sl_state := if last ds then SlotConfirmed else SlotDeclined\<rparr>)
     \<and> (k' \<noteq> k \<longrightarrow> get_slot (fold (decide k) ds m) k' = get_slot m k')"
  using assms by (simp add: get_slot_def decides_schedules)

theorem last_slot_decision_wins_witness:
  "map_ok sl_state (get_slot (fold (decide ''s1'') [False, True]
      (fst (propose_slot (matchmaker_new ''mesh:a'') ''agent:alice'' 10 20 ''s1'' 0))) ''s1'')
   = Ok SlotConfirmed"
proof -
  let ?m = "fst (propose_slot (matchmaker_new ''mesh:a'') ''agent:alice'' 10 20 ''s1'' 0)"
  obtain s where "get_slot ?m ''s1'' = Ok s"
    by (simp add: get_slot_def propose_slot_def Let_def)
  from last_slot_decision_wins [OF this, of "[False, True]"] show ?thesis by simp
qed

end
