(* ===== verification/Matchmaking_Lives.thy ===== *)
theory Matchmaking_Lives
  imports Matchmaking
begin

text \<open>
  What a matchmaker holds, told by its history: the operations called on it, each with the reading of
  the clock it made. An item lives from the operation that puts it until one that puts another under
  its id or ends it; the queries of \<open>Matchmaker\<close> return exactly the items that live.
\<close>

section \<open>Histories\<close>

datatype match_op =
    SubmitRequest string string skill_range time_window string  \<comment> \<open>agent, game, range, window, id\<close>
  | CancelRequest string
  | ProposeSlot string timestamp timestamp string               \<comment> \<open>agent, start, end, id\<close>
  | DecideSlot string bool                                      \<comment> \<open>id, confirmed or declined\<close>
  | SubmitOffer string string string timestamp                  \<comment> \<open>agent, id, summary, expiry\<close>
  | WithdrawOffer string
  | PurgeExpired

fun match_apply :: "timestamp \<times> match_op \<Rightarrow> matchmaker \<Rightarrow> matchmaker" where
  "match_apply (now, SubmitRequest a g r w i) m = fst (submit_request m a g r w i now)"
| "match_apply (now, CancelRequest i) m = fst (cancel_request m i)"
| "match_apply (now, ProposeSlot a s e i) m = fst (propose_slot m a s e i now)"
| "match_apply (now, DecideSlot i yes) m = decide i yes m"
| "match_apply (now, SubmitOffer a k s e) m = fst (submit_offer m a k s e now)"
| "match_apply (now, WithdrawOffer k) m = fst (withdraw_offer m k)"
| "match_apply (now, PurgeExpired) m = purge_expired m now"

definition match_run :: "string \<Rightarrow> (timestamp \<times> match_op) list \<Rightarrow> matchmaker" where
  "match_run mesh hist = fold match_apply hist (matchmaker_new mesh)"

text \<open>
  \<open>lives puts ends hist v since\<close>: some operation of the history put the item \<open>v\<close>, and of the ones
  \<open>since\<close> then none put another item in its place or ended it.
\<close>
definition lives ::
    "('o \<Rightarrow> 'v option) \<Rightarrow> ('v \<Rightarrow> 'o \<Rightarrow> bool) \<Rightarrow> 'o list \<Rightarrow> 'v \<Rightarrow> 'o list \<Rightarrow> bool" where
  "lives puts ends hist v since \<longleftrightarrow>
     (\<exists>before x. hist = before @ x # since \<and> puts x = Some v \<and> (\<forall>y\<in>set since. puts y = None \<and> \<not> ends v y))"

lemma lives_Nil [simp]: "\<not> lives puts ends [] v since"
  by (simp add: lives_def)

lemma lives_snoc:
  "lives puts ends (hist @ [y]) v since \<longleftrightarrow>
     (case puts y of
        Some w \<Rightarrow> v = w \<and> since = []
      | None \<Rightarrow> \<not> ends v y \<and> (\<exists>since'. since = since' @ [y] \<and> lives puts ends hist v since'))"
  (is "?l \<longleftrightarrow> ?r")
proof
  assume ?l
  then obtain pre x where h: "hist @ [y] = pre @ x # since" "puts x = Some v"
    "\<forall>y\<in>set since. puts y = None \<and> \<not> ends v y"
    by (auto simp: lives_def)
  then show ?r
    by (cases since rule: rev_cases) (auto simp: lives_def)
next
  assume ?r
  then show ?l
    by (fastforce simp: lives_def split: option.splits)
qed

fun puts_offer :: "string \<Rightarrow> string \<Rightarrow> timestamp \<times> match_op \<Rightarrow> peer_offer option" where
  "puts_offer mesh k (now, SubmitOffer a k' s e) =
     (if k' = k then Some \<lparr>po_offer_id = k, po_from_agent = a, po_mesh_id = mesh, po_summary = s,
        po_expires_at = e, po_created_at = now\<rparr> else None)"
| "puts_offer mesh k _ = None"

fun puts_request :: "string \<Rightarrow> string \<Rightarrow> timestamp \<times> match_op \<Rightarrow> match_request option" where
  "puts_request mesh i (now, SubmitRequest a g r w i') =
     (if i' = i then Some \<lparr>mr_request_id = i, mr_agent_id = a, mr_mesh_id = mesh, mr_game = g,
        mr_skill_range = r, mr_time_window = w, mr_created_at = now\<rparr> else None)"
| "puts_request mesh i _ = None"

fun puts_slot :: "string \<Rightarrow> string \<Rightarrow> timestamp \<times> match_op \<Rightarrow> schedule_slot option" where
  "puts_slot mesh i (now, ProposeSlot a s e i') =
     (if i' = i then Some \<lparr>sl_schedule_id = i, sl_agent_id = a, sl_mesh_id = mesh, sl_slot_start = s,
        sl_slot_end = e, sl_state = Proposed, sl_created_at = now\<rparr> else None)"
| "puts_slot mesh i _ = None"

definition ends_offer :: "string \<Rightarrow> timestamp \<times> match_op \<Rightarrow> bool" where
  "ends_offer k op \<longleftrightarrow> snd op = WithdrawOffer k"

text \<open>A request also ends when expired items are purged after its window.\<close>
definition ends_request :: "match_request \<Rightarrow> timestamp \<times> match_op \<Rightarrow> bool" where
  "ends_request r op \<longleftrightarrow> snd op = CancelRequest (mr_request_id r)
     \<or> (snd op = PurgeExpired \<and> tw_end (mr_time_window r) < fst op)"

fun decision :: "string \<Rightarrow> timestamp \<times> match_op \<Rightarrow> bool option" where
  "decision i (_, DecideSlot i' yes) = (if i' = i then Some yes else None)"
| "decision i _ = None"

definition decided :: "string \<Rightarrow> (timestamp \<times> match_op) list \<Rightarrow> schedule_slot \<Rightarrow> schedule_slot" where
  "decided i since s = s\<lparr>sl_state :=
     (let ds = List.map_filter (decision i) since
      in if ds = [] then sl_state s else if last ds then SlotConfirmed else SlotDeclined)\<rparr>"

section \<open>The stores hold what lives\<close>

lemma run_snoc: "match_run mesh (hist @ [x]) = match_apply x (match_run mesh hist)"
  by (simp add: match_run_def)

lemma mesh_run [simp]: "mm_mesh_id (match_run mesh hist) = mesh"
proof (induction hist rule: rev_induct)
  case Nil
  show ?case by (simp add: match_run_def matchmaker_new_def)
next
  case (snoc x hist)
  then show ?case
    by (cases x; cases "snd x")
      (auto simp: run_snoc match_ops decide_def Let_def split: option.splits)
qed

lemma run_Nil [simp]:
  "hm_get (mm_offers (match_run mesh [])) k = None" "hm_get (mm_requests (match_run mesh [])) k = None"
  "hm_get (mm_schedules (match_run mesh [])) k = None"
  by (simp_all add: match_run_def matchmaker_new_def)

lemma offer_lives:
  assumes "\<forall>x\<in>set hist. fst x \<le> now" "now \<le> po_expires_at p"
  shows "hm_get (mm_offers (match_run mesh hist)) k = Some p \<longleftrightarrow>
    (\<exists>since. lives (puts_offer mesh k) (\<lambda>_. ends_offer k) hist p since)"
  using assms(1)
proof (induction hist rule: rev_induct)
  case Nil
  then show ?case by simp
next
  case (snoc x hist)
  obtain t op where x: "x = (t, op)" by fastforce
  show ?case
    using snoc assms(2) by (cases op)
      (auto simp: x run_snoc lives_snoc match_ops decide_def ends_offer_def Let_def split: option.splits)
qed

lemma request_lives:
  "hm_get (mm_requests (match_run mesh hist)) i = Some r \<longleftrightarrow>
    (\<exists>since. lives (puts_request mesh i) ends_request hist r since) \<and> mr_request_id r = i"
proof (induction hist rule: rev_induct)
  case Nil
  then show ?case by simp
next
  case (snoc x hist)
  obtain t op where x: "x = (t, op)" by fastforce
  show ?case
    using snoc by (cases op)
      (auto simp: x run_snoc lives_snoc match_ops decide_def ends_request_def Let_def split: option.splits)
qed

lemma decided_simps [simp]:
  "decided i [] s = s"
  "decided i (since @ [x]) s = (case decision i x of None \<Rightarrow> decided i since s
      | Some yes \<Rightarrow> (decided i since s)\<lparr>sl_state := if yes then SlotConfirmed else SlotDeclined\<rparr>)"
  by (auto simp: decided_def List.map_filter_def Let_def split: option.splits)

lemma decided_lives_snoc:
  "(\<exists>s0 since. lives puts (\<lambda>_ _. False) (hist @ [x]) s0 since \<and> s = decided i since s0) \<longleftrightarrow>
     (case puts x of
        Some w \<Rightarrow> s = w
      | None \<Rightarrow> \<exists>s'. (\<exists>s0 since. lives puts (\<lambda>_ _. False) hist s0 since \<and> s' = decided i since s0)
          \<and> s = (case decision i x of None \<Rightarrow> s'
               | Some yes \<Rightarrow> s'\<lparr>sl_state := if yes then SlotConfirmed else SlotDeclined\<rparr>))"
  by (cases "puts x") (auto simp: lives_snoc; metis decided_simps(2))+

lemma slot_lives:
  "hm_get (mm_schedules (match_run mesh hist)) i = Some s \<longleftrightarrow>
    (\<exists>s0 since. lives (puts_slot mesh i) (\<lambda>_ _. False) hist s0 since \<and> s = decided i since s0)"
proof (induction hist arbitrary: s rule: rev_induct)
  case Nil
  then show ?case by simp
next
  case (snoc x hist)
  obtain t op where x: "x = (t, op)" by fastforce
  show ?case
    unfolding decided_lives_snoc snoc [symmetric]
    by (cases op) (auto simp: x run_snoc match_ops decide_def Let_def split: option.splits)
qed

section \<open>Properties\<close>

text \<open>
  C11: The matchmaker returns what its history says. After any sequence of operations, an offer is
  returned exactly if it was submitted under that id, has neither been replaced nor withdrawn since,
  and has not expired (purges do not matter); a request is listed exactly if it was submitted and
  since then neither replaced, cancelled, nor purged after its window had ended; a slot is returned
  exactly if it was proposed, in the state of the last decision made on it since.
\<close>
theorem matchmaker_history:
  assumes "m = match_run mesh hist" and "\<forall>x\<in>set hist. fst x \<le> now"
  shows "(get_offer m k now = Ok p \<longleftrightarrow>
        now \<le> po_expires_at p \<and> (\<exists>since. lives (puts_offer mesh k) (\<lambda>_. ends_offer k) hist p since))
     \<and> (r \<in> set (list_requests m) \<longleftrightarrow>
          (\<exists>since. lives (puts_request mesh (mr_request_id r)) ends_request hist r since))
     \<and> (get_slot m i = Ok s \<longleftrightarrow>
          (\<exists>s0 since. lives (puts_slot mesh i) (\<lambda>_ _. False) hist s0 since \<and> s = decided i since s0))"
proof (intro conjI)
  show "get_offer m k now = Ok p \<longleftrightarrow>
        now \<le> po_expires_at p \<and> (\<exists>since. lives (puts_offer mesh k) (\<lambda>_. ends_offer k) hist p since)"
    using offer_lives [OF assms(2), of p mesh k] unfolding assms(1) get_offer_def
    by (auto split: option.splits)
  have "r \<in> set (list_requests m) \<longleftrightarrow> (\<exists>i. hm_get (mm_requests m) i = Some r)"
    by (auto simp: list_requests_def)
  then show "r \<in> set (list_requests m) \<longleftrightarrow>
      (\<exists>since. lives (puts_request mesh (mr_request_id r)) ends_request hist r since)"
    unfolding assms(1) request_lives by auto
  show "get_slot m i = Ok s \<longleftrightarrow>
      (\<exists>s0 since. lives (puts_slot mesh i) (\<lambda>_ _. False) hist s0 since \<and> s = decided i since s0)"
    unfolding assms(1) get_slot_def slot_lives [symmetric] by (auto split: option.splits)
qed

theorem matchmaker_history_witness:
  "let m = match_run ''mesh:a'' [(0, SubmitOffer ''agent:alice'' ''o1'' ''s'' 50), (1, ProposeSlot ''agent:bob'' 5 9 ''s1''),
       (2, DecideSlot ''s1'' False), (3, DecideSlot ''s1'' True), (10, PurgeExpired)]
   in map_ok po_summary (get_offer m ''o1'' 20) = Ok ''s'' \<and> map_ok sl_state (get_slot m ''s1'') = Ok SlotConfirmed"
proof -
  define p where "p = \<lparr>po_offer_id = ''o1'', po_from_agent = ''agent:alice'', po_mesh_id = ''mesh:a'',
    po_summary = ''s'', po_expires_at = 50, po_created_at = 0\<rparr>"
  define s where "s = \<lparr>sl_schedule_id = ''s1'', sl_agent_id = ''agent:bob'', sl_mesh_id = ''mesh:a'',
    sl_slot_start = 5, sl_slot_end = 9, sl_state = Proposed, sl_created_at = 1\<rparr>"
  define post where "post = [(2, DecideSlot ''s1'' False), (3, DecideSlot ''s1'' True), (10::timestamp, PurgeExpired)]"
  define hist where "hist = (0, SubmitOffer ''agent:alice'' ''o1'' ''s'' 50) # (1, ProposeSlot ''agent:bob'' 5 9 ''s1'') # post"
  have "lives (puts_offer ''mesh:a'' ''o1'') (\<lambda>_. ends_offer ''o1'') hist p (tl hist)"
    unfolding lives_def by (rule exI [of _ "[]"]) (simp add: hist_def post_def p_def ends_offer_def)
  moreover have "lives (puts_slot ''mesh:a'' ''s1'') (\<lambda>_ _. False) hist s post"
    unfolding lives_def by (rule exI [of _ "[hd hist]"]) (simp add: hist_def post_def s_def)
  moreover have "\<forall>x\<in>set hist. fst x \<le> 20" by (simp add: hist_def post_def)
  ultimately have "get_offer (match_run ''mesh:a'' hist) ''o1'' 20 = Ok p"
    "get_slot (match_run ''mesh:a'' hist) ''s1'' = Ok (decided ''s1'' post s)"
    using matchmaker_history [OF refl, of hist 20 "''mesh:a''" "''o1''" p _ "''s1''" "decided ''s1'' post s"]
    by (auto simp: p_def)
  moreover have "sl_state (decided ''s1'' post s) = SlotConfirmed"
    unfolding post_def s_def by code_simp
  ultimately show ?thesis
    unfolding Let_def hist_def [symmetric, unfolded post_def] by (simp add: p_def)
qed

end
