(* ===== verification/Crypto.thy ===== *)
theory Crypto
  imports Prelude
begin

text \<open>
  Identities and signatures (\<open>p2p/src/crypto.rs\<close>). The Ed25519 primitives of the \<open>ring\<close> library and
  the base64 engine are not code of the repository: they are the fields of a record
  \<open>crypto_lib\<close>, an argument of every definition that uses them, with the type variable \<open>'kp\<close> for
  ring's key pairs. \<open>crypto_ok\<close> states the documented behaviour the code relies on: decoding an
  encoding gives the bytes back, and a signature verifies under the signer's public key. What the
  system generator gives is an argument \<open>rand\<close>, \<open>None\<close> when it fails. A Rust panic (\<open>expect\<close>) is
  the value \<open>None\<close> of the operation that can panic.
\<close>

record 'kp crypto_lib =
  b64_encode :: "bytes \<Rightarrow> string"
  b64_decode :: "string \<Rightarrow> (string, bytes) result"
  kp_from_pkcs8 :: "bytes \<Rightarrow> 'kp option"
  kp_public :: "'kp \<Rightarrow> bytes"
  kp_sign :: "'kp \<Rightarrow> bytes \<Rightarrow> bytes"
  ed_verify :: "bytes \<Rightarrow> bytes \<Rightarrow> bytes \<Rightarrow> bool"

definition crypto_ok :: "'kp crypto_lib \<Rightarrow> bool" where
  "crypto_ok lib \<longleftrightarrow>
     (\<forall>b. b64_decode lib (b64_encode lib b) = Ok b)
     \<and> (\<forall>kp m. ed_verify lib (kp_public lib kp) m (kp_sign lib kp m))"

datatype crypto_error =
    KeyGeneration
  | SigningFailed
  | CryptoVerificationFailed
  | CryptoInvalidKey
  | CryptoBase64Decode string

fun crypto_error_msg :: "crypto_error \<Rightarrow> string" where
  "crypto_error_msg KeyGeneration = ''key generation failed''"
| "crypto_error_msg SigningFailed = ''signing failed''"
| "crypto_error_msg CryptoVerificationFailed = ''signature verification failed''"
| "crypto_error_msg CryptoInvalidKey = ''invalid key material''"
| "crypto_error_msg (CryptoBase64Decode e) = ''base64 decode error: '' @ e"

record 'kp peer_identity =
  pi_key_pair :: 'kp
  pi_pkcs8_der :: bytes

record public_key_bytes =
  pk_key :: string

record signature =
  sig_sig :: string

definition identity_from_der :: "'kp crypto_lib \<Rightarrow> bytes \<Rightarrow> 'kp peer_identity option" where
  "identity_from_der lib der =
     map_option (\<lambda>kp. \<lparr>pi_key_pair = kp, pi_pkcs8_der = der\<rparr>) (kp_from_pkcs8 lib der)"

definition identity_generate ::
    "'kp crypto_lib \<Rightarrow> bytes option \<Rightarrow> (crypto_error, 'kp peer_identity) result" where
  "identity_generate lib rand =
     (case rand of
        None \<Rightarrow> Err KeyGeneration
      | Some der \<Rightarrow> ok_or (identity_from_der lib der) KeyGeneration)"

definition from_pkcs8_base64 ::
    "'kp crypto_lib \<Rightarrow> string \<Rightarrow> (crypto_error, 'kp peer_identity) result" where
  "from_pkcs8_base64 lib encoded =
     (case b64_decode lib encoded of
        Inl e \<Rightarrow> Err (CryptoBase64Decode e)
      | Inr der \<Rightarrow> ok_or (identity_from_der lib der) CryptoInvalidKey)"

definition clone_for_auth :: "'kp crypto_lib \<Rightarrow> 'kp peer_identity \<Rightarrow> 'kp peer_identity option" where
  "clone_for_auth lib self = identity_from_der lib (pi_pkcs8_der self)"

definition identity_public_key :: "'kp crypto_lib \<Rightarrow> 'kp peer_identity \<Rightarrow> public_key_bytes" where
  "identity_public_key lib self = \<lparr>pk_key = b64_encode lib (kp_public lib (pi_key_pair self))\<rparr>"

definition identity_sign :: "'kp crypto_lib \<Rightarrow> 'kp peer_identity \<Rightarrow> bytes \<Rightarrow> signature" where
  "identity_sign lib self message =
     \<lparr>sig_sig = b64_encode lib (kp_sign lib (pi_key_pair self) message)\<rparr>"

definition crypto_verify ::
    "'kp crypto_lib \<Rightarrow> public_key_bytes \<Rightarrow> bytes \<Rightarrow> signature \<Rightarrow> (crypto_error, unit) result" where
  "crypto_verify lib public_key message sg =
     (case b64_decode lib (pk_key public_key) of
        Inl e \<Rightarrow> Err (CryptoBase64Decode e)
      | Inr key_bytes \<Rightarrow>
          (case b64_decode lib (sig_sig sg) of
             Inl e \<Rightarrow> Err (CryptoBase64Decode e)
           | Inr sig_bytes \<Rightarrow>
               if ed_verify lib key_bytes message sig_bytes then Ok ()
               else Err CryptoVerificationFailed))"

text \<open>The bytes the system generator would hand out one after the other; \<open>fill\<close> takes as many as fit.\<close>
type_synonym random_source = "(nat \<Rightarrow> u8) option"

definition random_bytes :: "nat \<Rightarrow> random_source \<Rightarrow> (crypto_error, bytes) result" where
  "random_bytes len rand =
     (let buf = replicate len (0 :: u8)
      in case rand of
           None \<Rightarrow> Err KeyGeneration
         | Some drawn \<Rightarrow> Ok (map drawn [0..<length buf]))"

lemma random_bytes_length: "random_bytes len rand = Ok bytes \<Longrightarrow> length bytes = len"
  by (auto simp: random_bytes_def split: option.splits)

text \<open>Identities whose key pair is the one their document denotes, as both constructors make them.\<close>
definition identity_ok :: "'kp crypto_lib \<Rightarrow> 'kp peer_identity \<Rightarrow> bool" where
  "identity_ok lib i \<longleftrightarrow> kp_from_pkcs8 lib (pi_pkcs8_der i) = Some (pi_key_pair i)"

lemma identity_made_ok:
  "identity_generate lib rand = Ok i \<Longrightarrow> identity_ok lib i"
  "from_pkcs8_base64 lib s = Ok i \<Longrightarrow> identity_ok lib i"
  by (auto simp: identity_generate_def from_pkcs8_base64_def identity_from_der_def identity_ok_def
      split: option.splits sum.splits)

lemma clone_same: "identity_ok lib i \<Longrightarrow> clone_for_auth lib i = Some i"
  by (simp add: clone_for_auth_def identity_from_der_def identity_ok_def)

lemma verify_own_signature:
  "crypto_ok lib \<Longrightarrow>
     crypto_verify lib (identity_public_key lib i) m (identity_sign lib i m) = Ok ()"
  by (simp add: crypto_ok_def crypto_verify_def identity_public_key_def identity_sign_def)

lemma b64_roundtrip: "crypto_ok lib \<Longrightarrow> b64_decode lib (b64_encode lib b) = Ok b"
  by (simp add: crypto_ok_def)

text \<open>
  A concrete library that satisfies \<open>crypto_ok\<close>, for the witnesses: a key pair is its bytes, and a
  signature of a message is the key followed by the message.
\<close>
definition plain_crypto :: "bytes crypto_lib" where
  "plain_crypto = \<lparr>
     b64_encode = map (\<lambda>w. char_of (unat w)),
     b64_decode = (\<lambda>s. Ok (map (\<lambda>c. of_nat (of_char c)) s)),
     kp_from_pkcs8 = Some,
     kp_public = id,
     kp_sign = (\<lambda>k m. k @ m),
     ed_verify = (\<lambda>k m s. s = k @ m)\<rparr>"

lemma byte_of_char_of: "(of_nat (of_char (char_of (unat w) :: char)) :: u8) = w"
proof -
  have "unat w < 256"
    using unsigned_less [of w] by simp
  then show ?thesis by simp
qed

lemma plain_crypto_ok: "crypto_ok plain_crypto"
  by (simp only: crypto_ok_def plain_crypto_def crypto_lib.select_convs map_map comp_def
      byte_of_char_of) simp

text \<open>
  Identities survive being copied and exported. An identity that was generated or decoded
  can be cloned for the authenticator without panicking, the clone is the same identity, importing
  the base64 form of its document gives it again, and what it signs verifies under its public key.
\<close>
theorem identity_roundtrip:
  assumes "crypto_ok lib"
    and "identity_generate lib rand = Ok i \<or> from_pkcs8_base64 lib s = Ok i"
  shows "clone_for_auth lib i = Some i
     \<and> from_pkcs8_base64 lib (b64_encode lib (pi_pkcs8_der i)) = Ok i
     \<and> crypto_verify lib (identity_public_key lib i) m (identity_sign lib i m) = Ok ()"
proof -
  have "identity_ok lib i"
    using assms(2) identity_made_ok by blast
  then show ?thesis
    using clone_same verify_own_signature [OF assms(1)] b64_roundtrip [OF assms(1)]
    by (simp add: from_pkcs8_base64_def identity_from_der_def identity_ok_def)
qed

theorem identity_roundtrip_witness:
  "clone_for_auth plain_crypto \<lparr>pi_key_pair = [7], pi_pkcs8_der = [7]\<rparr>
     = Some \<lparr>pi_key_pair = [7], pi_pkcs8_der = [7]\<rparr>"
proof -
  have "identity_generate plain_crypto (Some [7]) = Ok \<lparr>pi_key_pair = [7], pi_pkcs8_der = [7]\<rparr>"
    by (simp add: identity_generate_def identity_from_der_def plain_crypto_def)
  then show ?thesis
    using identity_roundtrip [OF plain_crypto_ok] by blast
qed

end
