(* ===== verification/Auth.thy ===== *)
theory Auth
  imports Crypto Hash_Map
begin

text \<open>
  The challenge-response handshake (\<open>PeerAuthenticator\<close> of \<open>p2p/src/auth.rs\<close>). The state is the
  map of the pending challenges and the map of the authenticated peers. What an authenticator has
  done is recorded in a ghost log (challenges issued, responses accepted or rejected, confirmations
  accepted); the invariant ties the two maps to it.
\<close>

section \<open>Data\<close>

definition CHALLENGE_LEN :: nat where
  "CHALLENGE_LEN = 32"

datatype auth_error =
    AuthPeerNotFound string
  | NoPendingChallenge string
  | AuthVerificationFailed
  | AlreadyAuthenticated string
  | AuthCrypto crypto_error
  | AuthBase64Decode string

fun auth_error_msg :: "auth_error \<Rightarrow> string" where
  "auth_error_msg (AuthPeerNotFound p) = ''peer not found: '' @ p"
| "auth_error_msg (NoPendingChallenge p) = ''no pending challenge for peer: '' @ p"
| "auth_error_msg AuthVerificationFailed = ''challenge-response verification failed''"
| "auth_error_msg (AlreadyAuthenticated p) = ''peer already authenticated: '' @ p"
| "auth_error_msg (AuthCrypto e) = ''crypto error: '' @ crypto_error_msg e"
| "auth_error_msg (AuthBase64Decode e) = ''base64 decode error: '' @ e"

record auth_hello =
  ah_agent_id :: string
  ah_public_key :: public_key_bytes

record auth_challenge =
  ac_agent_id :: string
  ac_public_key :: public_key_bytes
  ac_nonce :: string

record auth_response =
  ar_agent_id :: string
  ar_signature :: signature

record auth_confirm =
  af_agent_id :: string
  af_signature :: signature

record authenticated_peer =
  ap_agent_id :: string
  ap_public_key :: public_key_bytes

record 'kp peer_authenticator =
  pa_identity :: "'kp peer_identity"
  pa_agent_id :: string
  pa_pending :: "(string, bytes) hash_map"
  pa_authenticated :: "(string, authenticated_peer) hash_map"

section \<open>Operations\<close>

definition authenticator_new :: "string \<Rightarrow> 'kp peer_identity \<Rightarrow> 'kp peer_authenticator" where
  "authenticator_new agent_id identity =
     \<lparr>pa_identity = identity, pa_agent_id = agent_id, pa_pending = hm_new,
      pa_authenticated = hm_new\<rparr>"

definition make_hello :: "'kp crypto_lib \<Rightarrow> 'kp peer_authenticator \<Rightarrow> auth_hello" where
  "make_hello lib self =
     \<lparr>ah_agent_id = pa_agent_id self, ah_public_key = identity_public_key lib (pa_identity self)\<rparr>"

definition handle_hello ::
    "'kp crypto_lib \<Rightarrow> 'kp peer_authenticator \<Rightarrow> auth_hello \<Rightarrow> random_source
      \<Rightarrow> 'kp peer_authenticator \<times> (auth_error, auth_challenge) result" where
  "handle_hello lib self hello rand =
     (case random_bytes CHALLENGE_LEN rand of
        Inl e \<Rightarrow> (self, Err (AuthCrypto e))
      | Inr nonce \<Rightarrow>
          (self\<lparr>pa_pending := hm_insert (ah_agent_id hello) nonce (pa_pending self)\<rparr>,
           Ok \<lparr>ac_agent_id = pa_agent_id self,
               ac_public_key = identity_public_key lib (pa_identity self),
               ac_nonce = b64_encode lib nonce\<rparr>))"

text \<open>\<open>None\<close> is the panic of \<open>expect\<close> on a nonce that is not base64.\<close>
definition sign_challenge ::
    "'kp crypto_lib \<Rightarrow> 'kp peer_authenticator \<Rightarrow> auth_challenge \<Rightarrow> auth_response option" where
  "sign_challenge lib self challenge =
     (case b64_decode lib (ac_nonce challenge) of
        Inl e \<Rightarrow> None
      | Inr nonce_bytes \<Rightarrow>
          Some \<lparr>ar_agent_id = pa_agent_id self,
                ar_signature = identity_sign lib (pa_identity self) nonce_bytes\<rparr>)"

definition handle_response ::
    "'kp crypto_lib \<Rightarrow> 'kp peer_authenticator \<Rightarrow> auth_response \<Rightarrow> public_key_bytes
      \<Rightarrow> 'kp peer_authenticator \<times> (auth_error, auth_confirm) result" where
  "handle_response lib self response remote_public_key =
     (let self' = self\<lparr>pa_pending := hm_remove (ar_agent_id response) (pa_pending self)\<rparr>
      in case hm_get (pa_pending self) (ar_agent_id response) of
           None \<Rightarrow> (self', Err (NoPendingChallenge (ar_agent_id response)))
         | Some nonce \<Rightarrow>
             (case crypto_verify lib remote_public_key nonce (ar_signature response) of
                Inl _ \<Rightarrow> (self', Err AuthVerificationFailed)
              | Inr _ \<Rightarrow>
                  (self'\<lparr>pa_authenticated := hm_insert (ar_agent_id response)
                      \<lparr>ap_agent_id = ar_agent_id response, ap_public_key = remote_public_key\<rparr>
                      (pa_authenticated self')\<rparr>,
                   Ok \<lparr>af_agent_id = pa_agent_id self,
                       af_signature = identity_sign lib (pa_identity self) nonce\<rparr>)))"

definition handle_confirm ::
    "'kp crypto_lib \<Rightarrow> 'kp peer_authenticator \<Rightarrow> auth_confirm \<Rightarrow> string \<Rightarrow> public_key_bytes
      \<Rightarrow> 'kp peer_authenticator \<times> (auth_error, authenticated_peer) result" where
  "handle_confirm lib self confirm challenge_nonce remote_public_key =
     (case b64_decode lib challenge_nonce of
        Inl e \<Rightarrow> (self, Err (AuthBase64Decode e))
      | Inr nonce_bytes \<Rightarrow>
          (case crypto_verify lib remote_public_key nonce_bytes (af_signature confirm) of
             Inl _ \<Rightarrow> (self, Err AuthVerificationFailed)
           | Inr _ \<Rightarrow>
               (let peer = \<lparr>ap_agent_id = af_agent_id confirm, ap_public_key = remote_public_key\<rparr>
                in (self\<lparr>pa_authenticated :=
                       hm_insert (af_agent_id confirm) peer (pa_authenticated self)\<rparr>,
                    Ok peer))))"

definition is_authenticated :: "'kp peer_authenticator \<Rightarrow> string \<Rightarrow> bool" where
  "is_authenticated self agent_id \<longleftrightarrow> hm_contains_key (pa_authenticated self) agent_id"

definition get_authenticated ::
    "'kp peer_authenticator \<Rightarrow> string \<Rightarrow> authenticated_peer option" where
  "get_authenticated self agent_id = hm_get (pa_authenticated self) agent_id"

definition authenticated_peers :: "'kp peer_authenticator \<Rightarrow> authenticated_peer list" where
  "authenticated_peers self = hm_values (pa_authenticated self)"

definition auth_remove_peer ::
    "'kp peer_authenticator \<Rightarrow> string \<Rightarrow> 'kp peer_authenticator \<times> authenticated_peer option" where
  "auth_remove_peer self agent_id =
     (self\<lparr>pa_authenticated := hm_remove agent_id (pa_authenticated self)\<rparr>,
      hm_get (pa_authenticated self) agent_id)"

definition auth_public_key :: "'kp crypto_lib \<Rightarrow> 'kp peer_authenticator \<Rightarrow> public_key_bytes" where
  "auth_public_key lib self = identity_public_key lib (pa_identity self)"

section \<open>The log of an authenticator\<close>

datatype auth_log =
    Issued string bytes
  | Accepted string public_key_bytes bytes signature
  | Rejected string
  | Confirmed string public_key_bytes bytes signature

text \<open>The challenge that waits for an answer of an agent, according to the log.\<close>
fun outstanding :: "string \<Rightarrow> auth_log list \<Rightarrow> bytes option \<Rightarrow> bytes option" where
  "outstanding a [] n = n"
| "outstanding a (Issued b m # l) n = outstanding a l (if b = a then Some m else n)"
| "outstanding a (Accepted b _ _ _ # l) n = outstanding a l (if b = a then None else n)"
| "outstanding a (Rejected b # l) n = outstanding a l (if b = a then None else n)"
| "outstanding a (Confirmed _ _ _ _ # l) n = outstanding a l n"

lemma outstanding_append [simp]:
  "outstanding a (l @ l') n = outstanding a l' (outstanding a l n)"
  by (induction l n rule: outstanding.induct [where ?a0.0 = a]) auto

lemma outstanding_issued:
  "outstanding a l n = Some m \<Longrightarrow> n = Some m \<or> Issued a m \<in> set l"
  by (induction a l n rule: outstanding.induct) (auto split: if_splits)

text \<open>Each operation that changes the state, with what it adds to the log.\<close>
inductive auth_step ::
    "'kp crypto_lib \<Rightarrow> 'kp peer_authenticator \<Rightarrow> auth_log list \<Rightarrow> 'kp peer_authenticator \<Rightarrow> bool"
  for lib where
  auth_hello: "random_bytes CHALLENGE_LEN rand = Ok nonce \<Longrightarrow>
    handle_hello lib s hello rand = (s', res) \<Longrightarrow>
    auth_step lib s [Issued (ah_agent_id hello) nonce] s'"
| auth_accept: "handle_response lib s response pk = (s', Ok confirm) \<Longrightarrow>
    hm_get (pa_pending s) (ar_agent_id response) = Some nonce \<Longrightarrow>
    auth_step lib s [Accepted (ar_agent_id response) pk nonce (ar_signature response)] s'"
| auth_reject: "handle_response lib s response pk = (s', Err e) \<Longrightarrow>
    auth_step lib s [Rejected (ar_agent_id response)] s'"
| auth_confirm: "handle_confirm lib s confirm chal pk = (s', Ok peer) \<Longrightarrow>
    b64_decode lib chal = Ok nonce \<Longrightarrow>
    auth_step lib s [Confirmed (af_agent_id confirm) pk nonce (af_signature confirm)] s'"
| auth_confirm_err: "handle_confirm lib s confirm chal pk = (s', Err e) \<Longrightarrow> auth_step lib s [] s'"
| auth_remove: "auth_step lib s [] (fst (auth_remove_peer s a))"

inductive auth_reach ::
    "'kp crypto_lib \<Rightarrow> string \<Rightarrow> 'kp peer_identity \<Rightarrow> 'kp peer_authenticator \<Rightarrow> auth_log list \<Rightarrow> bool"
  for lib me i where
  auth_start: "auth_reach lib me i (authenticator_new me i) []"
| auth_next: "auth_reach lib me i s l \<Longrightarrow> auth_step lib s l' s' \<Longrightarrow> auth_reach lib me i s' (l @ l')"

text \<open>Each operation in the relation is total: it always takes a step.\<close>
lemma auth_step_response: "\<exists>l. auth_step lib s l (fst (handle_response lib s response pk))"
proof (cases "snd (handle_response lib s response pk)")
  case (Inl e)
  then show ?thesis
    by (metis auth_reject prod.collapse)
next
  case (Inr c)
  then obtain nonce where "hm_get (pa_pending s) (ar_agent_id response) = Some nonce"
    by (auto simp: handle_response_def Let_def split: option.splits)
  with Inr show ?thesis
    by (metis auth_accept prod.collapse)
qed

text \<open>Why an authenticated entry is there.\<close>
definition vouched :: "'kp crypto_lib \<Rightarrow> auth_log list \<Rightarrow> string \<Rightarrow> authenticated_peer \<Rightarrow> bool" where
  "vouched lib log a p \<longleftrightarrow> ap_agent_id p = a \<and>
     (\<exists>l1 l2 nonce sg. crypto_verify lib (ap_public_key p) nonce sg = Ok () \<and>
        ((log = l1 @ Accepted a (ap_public_key p) nonce sg # l2 \<and> outstanding a l1 None = Some nonce)
         \<or> log = l1 @ Confirmed a (ap_public_key p) nonce sg # l2))"

lemma vouched_append: "vouched lib log a p \<Longrightarrow> vouched lib (log @ l) a p"
  unfolding vouched_def by fastforce

lemma vouchedI:
  assumes "crypto_verify lib pk nonce sg = Ok ()"
  shows "outstanding a log None = Some nonce \<Longrightarrow>
      vouched lib (log @ [Accepted a pk nonce sg]) a \<lparr>ap_agent_id = a, ap_public_key = pk\<rparr>"
    and "vouched lib (log @ [Confirmed a pk nonce sg]) a \<lparr>ap_agent_id = a, ap_public_key = pk\<rparr>"
  using assms unfolding vouched_def by fastforce+

definition auth_inv :: "'kp crypto_lib \<Rightarrow> 'kp peer_authenticator \<Rightarrow> auth_log list \<Rightarrow> bool" where
  "auth_inv lib s log \<longleftrightarrow>
     (\<forall>a. hm_get (pa_pending s) a = outstanding a log None)
     \<and> (\<forall>a p. hm_get (pa_authenticated s) a = Some p \<longrightarrow> vouched lib log a p)"

lemma auth_inv_accept:
  assumes "handle_response lib s response pk = (s', Ok confirm)"
    and "hm_get (pa_pending s) (ar_agent_id response) = Some nonce" and "auth_inv lib s log"
  shows "auth_inv lib s' (log @ [Accepted (ar_agent_id response) pk nonce (ar_signature response)])"
proof -
  have v: "crypto_verify lib pk nonce (ar_signature response) = Ok ()"
    using assms(1,2) by (auto simp: handle_response_def Let_def split: sum.splits)
  have s': "s' = s\<lparr>pa_pending := hm_remove (ar_agent_id response) (pa_pending s),
      pa_authenticated := hm_insert (ar_agent_id response)
        \<lparr>ap_agent_id = ar_agent_id response, ap_public_key = pk\<rparr> (pa_authenticated s)\<rparr>"
    using assms(1,2) by (auto simp: handle_response_def Let_def split: sum.splits)
  show ?thesis
    using assms(2,3) vouchedI(1) [OF v] unfolding s' auth_inv_def
    by (auto intro: vouched_append)
qed

lemma auth_inv_step: "auth_step lib s l s' \<Longrightarrow> auth_inv lib s log \<Longrightarrow> auth_inv lib s' (log @ l)"
proof (induction rule: auth_step.induct)
  case (auth_hello rand nonce s hello s' res)
  then show ?case
    by (auto simp: handle_hello_def auth_inv_def intro: vouched_append)
next
  case (auth_accept s response pk s' confirm nonce)
  then show ?case by (rule auth_inv_accept)
next
  case (auth_reject s response pk s' e)
  then have "pa_pending s' = hm_remove (ar_agent_id response) (pa_pending s)"
    "pa_authenticated s' = pa_authenticated s"
    by (auto simp: handle_response_def Let_def split: option.splits sum.splits)
  with auth_reject.prems show ?case
    by (auto simp: auth_inv_def intro: vouched_append)
next
  case (auth_confirm s confirm chal pk s' peer nonce)
  then have v: "crypto_verify lib pk nonce (af_signature confirm) = Ok ()"
    and s': "s' = s\<lparr>pa_authenticated := hm_insert (af_agent_id confirm)
      \<lparr>ap_agent_id = af_agent_id confirm, ap_public_key = pk\<rparr> (pa_authenticated s)\<rparr>"
    by (auto simp: handle_confirm_def Let_def split: sum.splits)
  show ?case
    using auth_confirm.prems vouchedI(2) [OF v] unfolding s' auth_inv_def
    by (auto intro: vouched_append)
next
  case (auth_confirm_err s confirm chal pk s' e)
  then show ?case
    by (auto simp: handle_confirm_def Let_def split: sum.splits)
next
  case (auth_remove s a)
  then show ?case by (auto simp: auth_remove_peer_def auth_inv_def)
qed

lemma auth_reach_inv: "auth_reach lib me i s log \<Longrightarrow> auth_inv lib s log"
proof (induction rule: auth_reach.induct)
  case auth_start
  show ?case by (simp add: auth_inv_def authenticator_new_def)
next
  case (auth_next s l l' s')
  then show ?case by (blast intro: auth_inv_step)
qed

lemma issued_length:
  assumes "auth_reach lib me i s log" "Issued a nonce \<in> set log"
  shows "length nonce = CHALLENGE_LEN"
proof -
  have "length n = CHALLENGE_LEN" if "auth_step lib s l s'" "Issued a n \<in> set l" for s s' l n
    using that by (induction rule: auth_step.induct) (auto dest: random_bytes_length)
  with assms show ?thesis
    by (induction rule: auth_reach.induct) auto
qed

section \<open>Properties\<close>

text \<open>
  C2: Authentication is never granted without proof. In every state an authenticator can reach,
  whatever messages it is sent, a peer listed as authenticated under an agent id is there because
  a signature verified under the recorded key: in a response, over the challenge (of 32 bytes) most
  recently issued to that agent and not answered since, so that one challenge is accepted at most
  once; or in a confirmation this authenticator processed as the initiator. The challenges pending are the
  issued and unanswered ones.
\<close>
theorem authenticated_peers_proved:
  assumes "auth_reach lib me i s log" and "get_authenticated s a = Some p"
  shows "ap_agent_id p = a
     \<and> (\<exists>l1 l2 nonce sg. crypto_verify lib (ap_public_key p) nonce sg = Ok ()
          \<and> ((log = l1 @ Accepted a (ap_public_key p) nonce sg # l2
                \<and> outstanding a l1 None = Some nonce \<and> Issued a nonce \<in> set l1
                \<and> length nonce = CHALLENGE_LEN)
             \<or> log = l1 @ Confirmed a (ap_public_key p) nonce sg # l2))
     \<and> hm_get (pa_pending s) a = outstanding a log None"
proof -
  note inv = auth_reach_inv [OF assms(1)]
  then have "vouched lib log a p"
    using assms(2) by (simp add: auth_inv_def get_authenticated_def)
  moreover have "Issued a nonce \<in> set l1 \<and> length nonce = CHALLENGE_LEN"
    if "log = l1 @ x # l2" "outstanding a l1 None = Some nonce" for l1 x l2 nonce
    using that outstanding_issued [OF that(2)] issued_length [OF assms(1), of a nonce] by simp
  ultimately show ?thesis
    using inv unfolding vouched_def auth_inv_def by blast
qed

text \<open>
  C23: The handshake authenticates honest peers to each other. When the initiator's hello, the
  responder's challenge, the initiator's response and the responder's confirmation are delivered
  unchanged and each side checks with the key the other announced, every step succeeds, each side
  has recorded the other under its id and public key, and the challenge is spent.
\<close>
theorem handshake_mutual:
  assumes "crypto_ok lib" and "make_hello lib a = hello" and "random_bytes CHALLENGE_LEN rand = Ok nonce"
    and "handle_hello lib b hello rand = (b1, res)"
  shows "\<exists>challenge response confirm b2 a' peer.
      res = Ok challenge \<and> sign_challenge lib a challenge = Some response
      \<and> handle_response lib b1 response (ah_public_key hello) = (b2, Ok confirm)
      \<and> handle_confirm lib a confirm (ac_nonce challenge) (ac_public_key challenge) = (a', Ok peer)
      \<and> get_authenticated b2 (pa_agent_id a) =
          Some \<lparr>ap_agent_id = pa_agent_id a, ap_public_key = identity_public_key lib (pa_identity a)\<rparr>
      \<and> get_authenticated a' (pa_agent_id b) =
          Some \<lparr>ap_agent_id = pa_agent_id b, ap_public_key = identity_public_key lib (pa_identity b)\<rparr>
      \<and> snd (handle_response lib b2 response (ah_public_key hello)) =
          Err (NoPendingChallenge (pa_agent_id a))"
proof -
  note lib = b64_roundtrip [OF assms(1)] verify_own_signature [OF assms(1)]
  have hello: "ah_agent_id hello = pa_agent_id a"
      "ah_public_key hello = identity_public_key lib (pa_identity a)"
    using assms(2) by (auto simp: make_hello_def)
  have b1: "b1 = b\<lparr>pa_pending := hm_insert (pa_agent_id a) nonce (pa_pending b)\<rparr>"
    and res: "res = Ok \<lparr>ac_agent_id = pa_agent_id b,
        ac_public_key = identity_public_key lib (pa_identity b), ac_nonce = b64_encode lib nonce\<rparr>"
    using assms(3,4) by (simp_all add: handle_hello_def hello)
  show ?thesis
    unfolding res b1 hello
    by (simp add: sign_challenge_def handle_response_def handle_confirm_def get_authenticated_def
        lib Let_def)
qed

text \<open>
  The handshake does not bind the response to the key of the hello. After any hello that claims
  an agent id (with whatever public key), a response under that id signed by another key pair is
  accepted when the caller presents that other key, and the other key is what gets recorded for the
  agent: anyone can be authenticated under any agent id.
\<close>
theorem response_key_not_bound:
  assumes "crypto_ok lib" and "random_bytes CHALLENGE_LEN rand = Ok nonce"
    and "handle_hello lib b hello rand = (b1, res)"
    and "response = \<lparr>ar_agent_id = ah_agent_id hello, ar_signature = identity_sign lib attacker nonce\<rparr>"
  shows "\<exists>b2 confirm. handle_response lib b1 response (identity_public_key lib attacker) = (b2, Ok confirm)
     \<and> get_authenticated b2 (ah_agent_id hello) =
         Some \<lparr>ap_agent_id = ah_agent_id hello, ap_public_key = identity_public_key lib attacker\<rparr>"
proof -
  have "b1 = b\<lparr>pa_pending := hm_insert (ah_agent_id hello) nonce (pa_pending b)\<rparr>"
    using assms(2,3) by (auto simp: handle_hello_def)
  then show ?thesis
    using verify_own_signature [OF assms(1)] assms(4)
    by (simp add: handle_response_def get_authenticated_def Let_def)
qed

text \<open>
  Nor is a hello bound to the agent it names: one that arrives under the agent's id before its response
  replaces the challenge, and the honest response, made for the first challenge, is refused and uses up
  the second one too. All that is assumed of the signature is that it does not verify for another nonce.
\<close>
theorem foreign_hello_refuses_response:
  assumes "random_bytes CHALLENGE_LEN rand = Ok nonce" and "handle_hello lib b hello rand = (b1, res)"
    and "random_bytes CHALLENGE_LEN rand' = Ok nonce'" and "handle_hello lib b1 hello' rand' = (b2, res')"
    and "ah_agent_id hello' = ah_agent_id hello"
    and "response = \<lparr>ar_agent_id = ah_agent_id hello, ar_signature = identity_sign lib identity nonce\<rparr>"
    and "crypto_verify lib (identity_public_key lib identity) nonce' (identity_sign lib identity nonce) \<noteq> Ok ()"
  shows "\<exists>b3. handle_response lib b2 response (identity_public_key lib identity) = (b3, Err AuthVerificationFailed)
     \<and> hm_get (pa_pending b3) (ah_agent_id hello) = None
     \<and> get_authenticated b3 (ah_agent_id hello) = get_authenticated b (ah_agent_id hello)"
proof -
  have "b2 = b\<lparr>pa_pending := hm_insert (ah_agent_id hello) nonce'
      (hm_insert (ah_agent_id hello) nonce (pa_pending b))\<rparr>"
    using assms(1-5) by (auto simp: handle_hello_def)
  with assms(6,7) show ?thesis
    by (auto simp: handle_response_def get_authenticated_def Let_def split: sum.splits)
qed

text \<open>The witnesses: Alice's authenticator and Bob's, with the concrete library.\<close>

definition demo_identity :: "u8 \<Rightarrow> bytes peer_identity" where
  "demo_identity k = \<lparr>pi_key_pair = [k], pi_pkcs8_der = [k]\<rparr>"

definition demo_auth :: "string \<Rightarrow> u8 \<Rightarrow> bytes peer_authenticator" where
  "demo_auth a k = authenticator_new a (demo_identity k)"

definition demo_hello :: auth_hello where
  "demo_hello = make_hello plain_crypto (demo_auth ''agent:alice'' 1)"

text \<open>What the generator hands out in the witnesses, and the challenge it makes.\<close>
definition demo_random :: random_source where
  "demo_random = Some (\<lambda>_. 9)"

definition demo_nonce :: bytes where
  "demo_nonce = replicate CHALLENGE_LEN 9"

lemma demo_nonce: "random_bytes CHALLENGE_LEN demo_random = Ok demo_nonce"
  by (simp add: random_bytes_def demo_random_def demo_nonce_def map_replicate_trivial)

definition demo_challenged :: "bytes peer_authenticator" where
  "demo_challenged = fst (handle_hello plain_crypto (demo_auth ''agent:bob'' 2) demo_hello demo_random)"

theorem handshake_mutual_witness:
  "\<exists>response b2 confirm.
      handle_response plain_crypto demo_challenged response (ah_public_key demo_hello) = (b2, Ok confirm)
      \<and> get_authenticated b2 ''agent:alice'' =
          Some \<lparr>ap_agent_id = ''agent:alice'',
                ap_public_key = identity_public_key plain_crypto (demo_identity 1)\<rparr>"
proof -
  obtain b1 res where hello:
    "handle_hello plain_crypto (demo_auth ''agent:bob'' 2) demo_hello demo_random = (b1, res)"
    by (metis surj_pair)
  have "pa_agent_id (demo_auth ''agent:alice'' 1) = ''agent:alice''"
    "pa_identity (demo_auth ''agent:alice'' 1) = demo_identity 1"
    by (simp_all add: demo_auth_def authenticator_new_def)
  with handshake_mutual [OF plain_crypto_ok demo_hello_def [symmetric] demo_nonce hello] hello show ?thesis
    unfolding demo_challenged_def by auto
qed

theorem response_key_not_bound_witness:
  "\<exists>b2. get_authenticated b2 ''agent:alice'' =
      Some \<lparr>ap_agent_id = ''agent:alice'',
            ap_public_key = identity_public_key plain_crypto (demo_identity 66)\<rparr>
    \<and> b2 = fst (handle_response plain_crypto demo_challenged
        \<lparr>ar_agent_id = ''agent:alice'', ar_signature = identity_sign plain_crypto (demo_identity 66) demo_nonce\<rparr>
        (identity_public_key plain_crypto (demo_identity 66)))"
proof -
  obtain b1 res where hello:
    "handle_hello plain_crypto (demo_auth ''agent:bob'' 2) demo_hello demo_random = (b1, res)"
    by (metis surj_pair)
  have "ah_agent_id demo_hello = ''agent:alice''"
    by (simp add: demo_hello_def make_hello_def demo_auth_def authenticator_new_def)
  with response_key_not_bound [OF plain_crypto_ok demo_nonce hello refl, of "demo_identity 66"] hello show ?thesis
    unfolding demo_challenged_def by auto
qed

theorem authenticated_peers_proved_witness:
  "\<exists>(s :: bytes peer_authenticator) log p. get_authenticated s ''agent:alice'' = Some p
     \<and> Issued ''agent:alice'' demo_nonce \<in> set log \<and> ap_agent_id p = ''agent:alice''"
proof -
  let ?b = "demo_auth ''agent:bob'' 2"
  let ?response = "\<lparr>ar_agent_id = ''agent:alice'', ar_signature = identity_sign plain_crypto (demo_identity 1) demo_nonce\<rparr>"
  let ?pk = "identity_public_key plain_crypto (demo_identity 1)"
  obtain b1 res where hello: "handle_hello plain_crypto ?b demo_hello demo_random = (b1, res)"
    by (metis surj_pair)
  have id: "ah_agent_id demo_hello = ''agent:alice''"
    by (simp add: demo_hello_def make_hello_def demo_auth_def authenticator_new_def)
  have b1: "b1 = ?b\<lparr>pa_pending := hm_insert ''agent:alice'' demo_nonce (pa_pending ?b)\<rparr>"
    using hello by (auto simp: handle_hello_def demo_nonce id)
  have "auth_reach plain_crypto ''agent:bob'' (demo_identity 2) b1 [Issued ''agent:alice'' demo_nonce]"
    using auth_next [OF auth_start auth_hello [OF demo_nonce hello [unfolded demo_auth_def]]] id by simp
  moreover obtain b2 confirm where accept: "handle_response plain_crypto b1 ?response ?pk = (b2, Ok confirm)"
    and got: "get_authenticated b2 ''agent:alice'' = Some \<lparr>ap_agent_id = ''agent:alice'', ap_public_key = ?pk\<rparr>"
    using verify_own_signature [OF plain_crypto_ok, of "demo_identity 1" demo_nonce]
    by (simp add: b1 handle_response_def get_authenticated_def Let_def)
  have "auth_step plain_crypto b1
      [Accepted (ar_agent_id ?response) ?pk demo_nonce (ar_signature ?response)] b2"
    using accept by (rule auth_accept) (simp add: b1)
  ultimately have "auth_reach plain_crypto ''agent:bob'' (demo_identity 2) b2
      ([Issued ''agent:alice'' demo_nonce]
        @ [Accepted (ar_agent_id ?response) ?pk demo_nonce (ar_signature ?response)])"
    by (rule auth_next)
  from conjunct1 [OF authenticated_peers_proved [OF this got]] got show ?thesis
    by (intro exI conjI) (assumption | rule list.set_intros(1))+
qed

end
