(* ===== verification/Federation.thy ===== *)
theory Federation
  imports Hash_Map Events
begin

text \<open>
  Federation between meshes (\<open>p2p/src/federation.rs\<close>): the links of a node to remote meshes and the
  relaying of envelopes over them, hop by hop, under a time-to-live counter. The payload of an
  envelope is opaque to the router (\<open>serde_json::Value\<close>): the type variable \<open>'j\<close>. Link channels are
  handles \<open>chan\<close> and \<open>send_ok c\<close> says whether a send on \<open>c\<close> succeeds.
\<close>

section \<open>Data\<close>

record 'j federation_envelope =
  fe_source_mesh :: string
  fe_target_mesh :: string
  fe_envelope :: 'j
  fe_relayed_at :: timestamp
  fe_ttl :: u8

record mesh_link =
  ml_mesh_id :: string
  ml_label :: "string option"
  ml_linked_at :: timestamp

datatype federation_error =
    LinkNotFound string
  | RelayFailed string
  | TtlExpired
  | SelfRelay
  | LinkExists string

fun federation_error_msg :: "federation_error \<Rightarrow> string" where
  "federation_error_msg (LinkNotFound m) = ''mesh link not found: '' @ m"
| "federation_error_msg (RelayFailed m) =
     ''failed to relay envelope to mesh '' @ m @ '': channel closed''"
| "federation_error_msg TtlExpired = ''envelope TTL expired (loops prevented)''"
| "federation_error_msg SelfRelay = ''cannot relay to self mesh''"
| "federation_error_msg (LinkExists m) = ''mesh link already exists: '' @ m"

record mesh_link_state =
  ls_info :: mesh_link
  ls_tx :: chan

record federation_router =
  fr_local_mesh_id :: string
  fr_links :: "(string, mesh_link_state) hash_map"

type_synonym 'j federation_sent = "(chan \<times> 'j federation_envelope) list"

section \<open>Operations\<close>

definition DEFAULT_TTL :: u8 where
  "DEFAULT_TTL = 8"

definition federation_router_new :: "string \<Rightarrow> federation_router" where
  "federation_router_new local_mesh_id = \<lparr>fr_local_mesh_id = local_mesh_id, fr_links = hm_new\<rparr>"

text \<open>\<open>tx\<close> is the channel \<open>mpsc::channel(buffer)\<close> makes; the result is its receiver.\<close>
definition link_mesh ::
    "federation_router \<Rightarrow> string \<Rightarrow> string option \<Rightarrow> chan \<Rightarrow> timestamp
      \<Rightarrow> federation_router \<times> event list \<times> (federation_error, chan) result" where
  "link_mesh self remote_mesh_id label tx now =
     (if remote_mesh_id = fr_local_mesh_id self then (self, [], Err SelfRelay)
      else if hm_contains_key (fr_links self) remote_mesh_id
      then (self, [], Err (LinkExists remote_mesh_id))
      else
        (let info = \<lparr>ml_mesh_id = remote_mesh_id, ml_label = label, ml_linked_at = now\<rparr>
         in (self\<lparr>fr_links := hm_insert remote_mesh_id \<lparr>ls_info = info, ls_tx = tx\<rparr> (fr_links self)\<rparr>,
             [PatchReady (fr_local_mesh_id self)
                (''federation link established: '' @ remote_mesh_id)],
             Ok tx)))"

definition unlink_mesh ::
    "federation_router \<Rightarrow> string
      \<Rightarrow> federation_router \<times> event list \<times> (federation_error, mesh_link) result" where
  "unlink_mesh self remote_mesh_id =
     (case hm_get (fr_links self) remote_mesh_id of
        None \<Rightarrow> (self, [], Err (LinkNotFound remote_mesh_id))
      | Some state \<Rightarrow>
          (self\<lparr>fr_links := hm_remove remote_mesh_id (fr_links self)\<rparr>,
           [PatchReady (fr_local_mesh_id self) (''federation link removed: '' @ remote_mesh_id)],
           Ok (ls_info state)))"

definition send_federation_envelope ::
    "(chan \<Rightarrow> bool) \<Rightarrow> federation_router \<Rightarrow> string \<Rightarrow> 'j federation_envelope
      \<Rightarrow> 'j federation_sent \<times> (federation_error, unit) result" where
  "send_federation_envelope send_ok self target_mesh envelope =
     (case hm_get (fr_links self) target_mesh of
        None \<Rightarrow> ([], Err (LinkNotFound target_mesh))
      | Some link \<Rightarrow>
          if send_ok (ls_tx link) then ([(ls_tx link, envelope)], Ok ())
          else ([], Err (RelayFailed target_mesh)))"

definition federation_relay ::
    "(chan \<Rightarrow> bool) \<Rightarrow> federation_router \<Rightarrow> string \<Rightarrow> 'j \<Rightarrow> timestamp
      \<Rightarrow> 'j federation_sent \<times> (federation_error, unit) result" where
  "federation_relay send_ok self target_mesh envelope now =
     (if target_mesh = fr_local_mesh_id self then ([], Err SelfRelay)
      else send_federation_envelope send_ok self target_mesh
             \<lparr>fe_source_mesh = fr_local_mesh_id self, fe_target_mesh = target_mesh,
              fe_envelope = envelope, fe_relayed_at = now, fe_ttl = DEFAULT_TTL\<rparr>)"

definition federation_forward ::
    "(chan \<Rightarrow> bool) \<Rightarrow> federation_router \<Rightarrow> string \<Rightarrow> 'j federation_envelope \<Rightarrow> timestamp
      \<Rightarrow> 'j federation_sent \<times> (federation_error, unit) result" where
  "federation_forward send_ok self target_mesh envelope now =
     (if fe_ttl envelope = 0 then ([], Err TtlExpired)
      else send_federation_envelope send_ok self target_mesh
             (envelope\<lparr>fe_ttl := fe_ttl envelope - 1, fe_relayed_at := now\<rparr>))"

definition should_accept :: "federation_router \<Rightarrow> 'j federation_envelope \<Rightarrow> bool" where
  "should_accept self envelope \<longleftrightarrow>
     fe_target_mesh envelope = fr_local_mesh_id self \<and> 0 < fe_ttl envelope"

definition linked_meshes :: "federation_router \<Rightarrow> mesh_link list" where
  "linked_meshes self = map ls_info (hm_values (fr_links self))"

definition is_linked :: "federation_router \<Rightarrow> string \<Rightarrow> bool" where
  "is_linked self remote_mesh_id \<longleftrightarrow> hm_contains_key (fr_links self) remote_mesh_id"

definition link_count :: "federation_router \<Rightarrow> nat" where
  "link_count self = hm_len (fr_links self)"

text \<open>
  \<open>federation_pair\<close>: the early return of either \<open>?\<close> leaves behind what was done before it.
\<close>
definition federation_pair ::
    "federation_router \<Rightarrow> federation_router \<Rightarrow> chan \<Rightarrow> chan \<Rightarrow> timestamp \<Rightarrow> timestamp
      \<Rightarrow> federation_router \<times> federation_router \<times> (federation_error, chan \<times> chan) result" where
  "federation_pair router_a router_b tx_a tx_b now1 now2 =
     (case link_mesh router_b (fr_local_mesh_id router_a) None tx_a now1 of
        (router_b', _, Inl e) \<Rightarrow> (router_a, router_b', Err e)
      | (router_b', _, Inr rx_a) \<Rightarrow>
          (case link_mesh router_a (fr_local_mesh_id router_b') None tx_b now2 of
             (router_a', _, Inl e) \<Rightarrow> (router_a', router_b', Err e)
           | (router_a', _, Inr rx_b) \<Rightarrow> (router_a', router_b', Ok (rx_a, rx_b))))"

section \<open>Links\<close>

definition links_ok :: "federation_router \<Rightarrow> bool" where
  "links_ok self \<longleftrightarrow> (\<forall>m s. hm_get (fr_links self) m = Some s \<longrightarrow>
     ml_mesh_id (ls_info s) = m \<and> m \<noteq> fr_local_mesh_id self)"

inductive federation_step :: "federation_router \<Rightarrow> federation_router \<Rightarrow> bool" where
  fed_link: "federation_step r (fst (link_mesh r m label tx now))"
| fed_unlink: "federation_step r (fst (unlink_mesh r m))"

inductive federation_reachable :: "string \<Rightarrow> federation_router \<Rightarrow> bool" for mesh where
  fed_start: "federation_reachable mesh (federation_router_new mesh)"
| fed_next: "federation_reachable mesh r \<Longrightarrow> federation_step r r' \<Longrightarrow> federation_reachable mesh r'"

lemma links_ok_link: "links_ok r \<Longrightarrow> links_ok (fst (link_mesh r m label tx now))"
  by (auto simp: links_ok_def link_mesh_def Let_def)

lemma links_ok_unlink: "links_ok r \<Longrightarrow> links_ok (fst (unlink_mesh r m))"
  by (auto simp: links_ok_def unlink_mesh_def split: option.splits if_splits)

lemma federation_step_local: "federation_step r r' \<Longrightarrow> fr_local_mesh_id r' = fr_local_mesh_id r"
  by (auto elim!: federation_step.cases simp: link_mesh_def unlink_mesh_def Let_def
      split: option.splits)

lemma federation_reachable_ok:
  "federation_reachable mesh r \<Longrightarrow> links_ok r \<and> fr_local_mesh_id r = mesh"
proof (induction rule: federation_reachable.induct)
  case fed_start
  then show ?case by (simp add: links_ok_def federation_router_new_def)
next
  case (fed_next r r')
  from fed_next.hyps(2) have "links_ok r'"
    by (cases rule: federation_step.cases) (use fed_next.IH links_ok_link links_ok_unlink in auto)
  with fed_next federation_step_local show ?case by auto
qed

text \<open>The links of a router, as a keyed store for the requests that pass the guards.\<close>
definition link_info :: "federation_router \<Rightarrow> string \<Rightarrow> mesh_link option" where
  "link_info r m = map_option ls_info (hm_get (fr_links r) m)"

lemma link_info_link:
  assumes "m \<noteq> fr_local_mesh_id r" "\<not> is_linked r m"
  shows "link_info (fst (link_mesh r m label tx now)) =
    (link_info r)(m \<mapsto> \<lparr>ml_mesh_id = m, ml_label = label, ml_linked_at = now\<rparr>)"
  using assms by (auto simp: link_mesh_def link_info_def is_linked_def Let_def fun_eq_iff)

lemma link_info_unlink: "link_info (fst (unlink_mesh r m)) = (link_info r)(m := None)"
  by (auto simp: unlink_mesh_def link_info_def fun_eq_iff split: option.splits)

section \<open>Multi-hop relaying\<close>

text \<open>
  An envelope forwarded along a path: each hop is a router, the mesh it forwards to and the time it
  does so; what a hop sends is what the next one receives.
\<close>
type_synonym hop = "federation_router \<times> string \<times> timestamp"

fun forward_path ::
    "(chan \<Rightarrow> bool) \<Rightarrow> hop list \<Rightarrow> 'j federation_envelope
      \<Rightarrow> (federation_error, 'j federation_envelope) result" where
  "forward_path send_ok [] envelope = Ok envelope"
| "forward_path send_ok ((r, target, now) # hops) envelope =
     (case federation_forward send_ok r target envelope now of
        (_, Inl e) \<Rightarrow> Err e
      | ([], Inr _) \<Rightarrow> Ok envelope
      | ((_, envelope') # _, Inr _) \<Rightarrow> forward_path send_ok hops envelope')"

definition hop_open :: "(chan \<Rightarrow> bool) \<Rightarrow> hop \<Rightarrow> bool" where
  "hop_open send_ok = (\<lambda>(r, target, _).
     case hm_get (fr_links r) target of None \<Rightarrow> False | Some l \<Rightarrow> send_ok (ls_tx l))"

lemma forward_open:
  assumes "hop_open ok (r, target, now)" "fe_ttl env \<noteq> 0"
  shows "\<exists>c. federation_forward ok r target env now =
    ([(c, env\<lparr>fe_ttl := fe_ttl env - 1, fe_relayed_at := now\<rparr>)], Ok ())"
  using assms by (auto simp: hop_open_def federation_forward_def send_federation_envelope_def
      split: option.splits)

lemma unat_pred: "(w :: u8) \<noteq> 0 \<Longrightarrow> unat (w - 1) = unat w - 1"
  by (metis unat_minus_one)

text \<open>A path over open links succeeds exactly when the counter covers it.\<close>
lemma forward_path_open:
  assumes "list_all (hop_open ok) hops"
  shows "forward_path ok hops env =
    (if length hops \<le> unat (fe_ttl env)
     then Ok (if hops = [] then env
              else env\<lparr>fe_ttl := fe_ttl env - of_nat (length hops),
                       fe_relayed_at := snd (snd (last hops))\<rparr>)
     else Err TtlExpired)"
  using assms
proof (induction hops arbitrary: env)
  case Nil
  then show ?case by simp
next
  case (Cons h hops)
  obtain r target now where h: "h = (r, target, now)" by (cases h)
  show ?case
  proof (cases "fe_ttl env = 0")
    case True
    then show ?thesis by (simp add: h federation_forward_def)
  next
    case False
    then have pos: "0 < unat (fe_ttl env)" by (simp add: unat_gt_0)
    from False Cons.prems obtain c where fwd: "federation_forward ok r target env now =
        ([(c, env\<lparr>fe_ttl := fe_ttl env - 1, fe_relayed_at := now\<rparr>)], Ok ())"
      using forward_open [of ok r target now env] by (auto simp: h)
    have "Suc (length hops) \<le> unat (fe_ttl env) \<longleftrightarrow> length hops \<le> unat (fe_ttl env - 1)"
      using pos by (auto simp: unat_pred [OF False])
    with Cons.prems Cons.IH [of "env\<lparr>fe_ttl := fe_ttl env - 1, fe_relayed_at := now\<rparr>"] show ?thesis
      by (simp add: h fwd algebra_simps)
  qed
qed

text \<open>Over any links: what a path delivers has paid one unit of the counter for each hop.\<close>
lemma forward_path_pays:
  assumes "forward_path ok hops env = Ok env'"
  shows "length hops \<le> unat (fe_ttl env)
    \<and> unat (fe_ttl env') = unat (fe_ttl env) - length hops
    \<and> fe_source_mesh env' = fe_source_mesh env \<and> fe_target_mesh env' = fe_target_mesh env
    \<and> fe_envelope env' = fe_envelope env"
  using assms
proof (induction hops arbitrary: env)
  case Nil
  then show ?case by simp
next
  case (Cons h hops)
  obtain r target now where h: "h = (r, target, now)" by (cases h)
  have nz: "fe_ttl env \<noteq> 0" and op: "hop_open ok h"
    using Cons.prems by (auto simp: h hop_open_def federation_forward_def
        send_federation_envelope_def split: if_splits option.splits)
  then have pos: "0 < unat (fe_ttl env)" by (simp add: unat_gt_0)
  obtain c where "federation_forward ok r target env now =
      ([(c, env\<lparr>fe_ttl := fe_ttl env - 1, fe_relayed_at := now\<rparr>)], Ok ())"
    using forward_open [of ok r target now env] op nz by (auto simp: h)
  with Cons.prems Cons.IH [of "env\<lparr>fe_ttl := fe_ttl env - 1, fe_relayed_at := now\<rparr>"] pos show ?case
    by (simp add: h unat_pred [OF nz]) linarith
qed

section \<open>Properties\<close>

text \<open>
  Links are consistent and never point home. In every router reached from \<open>new\<close> by linking and
  unlinking, each link is stored under the mesh id it reports, each mesh is listed once, and the
  local mesh is not among them; so every relay or forward to the local mesh fails, sending nothing.
\<close>
theorem federation_never_links_home:
  assumes "federation_reachable mesh r"
  shows "\<not> is_linked r mesh
     \<and> distinct (map ml_mesh_id (linked_meshes r))
     \<and> ml_mesh_id ` set (linked_meshes r) = {m. is_linked r m}
     \<and> link_count r = card {m. is_linked r m}
     \<and> federation_relay ok r mesh payload now = ([], Err SelfRelay)
     \<and> (\<exists>e. federation_forward ok r mesh env now = ([], Err e))"
proof -
  have ok: "links_ok r" and m: "fr_local_mesh_id r = mesh"
    using federation_reachable_ok [OF assms] by auto
  have ids: "map ml_mesh_id (linked_meshes r) = hm_keys (fr_links r)"
    using ok by (auto simp: linked_meshes_def hm_values_def hm_keys_def links_ok_def
        simp flip: hm_entries_iff)
  have keys: "set (hm_keys (fr_links r)) = {m. is_linked r m}"
    by (auto simp: is_linked_def hm_contains_key_dom)
  have "\<not> is_linked r mesh"
    using ok m unfolding links_ok_def is_linked_def hm_contains_key_def by blast
  moreover have "distinct (map ml_mesh_id (linked_meshes r))"
    by (simp add: ids)
  moreover have "ml_mesh_id ` set (linked_meshes r) = {m. is_linked r m}"
    unfolding keys [symmetric] ids [symmetric] by simp
  moreover have "link_count r = card {m. is_linked r m}"
    by (simp add: link_count_def hm_len_card flip: keys)
  moreover have "hm_get (fr_links r) mesh = None"
    using \<open>\<not> is_linked r mesh\<close> by (simp add: is_linked_def hm_contains_key_def)
  ultimately show ?thesis
    using m by (simp add: federation_relay_def federation_forward_def send_federation_envelope_def)
qed

theorem federation_never_links_home_witness:
  "\<not> is_linked (fst (link_mesh (federation_router_new ''mesh:a'') ''mesh:b'' None 1 10)) ''mesh:a''"
  by (rule conjunct1 [OF federation_never_links_home [OF fed_next [OF fed_start fed_link]]])

text \<open>
  C12: Loops are prevented. An envelope relayed by \<open>relay\<close> and forwarded along any sequence of hops,
  in any network and however the hops repeat, survives at most \<open>DEFAULT_TTL\<close> = 8 of them, its
  source, target and payload unchanged; over open links it survives exactly the paths of at most 8
  hops, is still accepted at its target after at most 7, and the ninth forward fails with
  \<open>TtlExpired\<close>.
\<close>
theorem relay_loop_bound:
  assumes "federation_relay ok r0 target payload now = ([(c, env)], Ok ())"
  shows "(case forward_path ok hops env of
            Inl e \<Rightarrow> True
          | Inr env' \<Rightarrow> length hops \<le> 8 \<and> unat (fe_ttl env') = 8 - length hops
              \<and> fe_source_mesh env' = fr_local_mesh_id r0 \<and> fe_target_mesh env' = target
              \<and> fe_envelope env' = payload
              \<and> (should_accept r env' \<longleftrightarrow> target = fr_local_mesh_id r \<and> length hops < 8))
     \<and> (list_all (hop_open ok) hops \<longrightarrow>
          (if length hops \<le> 8 then is_ok (forward_path ok hops env)
           else forward_path ok hops env = Err TtlExpired))"
proof -
  have "env = \<lparr>fe_source_mesh = fr_local_mesh_id r0, fe_target_mesh = target,
      fe_envelope = payload, fe_relayed_at = now, fe_ttl = 8\<rparr>"
    using assms by (simp add: federation_relay_def send_federation_envelope_def DEFAULT_TTL_def
        split: if_split_asm option.split_asm)
  then have env: "fe_ttl env = 8" "fe_source_mesh env = fr_local_mesh_id r0"
      "fe_target_mesh env = target" "fe_envelope env = payload"
    by simp_all
  have "case forward_path ok hops env of Inl e \<Rightarrow> True
    | Inr env' \<Rightarrow> length hops \<le> 8 \<and> unat (fe_ttl env') = 8 - length hops
        \<and> fe_source_mesh env' = fr_local_mesh_id r0 \<and> fe_target_mesh env' = target
        \<and> fe_envelope env' = payload
        \<and> (should_accept r env' \<longleftrightarrow> target = fr_local_mesh_id r \<and> length hops < 8)"
  proof (cases "forward_path ok hops env")
    case (Inr env')
    have "0 < fe_ttl env' \<longleftrightarrow> 0 < unat (fe_ttl env')"
      by (simp add: unat_gt_0 word_gt_0)
    with forward_path_pays [OF Inr] env Inr show ?thesis
      by (auto simp: should_accept_def)
  qed simp
  moreover have "list_all (hop_open ok) hops \<longrightarrow>
      (if length hops \<le> 8 then is_ok (forward_path ok hops env)
       else forward_path ok hops env = Err TtlExpired)"
    using forward_path_open [of ok hops env] env by simp
  ultimately show ?thesis ..
qed

definition linked_router :: "string \<Rightarrow> string \<Rightarrow> federation_router" where
  "linked_router m m' = fst (link_mesh (federation_router_new m) m' None 1 0)"

text \<open>Two meshes bouncing an envelope between them until it expires.\<close>
theorem relay_loop_bound_witness:
  "forward_path (\<lambda>_. True)
     (concat (replicate 5 [(linked_router ''b'' ''a'', ''a'', 1), (linked_router ''a'' ''b'', ''b'', 2)]))
     \<lparr>fe_source_mesh = ''a'', fe_target_mesh = ''c'', fe_envelope = (), fe_relayed_at = 0, fe_ttl = 8\<rparr>
   = Err TtlExpired"
proof -
  let ?hops = "concat (replicate 5
      [(linked_router ''b'' ''a'', ''a'', 1 :: int), (linked_router ''a'' ''b'', ''b'', 2)])"
  have "federation_relay (\<lambda>_. True) (linked_router ''a'' ''c'') ''c'' () 0 =
      ([(1, \<lparr>fe_source_mesh = ''a'', fe_target_mesh = ''c'', fe_envelope = (), fe_relayed_at = 0,
             fe_ttl = 8\<rparr>)], Ok ())"
    by (simp add: federation_relay_def linked_router_def link_mesh_def federation_router_new_def
        send_federation_envelope_def Let_def DEFAULT_TTL_def)
  from relay_loop_bound [OF this, of ?hops] show ?thesis
    by (simp add: hop_open_def linked_router_def link_mesh_def federation_router_new_def Let_def
        eval_nat_numeral)
qed

text \<open>
  Linking and unlinking. A link to a new remote mesh is stored with its label and time, is
  announced on the bus and can be relayed to at once; linking the same mesh again is refused without
  changing the link; unlinking returns the stored link, restores the links as they were, and after
  it relaying fails with \<open>LinkNotFound\<close>, as a second unlinking does.
\<close>
theorem link_lifecycle:
  assumes "m \<noteq> fr_local_mesh_id r" and "\<not> is_linked r m"
    and "link_mesh r m label tx now = (r', evs, res)"
    and "unlink_mesh r' m = (r'', evs', res')"
  defines "info \<equiv> \<lparr>ml_mesh_id = m, ml_label = label, ml_linked_at = now\<rparr>"
  shows "res = Ok tx \<and> link_info r' = (link_info r)(m \<mapsto> info)
     \<and> evs = [PatchReady (fr_local_mesh_id r) (''federation link established: '' @ m)]
     \<and> snd (federation_relay ok r' m payload now') = (if ok tx then Ok () else Err (RelayFailed m))
     \<and> link_mesh r' m label' tx' now' = (r', [], Err (LinkExists m))
     \<and> res' = Ok info \<and> link_info r'' = link_info r
     \<and> evs' = [PatchReady (fr_local_mesh_id r) (''federation link removed: '' @ m)]
     \<and> federation_relay ok r'' m payload now' = ([], Err (LinkNotFound m))
     \<and> unlink_mesh r'' m = (r'', [], Err (LinkNotFound m))"
proof -
  have r': "r' = fst (link_mesh r m label tx now)" and r'': "r'' = fst (unlink_mesh r' m)"
    using assms(3,4) by simp_all
  have none: "hm_get (fr_links r) m = None"
    using assms(2) by (simp add: is_linked_def hm_contains_key_def)
  have "link_info r m = None"
    using none by (simp add: link_info_def)
  then have "link_info r'' = link_info r"
    unfolding r'' r' link_info_unlink link_info_link [OF assms(1,2)] by (simp add: fun_upd_idem)
  moreover have "link_info r' = (link_info r)(m \<mapsto> info)"
    unfolding r' link_info_link [OF assms(1,2)] info_def ..
  moreover
  let ?r1 = "r\<lparr>fr_links := hm_insert m \<lparr>ls_info = info, ls_tx = tx\<rparr> (fr_links r)\<rparr>"
  have "link_mesh r m label tx now = (?r1,
      [PatchReady (fr_local_mesh_id r) (''federation link established: '' @ m)], Ok tx)"
    using assms(1) none by (simp add: link_mesh_def hm_contains_key_def Let_def info_def)
  then have 1: "r' = ?r1" "res = Ok tx"
      "evs = [PatchReady (fr_local_mesh_id r) (''federation link established: '' @ m)]"
    using assms(3) by simp_all
  have "unlink_mesh ?r1 m = (?r1\<lparr>fr_links := hm_remove m (fr_links ?r1)\<rparr>,
      [PatchReady (fr_local_mesh_id r) (''federation link removed: '' @ m)], Ok info)"
    by (simp add: unlink_mesh_def)
  then have 2: "r'' = ?r1\<lparr>fr_links := hm_remove m (fr_links ?r1)\<rparr>" "res' = Ok info"
      "evs' = [PatchReady (fr_local_mesh_id r) (''federation link removed: '' @ m)]"
    using assms(4) unfolding 1 by simp_all
  have "snd (federation_relay ok r' m payload now') = (if ok tx then Ok () else Err (RelayFailed m))"
    and "link_mesh r' m label' tx' now' = (r', [], Err (LinkExists m))"
    using assms(1) by (simp_all add: 1 federation_relay_def send_federation_envelope_def link_mesh_def)
  moreover have "federation_relay ok r'' m payload now' = ([], Err (LinkNotFound m))"
    and "unlink_mesh r'' m = (r'', [], Err (LinkNotFound m))"
    using assms(1) by (simp_all add: 2 federation_relay_def send_federation_envelope_def unlink_mesh_def)
  ultimately show ?thesis
    using 1 2 by simp
qed

theorem link_lifecycle_witness:
  "link_info (fst (unlink_mesh (fst (link_mesh (federation_router_new ''mesh:a'') ''mesh:b''
      (Some ''partner'') 1 10)) ''mesh:b'')) = link_info (federation_router_new ''mesh:a'')"
proof -
  let ?r = "federation_router_new ''mesh:a''"
  obtain r' evs res r'' evs' res' where
    l: "link_mesh ?r ''mesh:b'' (Some ''partner'') 1 10 = (r', evs, res)"
    and u: "unlink_mesh r' ''mesh:b'' = (r'', evs', res')"
    by (metis prod_cases3)
  have "''mesh:b'' \<noteq> fr_local_mesh_id ?r" "\<not> is_linked ?r ''mesh:b''"
    by (simp_all add: federation_router_new_def is_linked_def)
  from link_lifecycle [OF this l u, of "\<lambda>_. True" "()" 0 None 0] l u show ?thesis
    by (simp only: fst_conv)
qed

end
