(* ===== verification/Relay.thy ===== *)
theory Relay
  imports Hash_Map Events
begin

text \<open>
  Signaling (\<open>p2p/src/signal.rs\<close>) and the signal relay (\<open>p2p/src/relay.rs\<close>). A channel's two ends
  are one handle \<open>chan\<close>; \<open>send_ok c\<close> says whether a send on \<open>c\<close> succeeds, and what \<open>recv\<close> takes
  from a channel is the argument \<open>queued\<close> (\<open>None\<close> when the channel is closed and empty).
\<close>

section \<open>Signaling messages\<close>

record session_offer =
  so_from :: string
  so_to :: string
  so_sdp :: string

record session_answer =
  sa_from :: string
  sa_to :: string
  sa_sdp :: string

record ice_candidate =
  ic_from :: string
  ic_to :: string
  ic_candidate :: string
  ic_sdp_m_line_index :: u32

datatype signal_message =
    SigOffer session_offer
  | SigAnswer session_answer
  | SigIceCandidate ice_candidate

datatype signal_error = SigChannelClosed | SigUnknownPeer string

fun signal_error_msg :: "signal_error \<Rightarrow> string" where
  "signal_error_msg SigChannelClosed = ''signaling channel closed''"
| "signal_error_msg (SigUnknownPeer p) = ''unknown peer: '' @ p"

record signaling_channel =
  sc_tx :: chan
  sc_rx :: chan

definition signaling_new :: "chan \<Rightarrow> chan \<times> signaling_channel" where
  "signaling_new c = (c, \<lparr>sc_tx = c, sc_rx = c\<rparr>)"

definition signal_send ::
    "(chan \<Rightarrow> bool) \<Rightarrow> signaling_channel \<Rightarrow> signal_message
      \<Rightarrow> (chan \<times> signal_message) list \<times> (signal_error, unit) result" where
  "signal_send send_ok self msg =
     (if send_ok (sc_tx self) then ([(sc_tx self, msg)], Ok ()) else ([], Err SigChannelClosed))"

definition signal_recv ::
    "(chan \<Rightarrow> signal_message option) \<Rightarrow> signaling_channel \<Rightarrow> (signal_error, signal_message) result" where
  "signal_recv queued self = ok_or (queued (sc_rx self)) SigChannelClosed"

definition signal_sender :: "signaling_channel \<Rightarrow> chan" where
  "signal_sender self = sc_tx self"

definition signaling_pair :: "chan \<Rightarrow> chan \<Rightarrow> signaling_channel \<times> signaling_channel" where
  "signaling_pair a b = (\<lparr>sc_tx = b, sc_rx = a\<rparr>, \<lparr>sc_tx = a, sc_rx = b\<rparr>)"

definition relay_signal_stub :: "string \<Rightarrow> signal_message \<Rightarrow> (signal_error, unit) result" where
  "relay_signal_stub target_agent_id msg = Ok ()"

record ice_server =
  is_urls :: "string list"
  is_username :: "string option"
  is_credential :: "string option"

definition default_ice_servers :: "ice_server list" where
  "default_ice_servers =
     [\<lparr>is_urls = [''stun:stun.l.google.com:19302''], is_username = None, is_credential = None\<rparr>,
      \<lparr>is_urls = [''stun:stun1.l.google.com:19302''], is_username = None, is_credential = None\<rparr>]"

definition build_ice_config :: "ice_server list \<Rightarrow> ice_server list" where
  "build_ice_config turn_servers = default_ice_servers @ turn_servers"

fun signal_target :: "signal_message \<Rightarrow> string" where
  "signal_target (SigOffer m) = so_to m"
| "signal_target (SigAnswer m) = sa_to m"
| "signal_target (SigIceCandidate m) = ic_to m"

fun signal_source :: "signal_message \<Rightarrow> string" where
  "signal_source (SigOffer m) = so_from m"
| "signal_source (SigAnswer m) = sa_from m"
| "signal_source (SigIceCandidate m) = ic_from m"

section \<open>The relay\<close>

record signal_relay =
  sr_peers :: "(string, chan) hash_map"

definition signal_relay_new :: signal_relay where
  "signal_relay_new = \<lparr>sr_peers = hm_new\<rparr>"

text \<open>\<open>c\<close> is the channel \<open>mpsc::channel(buffer)\<close> makes; its receiver is returned.\<close>
definition relay_register :: "signal_relay \<Rightarrow> string \<Rightarrow> chan \<Rightarrow> signal_relay \<times> chan" where
  "relay_register self agent_id c =
     (self\<lparr>sr_peers := hm_insert agent_id c (sr_peers self)\<rparr>, c)"

definition relay_unregister :: "signal_relay \<Rightarrow> string \<Rightarrow> signal_relay \<times> bool" where
  "relay_unregister self agent_id =
     (self\<lparr>sr_peers := hm_remove agent_id (sr_peers self)\<rparr>,
      hm_get (sr_peers self) agent_id \<noteq> None)"

definition relay_send ::
    "(chan \<Rightarrow> bool) \<Rightarrow> signal_relay \<Rightarrow> signal_message
      \<Rightarrow> (chan \<times> signal_message) list \<times> event list \<times> (signal_error, unit) result" where
  "relay_send send_ok self msg =
     (let target = signal_target msg;
          source = signal_source msg
      in case hm_get (sr_peers self) target of
           None \<Rightarrow> ([], [], Err (SigUnknownPeer target))
         | Some tx \<Rightarrow>
             if send_ok tx then ([(tx, msg)], [SignalReceived source target], Ok ())
             else ([], [], Err SigChannelClosed))"

definition relay_is_registered :: "signal_relay \<Rightarrow> string \<Rightarrow> bool" where
  "relay_is_registered self agent_id \<longleftrightarrow> hm_contains_key (sr_peers self) agent_id"

definition relay_peer_count :: "signal_relay \<Rightarrow> nat" where
  "relay_peer_count self = hm_len (sr_peers self)"

definition registered_peers :: "signal_relay \<Rightarrow> string list" where
  "registered_peers self = hm_keys (sr_peers self)"

interpretation relay_store: keyed_store "\<lambda>r. hm_get (sr_peers r)" fst snd
    "\<lambda>(a, c) r. fst (relay_register r a c)" "\<lambda>a r. fst (relay_unregister r a)"
  by unfold_locales (auto simp: relay_register_def relay_unregister_def)

section \<open>Properties\<close>

text \<open>
  The relay routes every message to the last registration of its target and nowhere else. After
  any sequence of registrations a message is sent on the channel its target registered last, and
  announced with its source and target, when that channel is open; a closed channel or an unknown
  target gives the corresponding error, and nothing is sent or announced. After the target
  unregisters it is unknown.
\<close>
theorem relay_routes_to_last_registration:
  defines "register \<equiv> \<lambda>(a, c) r. fst (relay_register r a c)"
  shows "relay_send ok (fold register regs signal_relay_new) msg =
     (case find (\<lambda>r. fst r = signal_target msg) (rev regs) of
        None \<Rightarrow> ([], [], Err (SigUnknownPeer (signal_target msg)))
      | Some (_, c) \<Rightarrow>
          if ok c then ([(c, msg)], [SignalReceived (signal_source msg) (signal_target msg)], Ok ())
          else ([], [], Err SigChannelClosed))
     \<and> relay_send ok (fst (relay_unregister (fold register regs signal_relay_new) (signal_target msg))) msg
       = ([], [], Err (SigUnknownPeer (signal_target msg)))
     \<and> set (registered_peers (fold register regs signal_relay_new)) = fst ` set regs"
proof -
  let ?r = "fold register regs signal_relay_new"
  have view: "hm_get (sr_peers ?r) a =
      (case find (\<lambda>r. fst r = a) (rev regs) of None \<Rightarrow> None | Some x \<Rightarrow> Some (snd x))" for a
  proof -
    have "hm_get (sr_peers signal_relay_new) a = None"
      by (simp add: signal_relay_new_def)
    with relay_store.view_put_all [of regs signal_relay_new a] show ?thesis
      by (simp add: register_def split: option.splits)
  qed
  have "a \<in> dom (hm_get (sr_peers ?r)) \<longleftrightarrow> a \<in> fst ` set regs" for a
  proof -
    have "a \<in> dom (hm_get (sr_peers ?r)) \<longleftrightarrow> find (\<lambda>r. fst r = a) (rev regs) \<noteq> None"
      by (cases "find (\<lambda>r. fst r = a) (rev regs)") (simp_all add: dom_def view)
    also have "\<dots> \<longleftrightarrow> a \<in> fst ` set regs"
      unfolding find_None_iff by force
    finally show ?thesis .
  qed
  then have "set (registered_peers ?r) = fst ` set regs"
    by (auto simp: registered_peers_def)
  moreover have "relay_send ok (fst (relay_unregister ?r (signal_target msg))) msg
      = ([], [], Err (SigUnknownPeer (signal_target msg)))"
    by (simp add: relay_send_def relay_unregister_def Let_def)
  moreover have "relay_send ok ?r msg =
     (case find (\<lambda>r. fst r = signal_target msg) (rev regs) of
        None \<Rightarrow> ([], [], Err (SigUnknownPeer (signal_target msg)))
      | Some (_, c) \<Rightarrow>
          if ok c then ([(c, msg)], [SignalReceived (signal_source msg) (signal_target msg)], Ok ())
          else ([], [], Err SigChannelClosed))"
    by (simp add: relay_send_def view Let_def split: option.splits)
  ultimately show ?thesis by blast
qed

end
