(* ===== verification/Node.thy ===== *)
theory Node
  imports Auth Room_Sync Gossip Federation Relay Rooms Matchmaking
begin

text \<open>
  A mesh node (\<open>MeshNode\<close> of \<open>p2p/src/node.rs\<close>): the state of all subsystems of a node in one
  record. The subsystems share one event bus, so the events of an operation are those of the
  subsystem it calls.
\<close>

record ('kp, 'v) mesh_node =
  nd_agent_id :: string
  nd_mesh_id :: string
  nd_identity :: "'kp peer_identity"
  nd_registry :: mesh_registry
  nd_auth :: "'kp peer_authenticator"
  nd_rooms :: room_manager
  nd_state :: "'v room_state_sync"
  nd_gossip :: gossip_router
  nd_relay :: signal_relay
  nd_matchmaker :: matchmaker
  nd_federation :: federation_router

text \<open>\<open>None\<close> is the panic of \<open>clone_for_auth\<close> on a document that is not a key pair.\<close>
definition node_with_identity ::
    "'kp crypto_lib \<Rightarrow> string \<Rightarrow> string \<Rightarrow> 'kp peer_identity \<Rightarrow> ('kp, 'v) mesh_node option" where
  "node_with_identity lib agent_id mesh_id identity =
     (case clone_for_auth lib identity of
        None \<Rightarrow> None
      | Some auth_identity \<Rightarrow>
          Some \<lparr>nd_agent_id = agent_id, nd_mesh_id = mesh_id, nd_identity = identity,
                nd_registry = registry_new mesh_id,
                nd_auth = authenticator_new agent_id auth_identity,
                nd_rooms = room_manager_new mesh_id,
                nd_state = sync_new mesh_id,
                nd_gossip = gossip_router_new agent_id,
                nd_relay = signal_relay_new,
                nd_matchmaker = matchmaker_new mesh_id,
                nd_federation = federation_router_new mesh_id\<rparr>)"

definition node_new ::
    "'kp crypto_lib \<Rightarrow> string \<Rightarrow> string \<Rightarrow> bytes option
      \<Rightarrow> (crypto_error, ('kp, 'v) mesh_node) result option" where
  "node_new lib agent_id mesh_id rand =
     (case identity_generate lib rand of
        Inl e \<Rightarrow> Some (Err e)
      | Inr identity \<Rightarrow> map_option Ok (node_with_identity lib agent_id mesh_id identity))"

definition node_public_key :: "'kp crypto_lib \<Rightarrow> ('kp, 'v) mesh_node \<Rightarrow> public_key_bytes" where
  "node_public_key lib self = identity_public_key lib (nd_identity self)"

definition node_sign :: "'kp crypto_lib \<Rightarrow> ('kp, 'v) mesh_node \<Rightarrow> bytes \<Rightarrow> signature" where
  "node_sign lib self message = identity_sign lib (nd_identity self) message"

text \<open>One turn of the loop that \<open>start_gossip\<close> spawns: the gossip router's, on the node's registry.\<close>
definition node_gossip_tick ::
    "(chan \<Rightarrow> bool) \<Rightarrow> ('kp, 'v) mesh_node \<Rightarrow> gossip_sent \<times> (string \<times> gossip_error) list" where
  "node_gossip_tick send_ok self = periodic_gossip_tick send_ok (nd_gossip self) (nd_registry self)"

text \<open>A node with a generated identity starts, and shows the key its authenticator signs with.\<close>
lemma node_new_starts:
  assumes "identity_generate lib rand = Ok i"
  shows "\<exists>n. node_new lib a m rand = Some (Ok n) \<and> nd_identity n = i
    \<and> pa_identity (nd_auth n) = i \<and> nd_mesh_id n = m"
proof -
  have "clone_for_auth lib i = Some i"
    using assms by (intro clone_same identity_made_ok(1))
  with assms show ?thesis
    by (simp add: node_new_def node_with_identity_def authenticator_new_def)
qed

end
