(* ===== verification/Http.thy ===== *)
theory Http
  imports Hash_Map
begin

text \<open>
  What the handlers of the gateway (\<open>gateway/src/main.rs\<close>) share: the status codes they answer
  with, the error body, and the string routines of the standard library they use. The routines
  \<open>trim\<close> and \<open>to_lowercase\<close> are given on ASCII text; other bytes are left as they are.
\<close>

section \<open>Responses\<close>

datatype status_code =
    OK | CREATED | ACCEPTED | NO_CONTENT
  | BAD_REQUEST | UNAUTHORIZED | FORBIDDEN | NOT_FOUND | CONFLICT | GONE | MISDIRECTED_REQUEST
  | INTERNAL_SERVER_ERROR | BAD_GATEWAY

record error_response =
  er_error :: string
  er_detail :: string

type_synonym http_error = "status_code \<times> error_response"

definition http_err :: "status_code \<Rightarrow> string \<Rightarrow> string \<Rightarrow> http_error" where
  "http_err status error detail = (status, \<lparr>er_error = error, er_detail = detail\<rparr>)"

lemma fst_http_err [simp]: "fst (http_err s e d) = s"
  by (simp add: http_err_def)

lemma http_err_eq [simp]: "http_err s e d = http_err s' e' d' \<longleftrightarrow> s = s' \<and> e = e' \<and> d = d'"
  by (simp add: http_err_def)

section \<open>Strings\<close>

definition ascii_space :: "char \<Rightarrow> bool" where
  "ascii_space ch \<longleftrightarrow> (of_char ch :: nat) \<in> {9..13} \<or> (of_char ch :: nat) = 32"

definition str_trim :: "string \<Rightarrow> string" where
  "str_trim s = rev (dropWhile ascii_space (rev (dropWhile ascii_space s)))"

definition char_lower :: "char \<Rightarrow> char" where
  "char_lower ch =
     (let n = of_char ch :: nat in if n \<in> {65..90} then char_of (n + 32) else ch)"

definition to_lowercase :: "string \<Rightarrow> string" where
  "to_lowercase s = map char_lower s"

text \<open>\<open>s.split(sep)\<close> and \<open>segs.join(sep)\<close>.\<close>
fun str_split :: "char \<Rightarrow> string \<Rightarrow> string list" where
  "str_split sep [] = [[]]"
| "str_split sep (ch # s) =
     (if ch = sep then [] # str_split sep s
      else (case str_split sep s of [] \<Rightarrow> [[ch]] | seg # segs \<Rightarrow> (ch # seg) # segs))"

fun str_join :: "char \<Rightarrow> string list \<Rightarrow> string" where
  "str_join sep [] = []"
| "str_join sep [seg] = seg"
| "str_join sep (seg # seg' # segs) = seg @ sep # str_join sep (seg' # segs)"

lemma str_split_not_Nil [simp]: "str_split sep s \<noteq> []"
  by (induction s) (auto split: list.splits)

lemma str_split_no_sep: "seg \<in> set (str_split sep s) \<Longrightarrow> sep \<notin> set seg \<and> set seg \<subseteq> set s"
proof (induction s arbitrary: seg)
  case Nil
  then show ?case by simp
next
  case (Cons ch s)
  then show ?case
    by (cases "str_split sep s") (fastforce split: if_splits)+
qed

lemma str_split_append:
  "sep \<notin> set p \<Longrightarrow> str_split sep (p @ s) = (p @ hd (str_split sep s)) # tl (str_split sep s)"
  by (induction p) (auto split: list.splits)

lemma str_split_join:
  "segs \<noteq> [] \<Longrightarrow> (\<And>seg. seg \<in> set segs \<Longrightarrow> sep \<notin> set seg) \<Longrightarrow> str_split sep (str_join sep segs) = segs"
proof (induction sep segs rule: str_join.induct)
  case (2 sep seg)
  then show ?case using str_split_append [of sep seg "[]"] by simp
next
  case (3 sep seg seg' segs)
  then show ?case by (simp add: str_split_append)
qed simp

lemma str_join_split: "str_join sep (str_split sep s) = s"
proof (induction s)
  case Nil
  then show ?case by simp
next
  case (Cons ch s)
  then show ?case
    by (cases "str_split sep s"; cases "tl (str_split sep s)") auto
qed

lemma set_str_join: "set (str_join sep segs) \<subseteq> insert sep (\<Union> (set ` set segs))"
  by (induction sep segs rule: str_join.induct) auto

lemma set_str_trim: "set (str_trim s) \<subseteq> set s"
proof
  fix ch
  assume "ch \<in> set (str_trim s)"
  then have "ch \<in> set (dropWhile ascii_space (rev (dropWhile ascii_space s)))"
    by (simp add: str_trim_def)
  then have "ch \<in> set (rev (dropWhile ascii_space s))"
    by (rule set_dropWhileD)
  then have "ch \<in> set (dropWhile ascii_space s)"
    by simp
  then show "ch \<in> set s"
    by (rule set_dropWhileD)
qed

lemma str_trim_no_space:
  assumes "\<And>ch. ch \<in> set s \<Longrightarrow> \<not> ascii_space ch"
  shows "str_trim s = s"
proof -
  have "dropWhile ascii_space t = t" if "\<And>ch. ch \<in> set t \<Longrightarrow> \<not> ascii_space ch" for t
    using that by (cases t) auto
  from this [of s] this [of "rev s"] assms show ?thesis by (simp add: str_trim_def)
qed

lemma char_lower_idem: "char_lower (char_lower ch) = char_lower ch"
proof (cases "(of_char ch :: nat) \<in> {65..90}")
  case True
  then have "(of_char (char_of (of_char ch + 32 :: nat) :: char) :: nat) = of_char ch + 32"
    by simp
  with True show ?thesis by (simp add: char_lower_def Let_def)
next
  case False
  then show ?thesis unfolding char_lower_def Let_def by (simp only: False if_False)
qed

lemma to_lowercase_idem: "to_lowercase (to_lowercase s) = to_lowercase s"
  by (simp add: to_lowercase_def char_lower_idem comp_def)

end
