(* ===== verification/Social.thy ===== *)
theory Social
  imports Http
begin

text \<open>
  The social layer of the gateway (\<open>SocialStore\<close> and its handlers in \<open>gateway/src/main.rs\<close>):
  accounts, communities and their members, events, broadcasts and the feed. The store sits behind
  one mutex, so each handler is one atomic step. A handler is given the decoded request and the
  time, and returns the new store and its answer. The lookup by username can panic
  (\<open>expect\<close>); it returns \<open>None\<close> then.
\<close>

section \<open>Data\<close>

record user =
  us_id :: u64
  us_username :: string
  us_display_name :: string
  us_created_at :: timestamp

datatype community_visibility = Open | InviteOnly

record community =
  co_id :: u64
  co_slug :: string
  co_name :: string
  co_owner_user_id :: u64
  co_visibility :: community_visibility
  co_created_at :: timestamp

record mesh_event =
  me_id :: u64
  me_community_id :: u64
  me_creator_user_id :: u64
  me_title :: string
  me_starts_at :: timestamp
  me_description :: "string option"
  me_created_at :: timestamp

record broadcast =
  br_id :: u64
  br_sender_user_id :: u64
  br_community_ids :: "u64 list"
  br_message :: string
  br_created_at :: timestamp

record social_store =
  ss_next_user_id :: u64
  ss_next_community_id :: u64
  ss_next_event_id :: u64
  ss_next_broadcast_id :: u64
  ss_users :: "(u64, user) hash_map"
  ss_users_by_username :: "(string, u64) hash_map"
  ss_communities :: "(u64, community) hash_map"
  ss_memberships :: "(u64, u64 hash_set) hash_map"
  ss_events :: "mesh_event list"
  ss_broadcasts :: "broadcast list"

record register_account_request =
  ra_username :: string
  ra_display_name :: "string option"

record create_community_request =
  cc_owner_user_id :: u64
  cc_name :: string
  cc_slug :: "string option"
  cc_visibility :: community_visibility

record create_event_request =
  ce_creator_user_id :: u64
  ce_title :: string
  ce_starts_at :: timestamp
  ce_description :: "string option"

record create_broadcast_request =
  cb_sender_user_id :: u64
  cb_community_ids :: "u64 list"
  cb_message :: string

record feed_response =
  fd_communities :: "community list"
  fd_events :: "mesh_event list"
  fd_broadcasts :: "broadcast list"

section \<open>Handlers\<close>

definition social_default :: social_store where
  "social_default = \<lparr>ss_next_user_id = 0, ss_next_community_id = 0, ss_next_event_id = 0,
     ss_next_broadcast_id = 0, ss_users = hm_new, ss_users_by_username = hm_new,
     ss_communities = hm_new, ss_memberships = hm_new, ss_events = [], ss_broadcasts = []\<rparr>"

definition default_visibility :: community_visibility where
  "default_visibility = Open"

abbreviation show_u64 :: "u64 \<Rightarrow> string" where
  "show_u64 w \<equiv> show_nat (unat w)"

definition slug_char :: "char \<Rightarrow> char" where
  "slug_char ch =
     (if (of_char ch :: nat) \<in> {97..122} \<or> (of_char ch :: nat) \<in> {48..57} then ch else CHR ''-'')"

definition slugify :: "string \<Rightarrow> string" where
  "slugify input =
     str_join (CHR ''-'')
       (filter (\<lambda>seg. seg \<noteq> [])
         (str_split (CHR ''-'') (map slug_char (to_lowercase (str_trim input)))))"

definition register_account ::
    "social_store \<Rightarrow> register_account_request \<Rightarrow> timestamp
      \<Rightarrow> social_store \<times> (http_error, user) result" where
  "register_account store req now =
     (let username = to_lowercase (str_trim (ra_username req))
      in if length username < 3
         then (store, Err (http_err BAD_REQUEST ''invalid_username''
                 ''username must be at least 3 characters''))
         else if hm_contains_key (ss_users_by_username store) username
         then (store, Err (http_err CONFLICT ''username_taken''
                 (''username '' @ [CHR 0x27] @ username @ [CHR 0x27] @ '' already exists'')))
         else
           (let nid = ss_next_user_id store + 1;
                user = \<lparr>us_id = nid, us_username = username,
                        us_display_name = str_trim (unwrap_or (ra_display_name req) username),
                        us_created_at = now\<rparr>
            in (store\<lparr>ss_next_user_id := nid,
                      ss_users_by_username := hm_insert username nid (ss_users_by_username store),
                      ss_users := hm_insert nid user (ss_users store)\<rparr>,
                Ok user)))"

definition get_user_by_username ::
    "social_store \<Rightarrow> string \<Rightarrow> (http_error, user) result option" where
  "get_user_by_username store username =
     (case hm_get (ss_users_by_username store) (to_lowercase username) of
        None \<Rightarrow> Some (Err (http_err NOT_FOUND ''not_found''
                  (''user '' @ [CHR 0x27] @ username @ [CHR 0x27] @ '' not found'')))
      | Some user_id \<Rightarrow> map_option Ok (hm_get (ss_users store) user_id))"

definition community_slug :: "create_community_request \<Rightarrow> string" where
  "community_slug req =
     (case cc_slug req of Some s \<Rightarrow> slugify s | None \<Rightarrow> slugify (cc_name req))"

definition create_community ::
    "social_store \<Rightarrow> create_community_request \<Rightarrow> timestamp
      \<Rightarrow> social_store \<times> (http_error, community) result" where
  "create_community store req now =
     (if \<not> hm_contains_key (ss_users store) (cc_owner_user_id req)
      then (store, Err (http_err NOT_FOUND ''owner_not_found''
              (''owner user '' @ show_u64 (cc_owner_user_id req) @ '' does not exist'')))
      else
        (let slug = community_slug req
         in if slug = []
            then (store, Err (http_err BAD_REQUEST ''invalid_slug'' ''community slug cannot be empty''))
            else if list_ex (\<lambda>c. co_slug c = slug) (hm_values (ss_communities store))
            then (store, Err (http_err CONFLICT ''slug_taken''
                    (''community slug '' @ [CHR 0x27] @ slug @ [CHR 0x27] @ '' already exists'')))
            else
              (let nid = ss_next_community_id store + 1;
                   community = \<lparr>co_id = nid, co_slug = slug, co_name = cc_name req,
                                co_owner_user_id = cc_owner_user_id req,
                                co_visibility = cc_visibility req, co_created_at = now\<rparr>;
                   members = unwrap_or (hm_get (ss_memberships store) nid) hm_new
               in (store\<lparr>ss_next_community_id := nid,
                         ss_communities := hm_insert nid community (ss_communities store),
                         ss_memberships := hm_insert nid
                           (hm_insert (co_owner_user_id community) () members)
                           (ss_memberships store)\<rparr>,
                   Ok community))))"

definition list_communities :: "social_store \<Rightarrow> community list" where
  "list_communities store = hm_values (ss_communities store)"

definition join_community ::
    "social_store \<Rightarrow> u64 \<Rightarrow> u64 \<Rightarrow> social_store \<times> (http_error, status_code) result" where
  "join_community store community_id user_id =
     (if \<not> hm_contains_key (ss_users store) user_id
      then (store, Err (http_err NOT_FOUND ''user_not_found''
              (''user '' @ show_u64 user_id @ '' does not exist'')))
      else case hm_get (ss_communities store) community_id of
        None \<Rightarrow> (store, Err (http_err NOT_FOUND ''community_not_found''
                  (''community '' @ show_u64 community_id @ '' does not exist'')))
      | Some community \<Rightarrow>
          if co_visibility community = InviteOnly \<and> user_id \<noteq> co_owner_user_id community
          then (store, Err (http_err FORBIDDEN ''invite_required'' ''community is invite-only''))
          else
            (let members = unwrap_or (hm_get (ss_memberships store) community_id) hm_new
             in (store\<lparr>ss_memberships :=
                    hm_insert community_id (hm_insert user_id () members) (ss_memberships store)\<rparr>,
                 Ok NO_CONTENT)))"

definition list_community_members ::
    "social_store \<Rightarrow> u64 \<Rightarrow> (http_error, user list) result" where
  "list_community_members store community_id =
     (if \<not> hm_contains_key (ss_communities store) community_id
      then Err (http_err NOT_FOUND ''community_not_found''
             (''community '' @ show_u64 community_id @ '' does not exist''))
      else
        (let members = unwrap_or (hm_get (ss_memberships store) community_id) hm_new
         in Ok (List.map_filter (hm_get (ss_users store)) (hm_keys members))))"

definition create_event ::
    "social_store \<Rightarrow> u64 \<Rightarrow> create_event_request \<Rightarrow> timestamp
      \<Rightarrow> social_store \<times> (http_error, mesh_event) result" where
  "create_event store community_id req now =
     (case hm_get (ss_memberships store) community_id of
        None \<Rightarrow> (store, Err (http_err NOT_FOUND ''community_not_found''
                  (''community '' @ show_u64 community_id @ '' does not exist'')))
      | Some members \<Rightarrow>
          if \<not> hm_contains_key members (ce_creator_user_id req)
          then (store, Err (http_err FORBIDDEN ''not_member''
                  ''creator must be a member of the community''))
          else
            (let nid = ss_next_event_id store + 1;
                 ev = \<lparr>me_id = nid, me_community_id = community_id,
                       me_creator_user_id = ce_creator_user_id req, me_title = ce_title req,
                       me_starts_at = ce_starts_at req, me_description = ce_description req,
                       me_created_at = now\<rparr>
             in (store\<lparr>ss_next_event_id := nid, ss_events := ss_events store @ [ev]\<rparr>, Ok ev)))"

definition list_events :: "social_store \<Rightarrow> u64 \<Rightarrow> (http_error, mesh_event list) result" where
  "list_events store community_id =
     (if \<not> hm_contains_key (ss_communities store) community_id
      then Err (http_err NOT_FOUND ''community_not_found''
             (''community '' @ show_u64 community_id @ '' does not exist''))
      else Ok (filter (\<lambda>e. me_community_id e = community_id) (ss_events store)))"

text \<open>The loop over the target communities, with its early returns.\<close>
fun check_targets :: "social_store \<Rightarrow> u64 \<Rightarrow> u64 list \<Rightarrow> (http_error, unit) result" where
  "check_targets store sender [] = Ok ()"
| "check_targets store sender (community_id # ids) =
     (case hm_get (ss_memberships store) community_id of
        None \<Rightarrow> Err (http_err NOT_FOUND ''community_not_found''
                  (''community '' @ show_u64 community_id @ '' does not exist''))
      | Some members \<Rightarrow>
          if \<not> hm_contains_key members sender
          then Err (http_err FORBIDDEN ''not_member''
                 (''sender must be a member of community '' @ show_u64 community_id @ '' to broadcast''))
          else check_targets store sender ids)"

definition create_broadcast ::
    "social_store \<Rightarrow> create_broadcast_request \<Rightarrow> timestamp
      \<Rightarrow> social_store \<times> (http_error, broadcast) result" where
  "create_broadcast store req now =
     (if \<not> hm_contains_key (ss_users store) (cb_sender_user_id req)
      then (store, Err (http_err NOT_FOUND ''sender_not_found''
              (''sender user '' @ show_u64 (cb_sender_user_id req) @ '' does not exist'')))
      else if cb_community_ids req = []
      then (store, Err (http_err BAD_REQUEST ''invalid_targets''
              ''at least one community target is required''))
      else case check_targets store (cb_sender_user_id req) (cb_community_ids req) of
        Inl e \<Rightarrow> (store, Err e)
      | Inr _ \<Rightarrow>
          (let nid = ss_next_broadcast_id store + 1;
               br = \<lparr>br_id = nid, br_sender_user_id = cb_sender_user_id req,
                     br_community_ids = cb_community_ids req, br_message = cb_message req,
                     br_created_at = now\<rparr>
           in (store\<lparr>ss_next_broadcast_id := nid, ss_broadcasts := ss_broadcasts store @ [br]\<rparr>,
               Ok br)))"

definition list_broadcasts :: "social_store \<Rightarrow> broadcast list" where
  "list_broadcasts store = ss_broadcasts store"

definition joined_communities :: "social_store \<Rightarrow> u64 \<Rightarrow> u64 list" where
  "joined_communities store user_id =
     map fst (filter (\<lambda>(_, users). hm_contains_key users user_id) (hm_entries (ss_memberships store)))"

definition get_feed :: "social_store \<Rightarrow> u64 \<Rightarrow> (http_error, feed_response) result" where
  "get_feed store user_id =
     (if \<not> hm_contains_key (ss_users store) user_id
      then Err (http_err NOT_FOUND ''user_not_found''
             (''user '' @ show_u64 user_id @ '' does not exist''))
      else
        (let joined = joined_communities store user_id
         in Ok \<lparr>fd_communities = List.map_filter (hm_get (ss_communities store)) joined,
                fd_events = filter (\<lambda>e. me_community_id e \<in> set joined) (ss_events store),
                fd_broadcasts =
                  filter (\<lambda>b. list_ex (\<lambda>c. c \<in> set joined) (br_community_ids b))
                    (ss_broadcasts store)\<rparr>))"

end
