(* ===== verification/Social_Props.thy ===== *)
theory Social_Props
  imports Social
begin

text \<open>
  What the social layer promises: the invariant of the store, and what it gives the lookups, the
  invite-only communities and the feed. A counter of ids is a \<open>u64\<close> that wraps; the step relation
  therefore covers stores in which the user and community counters have not reached the maximum.
\<close>

section \<open>The invariant\<close>

definition accounts_ok :: "social_store \<Rightarrow> bool" where
  "accounts_ok s \<longleftrightarrow>
     (\<forall>u i. hm_get (ss_users_by_username s) u = Some i \<longrightarrow>
        (\<exists>x. hm_get (ss_users s) i = Some x \<and> us_username x = u))
     \<and> (\<forall>i x. hm_get (ss_users s) i = Some x \<longrightarrow>
          us_id x = i \<and> i \<le> ss_next_user_id s \<and> 3 \<le> length (us_username x)
          \<and> hm_get (ss_users_by_username s) (us_username x) = Some i)"

lemma accounts_okD:
  assumes "accounts_ok s"
  shows "hm_get (ss_users_by_username s) u = Some i \<Longrightarrow>
      \<exists>x. hm_get (ss_users s) i = Some x \<and> us_username x = u"
    and "hm_get (ss_users s) i = Some x \<Longrightarrow>
      us_id x = i \<and> i \<le> ss_next_user_id s \<and> 3 \<le> length (us_username x)
      \<and> hm_get (ss_users_by_username s) (us_username x) = Some i"
  using assms unfolding accounts_ok_def by blast+

definition members_ok :: "social_store \<Rightarrow> community \<Rightarrow> u64 hash_set \<Rightarrow> bool" where
  "members_ok s c ms \<longleftrightarrow>
     hm_contains_key ms (co_owner_user_id c)
     \<and> (\<forall>u. hm_contains_key ms u \<longrightarrow>
          hm_contains_key (ss_users s) u \<and> (co_visibility c = InviteOnly \<longrightarrow> u = co_owner_user_id c))"

definition community_ok :: "social_store \<Rightarrow> u64 \<Rightarrow> community \<Rightarrow> bool" where
  "community_ok s i c \<longleftrightarrow>
     co_id c = i \<and> co_slug c \<noteq> [] \<and> i \<le> ss_next_community_id s
     \<and> (\<exists>ms. hm_get (ss_memberships s) i = Some ms \<and> members_ok s c ms)"

definition communities_ok :: "social_store \<Rightarrow> bool" where
  "communities_ok s \<longleftrightarrow>
     (\<forall>i. hm_get (ss_communities s) i = None \<longleftrightarrow> hm_get (ss_memberships s) i = None)
     \<and> (\<forall>i c. hm_get (ss_communities s) i = Some c \<longrightarrow> community_ok s i c)
     \<and> (\<forall>i c j d. hm_get (ss_communities s) i = Some c \<longrightarrow> hm_get (ss_communities s) j = Some d
          \<longrightarrow> co_slug c = co_slug d \<longrightarrow> i = j)"

lemma communities_okD:
  assumes "communities_ok s"
  shows "hm_get (ss_communities s) i = None \<longleftrightarrow> hm_get (ss_memberships s) i = None"
    and "hm_get (ss_communities s) i = Some c \<Longrightarrow> community_ok s i c"
    and "hm_get (ss_communities s) i = Some c \<Longrightarrow> hm_get (ss_communities s) j = Some d \<Longrightarrow>
      co_slug c = co_slug d \<Longrightarrow> i = j"
  using assms unfolding communities_ok_def by blast+

definition is_member :: "social_store \<Rightarrow> u64 \<Rightarrow> u64 \<Rightarrow> bool" where
  "is_member s c u \<longleftrightarrow> (\<exists>ms. hm_get (ss_memberships s) c = Some ms \<and> hm_contains_key ms u)"

definition posts_ok :: "social_store \<Rightarrow> bool" where
  "posts_ok s \<longleftrightarrow>
     list_all (\<lambda>e. is_member s (me_community_id e) (me_creator_user_id e)) (ss_events s)
     \<and> list_all (\<lambda>b. br_community_ids b \<noteq> []
         \<and> list_all (\<lambda>c. is_member s c (br_sender_user_id b)) (br_community_ids b)) (ss_broadcasts s)"

definition social_ok :: "social_store \<Rightarrow> bool" where
  "social_ok s \<longleftrightarrow> accounts_ok s \<and> communities_ok s \<and> posts_ok s"

inductive social_step :: "social_store \<Rightarrow> social_store \<Rightarrow> bool" where
  soc_register: "ss_next_user_id s \<noteq> - 1 \<Longrightarrow> social_step s (fst (register_account s req now))"
| soc_community: "ss_next_community_id s \<noteq> - 1 \<Longrightarrow> social_step s (fst (create_community s creq now))"
| soc_join: "social_step s (fst (join_community s c u))"
| soc_event: "social_step s (fst (create_event s c ereq now))"
| soc_broadcast: "social_step s (fst (create_broadcast s breq now))"

inductive social_reachable :: "social_store \<Rightarrow> bool" where
  soc_start: "social_reachable social_default"
| soc_next: "social_reachable s \<Longrightarrow> social_step s s' \<Longrightarrow> social_reachable s'"

text \<open>Growing the users or the memberships keeps what refers to them.\<close>

lemma posts_ok_grow:
  assumes "posts_ok s" "ss_events s' = ss_events s" "ss_broadcasts s' = ss_broadcasts s"
    and "\<And>c u. is_member s c u \<Longrightarrow> is_member s' c u"
  shows "posts_ok s'"
  using assms by (auto simp: posts_ok_def list_all_iff)

lemma social_ok_register:
  assumes "social_ok s" "ss_next_user_id s \<noteq> - 1"
  shows "social_ok (fst (register_account s req now))"
proof (cases "snd (register_account s req now)")
  case (Inl e)
  then have "fst (register_account s req now) = s"
    by (auto simp: register_account_def Let_def split: if_splits)
  with assms show ?thesis by simp
next
  case (Inr x)
  let ?n = "ss_next_user_id s + 1" and ?s = "fst (register_account s req now)"
  have new: "?s = s\<lparr>ss_next_user_id := ?n,
      ss_users_by_username := hm_insert (us_username x) ?n (ss_users_by_username s),
      ss_users := hm_insert ?n x (ss_users s)\<rparr>"
    and x: "us_id x = ?n" "3 \<le> length (us_username x)"
      "hm_get (ss_users_by_username s) (us_username x) = None"
    using Inr by (auto simp: register_account_def Let_def hm_contains_key_def split: if_splits)
  have lt: "ss_next_user_id s < ?n"
    using assms(2) by (rule word_Suc_greater)
  have acc: "accounts_ok s" and com: "communities_ok s" and posts: "posts_ok s"
    using assms(1) by (auto simp: social_ok_def)
  have fresh: "hm_get (ss_users s) ?n = None"
  proof (rule ccontr)
    assume "hm_get (ss_users s) ?n \<noteq> None"
    then have "?n \<le> ss_next_user_id s"
      using acc by (auto simp: accounts_ok_def)
    with lt show False by simp
  qed
  have "accounts_ok ?s"
    unfolding accounts_ok_def
  proof (intro conjI allI impI, goal_cases)
    case (1 u i)
    then show ?case
      using accounts_okD(1) [OF acc, of u i] fresh by (auto simp: new split: if_splits)
  next
    case (2 i y)
    then show ?case
      using accounts_okD(2) [OF acc, of i y] x by (auto simp: new split: if_splits)
  next
    case (3 i y)
    then show ?case
      using accounts_okD(2) [OF acc, of i y] lt by (auto simp: new split: if_splits)
  next
    case (4 i y)
    then show ?case
      using accounts_okD(2) [OF acc, of i y] x by (auto simp: new split: if_splits)
  next
    case (5 i y)
    then show ?case
      using accounts_okD(2) [OF acc, of i y] x by (auto simp: new split: if_splits)
  qed
  moreover have "communities_ok ?s"
    using com unfolding new communities_ok_def community_ok_def members_ok_def by simp blast
  moreover have "posts_ok ?s"
    by (rule posts_ok_grow [OF posts]) (auto simp: new is_member_def)
  ultimately show ?thesis by (simp add: social_ok_def)
qed

lemma social_ok_community:
  assumes "social_ok s" "ss_next_community_id s \<noteq> - 1"
  shows "social_ok (fst (create_community s req now))"
proof (cases "snd (create_community s req now)")
  case (Inl e)
  then have "fst (create_community s req now) = s"
    by (auto simp: create_community_def Let_def split: if_splits)
  with assms show ?thesis by simp
next
  case (Inr x)
  let ?n = "ss_next_community_id s + 1" and ?s = "fst (create_community s req now)"
  let ?ms = "unwrap_or (hm_get (ss_memberships s) ?n) hm_new"
  have new: "?s = s\<lparr>ss_next_community_id := ?n, ss_communities := hm_insert ?n x (ss_communities s),
      ss_memberships := hm_insert ?n (hm_insert (co_owner_user_id x) () ?ms) (ss_memberships s)\<rparr>"
    and x: "co_id x = ?n" "co_slug x \<noteq> []" "hm_contains_key (ss_users s) (co_owner_user_id x)"
      "\<And>j d. hm_get (ss_communities s) j = Some d \<Longrightarrow> co_slug d \<noteq> co_slug x"
    using Inr by (auto simp: create_community_def Let_def list_ex_iff split: if_splits)
  have lt: "ss_next_community_id s < ?n"
    using assms(2) by (rule word_Suc_greater)
  have acc: "accounts_ok s" and com: "communities_ok s" and posts: "posts_ok s"
    using assms(1) by (auto simp: social_ok_def)
  have fresh1: "hm_get (ss_communities s) ?n = None"
  proof (rule ccontr)
    assume "hm_get (ss_communities s) ?n \<noteq> None"
    then obtain c where "hm_get (ss_communities s) ?n = Some c" by auto
    then have "?n \<le> ss_next_community_id s"
      using communities_okD(2) [OF com] unfolding community_ok_def by blast
    with lt show False by simp
  qed
  then have fresh: "hm_get (ss_memberships s) ?n = None"
    using communities_okD(1) [OF com] by simp
  have "accounts_ok ?s"
    using acc unfolding new accounts_ok_def by simp
  moreover have "community_ok ?s i c" if "hm_get (ss_communities ?s) i = Some c" for i c
  proof (cases "i = ?n")
    case True
    with that x fresh show ?thesis
      by (auto simp: new community_ok_def members_ok_def)
  next
    case False
    with that have "community_ok s i c"
      by (intro communities_okD(2) [OF com]) (simp add: new)
    with False lt show ?thesis
      by (auto simp: new community_ok_def members_ok_def)
  qed
  moreover have "i = j" if "hm_get (ss_communities ?s) i = Some c" "hm_get (ss_communities ?s) j = Some d"
      "co_slug c = co_slug d" for i j c d
    using that x(4) communities_okD(3) [OF com, of i c j d] by (auto simp: new split: if_splits)
  moreover have "hm_get (ss_communities ?s) i = None \<longleftrightarrow> hm_get (ss_memberships ?s) i = None" for i
    using communities_okD(1) [OF com, of i] by (simp add: new)
  ultimately have "accounts_ok ?s" "communities_ok ?s"
    unfolding communities_ok_def by blast+
  moreover have "posts_ok ?s"
    by (rule posts_ok_grow [OF posts]) (use fresh in \<open>auto simp: new is_member_def\<close>)
  ultimately show ?thesis by (simp add: social_ok_def)
qed

lemma social_ok_join:
  assumes "social_ok s"
  shows "social_ok (fst (join_community s c u))"
proof (cases "snd (join_community s c u)")
  case (Inl e)
  then have "fst (join_community s c u) = s"
    by (auto simp: join_community_def Let_def split: if_splits option.splits)
  with assms show ?thesis by simp
next
  case (Inr r)
  let ?s = "fst (join_community s c u)"
  have acc: "accounts_ok s" and com: "communities_ok s" and posts: "posts_ok s"
    using assms by (auto simp: social_ok_def)
  obtain x where x: "hm_get (ss_communities s) c = Some x" "hm_contains_key (ss_users s) u"
      "co_visibility x = InviteOnly \<Longrightarrow> u = co_owner_user_id x"
    using Inr by (auto simp: join_community_def Let_def split: if_splits option.splits)
  obtain ms where ms: "hm_get (ss_memberships s) c = Some ms" "members_ok s x ms"
    using communities_okD(2) [OF com x(1)] unfolding community_ok_def by blast
  have new: "?s = s\<lparr>ss_memberships := hm_insert c (hm_insert u () ms) (ss_memberships s)\<rparr>"
    using Inr x(1) ms(1) by (auto simp: join_community_def Let_def split: if_splits)
  have "accounts_ok ?s"
    using acc unfolding new accounts_ok_def by simp
  moreover have "community_ok ?s i d" if d: "hm_get (ss_communities ?s) i = Some d" for i d
  proof -
    have ok: "community_ok s i d"
      using d by (intro communities_okD(2) [OF com]) (simp add: new)
    show ?thesis
    proof (cases "i = c")
      case True
      then have "d = x" using d x(1) by (simp add: new)
      then have "members_ok ?s d (hm_insert u () ms)"
        using x ms(2) by (auto simp: members_ok_def new)
      with ok True show ?thesis by (simp add: community_ok_def new)
    next
      case False
      with ok show ?thesis by (simp add: community_ok_def members_ok_def new)
    qed
  qed
  moreover have "hm_get (ss_communities ?s) i = None \<longleftrightarrow> hm_get (ss_memberships ?s) i = None" for i
    using communities_okD(1) [OF com, of i] x(1) by (auto simp: new)
  moreover have "i = j" if "hm_get (ss_communities ?s) i = Some c" "hm_get (ss_communities ?s) j = Some d"
      "co_slug c = co_slug d" for i j c d
    using that communities_okD(3) [OF com, of i c j d] by (simp add: new)
  ultimately have "accounts_ok ?s" "communities_ok ?s"
    unfolding communities_ok_def by blast+
  moreover have "posts_ok ?s"
    by (rule posts_ok_grow [OF posts]) (use ms in \<open>auto simp: new is_member_def\<close>)
  ultimately show ?thesis by (simp add: social_ok_def)
qed

lemma check_targets_ok:
  "check_targets s u ids = Ok () \<longleftrightarrow> list_all (\<lambda>c. is_member s c u) ids"
  by (induction ids) (auto simp: is_member_def split: option.splits)

lemma social_ok_posts:
  assumes "social_ok s" "posts_ok s'"
    and "ss_users s' = ss_users s" "ss_users_by_username s' = ss_users_by_username s"
      "ss_next_user_id s' = ss_next_user_id s" "ss_next_community_id s' = ss_next_community_id s"
      "ss_communities s' = ss_communities s" "ss_memberships s' = ss_memberships s"
  shows "social_ok s'"
  using assms
  unfolding social_ok_def accounts_ok_def communities_ok_def community_ok_def members_ok_def by simp

lemma is_member_posts [simp]:
  "is_member (s\<lparr>ss_next_event_id := a, ss_events := es\<rparr>) c u = is_member s c u"
  "is_member (s\<lparr>ss_next_broadcast_id := a, ss_broadcasts := bs\<rparr>) c u = is_member s c u"
  by (simp_all add: is_member_def)

lemma social_ok_event:
  assumes "social_ok s"
  shows "social_ok (fst (create_event s c req now))"
proof (cases "snd (create_event s c req now)")
  case (Inl e)
  then have "fst (create_event s c req now) = s"
    by (auto simp: create_event_def Let_def split: if_splits option.splits)
  with assms show ?thesis by simp
next
  case (Inr e)
  let ?s = "fst (create_event s c req now)"
  have new: "?s = s\<lparr>ss_next_event_id := ss_next_event_id s + 1, ss_events := ss_events s @ [e]\<rparr>"
    and e: "is_member s (me_community_id e) (me_creator_user_id e)"
    using Inr by (auto simp: create_event_def Let_def is_member_def split: if_splits option.splits)
  have "posts_ok ?s"
    using assms e by (simp add: social_ok_def posts_ok_def new)
  then show ?thesis
    by (rule social_ok_posts [OF assms]) (simp_all add: new)
qed

lemma social_ok_broadcast:
  assumes "social_ok s"
  shows "social_ok (fst (create_broadcast s req now))"
proof (cases "snd (create_broadcast s req now)")
  case (Inl e)
  then have "fst (create_broadcast s req now) = s"
    by (auto simp: create_broadcast_def Let_def split: if_splits sum.splits)
  with assms show ?thesis by simp
next
  case (Inr b)
  let ?s = "fst (create_broadcast s req now)"
  have new: "?s = s\<lparr>ss_next_broadcast_id := ss_next_broadcast_id s + 1,
      ss_broadcasts := ss_broadcasts s @ [b]\<rparr>"
    and b: "br_community_ids b \<noteq> []"
      "check_targets s (br_sender_user_id b) (br_community_ids b) = Ok ()"
    using Inr by (auto simp: create_broadcast_def Let_def split: if_splits sum.splits)
  have "posts_ok ?s"
    using assms b by (simp add: social_ok_def posts_ok_def new check_targets_ok)
  then show ?thesis
    by (rule social_ok_posts [OF assms]) (simp_all add: new)
qed

lemma social_step_ok: "social_step s s' \<Longrightarrow> social_ok s \<Longrightarrow> social_ok s'"
  by (induction rule: social_step.induct)
    (auto intro: social_ok_register social_ok_community social_ok_join social_ok_event
      social_ok_broadcast)

lemma social_reachable_ok: "social_reachable s \<Longrightarrow> social_ok s"
proof (induction rule: social_reachable.induct)
  case soc_start
  show ?case
    by (simp add: social_ok_def accounts_ok_def communities_ok_def posts_ok_def social_default_def)
next
  case (soc_next s s')
  then show ?case by (blast intro: social_step_ok)
qed

section \<open>Slugs\<close>

definition slug_ok :: "char \<Rightarrow> bool" where
  "slug_ok ch \<longleftrightarrow> (of_char ch :: nat) \<in> {97..122} \<or> (of_char ch :: nat) \<in> {48..57}"

definition slug_segments :: "string \<Rightarrow> string list" where
  "slug_segments s =
     filter (\<lambda>seg. seg \<noteq> []) (str_split (CHR ''-'') (map slug_char (to_lowercase (str_trim s))))"

lemma slug_segments_ok:
  assumes "seg \<in> set (slug_segments s)"
  shows "seg \<noteq> []" and "\<And>ch. ch \<in> set seg \<Longrightarrow> slug_ok ch"
proof -
  have "seg \<noteq> []" and mem: "seg \<in> set (str_split (CHR ''-'') (map slug_char (to_lowercase (str_trim s))))"
    using assms by (auto simp: slug_segments_def)
  then show "seg \<noteq> []" by simp
  fix ch assume "ch \<in> set seg"
  then have "ch \<noteq> CHR ''-''" "ch \<in> slug_char ` set (to_lowercase (str_trim s))"
    using str_split_no_sep [OF mem] by auto
  then show "slug_ok ch"
    by (auto simp: slug_ok_def slug_char_def split: if_splits)
qed

lemma slugify_segments: "slugify s = str_join (CHR ''-'') (slug_segments s)"
  by (simp add: slugify_def slug_segments_def)

lemma slug_ok_facts:
  assumes "slug_ok ch"
  shows "slug_char ch = ch" "char_lower ch = ch" "\<not> ascii_space ch" "ch \<noteq> CHR ''-''"
  using assms by (auto simp: slug_ok_def slug_char_def char_lower_def ascii_space_def Let_def)

lemma dash_facts: "slug_char (CHR ''-'') = CHR ''-''" "char_lower (CHR ''-'') = CHR ''-''"
  "\<not> ascii_space (CHR ''-'')"
  by (simp_all add: slug_char_def char_lower_def ascii_space_def Let_def)

lemma slugify_chars: "ch \<in> set (slugify s) \<Longrightarrow> ch = CHR ''-'' \<or> slug_ok ch"
  using set_str_join [of "CHR ''-''" "slug_segments s"] slug_segments_ok(2) [of _ s]
  unfolding slugify_segments by fastforce

lemma slug_segments_slugify: "slugify s \<noteq> [] \<Longrightarrow> slug_segments (slugify s) = slug_segments s"
proof -
  assume ne: "slugify s \<noteq> []"
  then have segs: "slug_segments s \<noteq> []"
    by (auto simp: slugify_segments)
  have chars: "slug_char ch = ch" "char_lower ch = ch" "\<not> ascii_space ch" if "ch \<in> set (slugify s)" for ch
    using slugify_chars [OF that] slug_ok_facts dash_facts by auto
  then have "to_lowercase (str_trim (slugify s)) = slugify s"
    by (simp add: str_trim_no_space to_lowercase_def map_idI)
  with chars have "map slug_char (to_lowercase (str_trim (slugify s))) = slugify s"
    by (simp add: map_idI)
  moreover have "str_split (CHR ''-'') (slugify s) = slug_segments s"
    unfolding slugify_segments
    by (rule str_split_join [OF segs]) (use slug_segments_ok(2) slug_ok_facts(4) in blast)
  ultimately show ?thesis
    using slug_segments_ok(1) [of _ s] by (auto simp: slug_segments_def [of "slugify s"] intro!: filter_True)
qed

section \<open>Properties\<close>

text \<open>
  C19: Accounts and communities stay consistent. In every reachable store usernames are unique and
  indexed to their account, so the lookup by username never panics and finds the account under its
  name in any letter case; every community has a slug of its own and a member list that contains
  its owner and names only existing accounts; every event was created, and every broadcast sent, by
  a member of the communities it is in.
\<close>
theorem social_store_consistent:
  assumes "social_reachable s"
  shows "(\<exists>r. get_user_by_username s name = Some r \<and>
        (\<forall>x. r = Ok x \<longrightarrow> us_username x = to_lowercase name \<and> hm_get (ss_users s) (us_id x) = Some x))
     \<and> inj_on us_username (set (hm_values (ss_users s)))
     \<and> inj_on co_slug (set (hm_values (ss_communities s)))
     \<and> (\<forall>c. c \<in> set (list_communities s) \<longrightarrow>
          (\<exists>us. list_community_members s (co_id c) = Ok us \<and> co_owner_user_id c \<in> us_id ` set us
             \<and> set us = {x. hm_get (ss_users s) (us_id x) = Some x \<and> is_member s (co_id c) (us_id x)}))
     \<and> list_all (\<lambda>e. is_member s (me_community_id e) (me_creator_user_id e)) (ss_events s)
     \<and> list_all (\<lambda>b. list_all (\<lambda>c. is_member s c (br_sender_user_id b)) (br_community_ids b))
         (list_broadcasts s)"
proof -
  have acc: "accounts_ok s" and com: "communities_ok s" and posts: "posts_ok s"
    using social_reachable_ok [OF assms] by (auto simp: social_ok_def)
  have "\<exists>r. get_user_by_username s name = Some r \<and>
      (\<forall>x. r = Ok x \<longrightarrow> us_username x = to_lowercase name \<and> hm_get (ss_users s) (us_id x) = Some x)"
  proof (cases "hm_get (ss_users_by_username s) (to_lowercase name)")
    case None
    then show ?thesis by (simp add: get_user_by_username_def)
  next
    case (Some i)
    with accounts_okD(1) [OF acc Some] accounts_okD(2) [OF acc, of i] show ?thesis
      by (auto simp: get_user_by_username_def)
  qed
  moreover have "inj_on us_username (set (hm_values (ss_users s)))"
    by (rule inj_onI) (metis accounts_okD(2) [OF acc] in_hm_values_iff option.inject)
  moreover have "inj_on co_slug (set (hm_values (ss_communities s)))"
    by (rule inj_onI) (metis communities_okD(3) [OF com] in_hm_values_iff option.inject)
  moreover have "\<exists>us. list_community_members s (co_id c) = Ok us \<and> co_owner_user_id c \<in> us_id ` set us
      \<and> set us = {x. hm_get (ss_users s) (us_id x) = Some x \<and> is_member s (co_id c) (us_id x)}"
    if c: "c \<in> set (list_communities s)" for c
  proof -
    obtain i where i: "hm_get (ss_communities s) i = Some c"
      using c by (auto simp: list_communities_def)
    have id: "co_id c = i"
      using communities_okD(2) [OF com i] by (simp add: community_ok_def)
    obtain ms where ms: "hm_get (ss_memberships s) i = Some ms" "members_ok s c ms"
      using communities_okD(2) [OF com i] unfolding community_ok_def by blast
    let ?us = "List.map_filter (hm_get (ss_users s)) (hm_keys ms)"
    have us: "x \<in> set ?us \<longleftrightarrow> (\<exists>j. hm_contains_key ms j \<and> hm_get (ss_users s) j = Some x)" for x
      by (force simp: List.map_filter_def hm_contains_key_dom)
    then have "x \<in> set ?us \<longleftrightarrow> hm_contains_key ms (us_id x) \<and> hm_get (ss_users s) (us_id x) = Some x" for x
      using accounts_okD(2) [OF acc] by blast
    moreover have "co_owner_user_id c \<in> us_id ` set ?us"
    proof -
      obtain x where "hm_get (ss_users s) (co_owner_user_id c) = Some x"
        "hm_contains_key ms (co_owner_user_id c)"
        using ms(2) by (auto simp: members_ok_def hm_contains_key_def)
      then have "x \<in> set ?us" "us_id x = co_owner_user_id c"
        using us accounts_okD(2) [OF acc] by blast+
      then show ?thesis by (metis image_eqI)
    qed
    ultimately show ?thesis
      using ms(1) i id by (auto simp: list_community_members_def is_member_def hm_contains_key_def)
  qed
  moreover have "list_all (\<lambda>e. is_member s (me_community_id e) (me_creator_user_id e)) (ss_events s)"
    and "list_all (\<lambda>b. list_all (\<lambda>c. is_member s c (br_sender_user_id b)) (br_community_ids b))
      (list_broadcasts s)"
    using posts by (auto simp: posts_ok_def list_broadcasts_def list_all_iff)
  ultimately show ?thesis by blast
qed

text \<open>A store with one user, who owns an invite-only community.\<close>

definition demo_social1 :: social_store where
  "demo_social1 = fst (register_account social_default
     \<lparr>ra_username = ''alice'', ra_display_name = None\<rparr> 10)"

definition demo_social :: social_store where
  "demo_social = fst (create_community demo_social1
     \<lparr>cc_owner_user_id = 1, cc_name = ''My Club'', cc_slug = None, cc_visibility = InviteOnly\<rparr> 20)"

lemma demo_social_reachable: "social_reachable demo_social"
proof -
  have "social_reachable demo_social1"
    unfolding demo_social1_def
    by (rule soc_next [OF soc_start soc_register]) (simp add: social_default_def)
  moreover have "ss_next_community_id demo_social1 \<noteq> - 1"
    by code_simp
  ultimately show ?thesis
    unfolding demo_social_def by (blast intro: soc_next soc_community)
qed

theorem social_store_consistent_witness:
  "\<exists>r. get_user_by_username demo_social ''ALICE'' = Some r"
  using social_store_consistent [OF demo_social_reachable] by blast

text \<open>
  Nobody can be let into an invite-only community. There is no operation that invites, so in
  every reachable store an invite-only community has its owner as its only member, and any other
  account that asks to join is refused with 403, leaving the store as it was.
\<close>
theorem invite_only_stays_closed:
  assumes "social_reachable s"
    and "hm_get (ss_communities s) i = Some c" and "co_visibility c = InviteOnly"
  shows "{u. is_member s i u} = {co_owner_user_id c}
     \<and> (hm_contains_key (ss_users s) u \<and> u \<noteq> co_owner_user_id c \<longrightarrow>
          join_community s i u =
            (s, Err (http_err FORBIDDEN ''invite_required'' ''community is invite-only'')))"
proof -
  have com: "communities_ok s"
    using social_reachable_ok [OF assms(1)] by (simp add: social_ok_def)
  obtain ms where "hm_get (ss_memberships s) i = Some ms" "members_ok s c ms"
    using communities_okD(2) [OF com assms(2)] unfolding community_ok_def by blast
  then have "{u. is_member s i u} = {co_owner_user_id c}"
    using assms(3) by (auto simp: is_member_def members_ok_def)
  then show ?thesis
    using assms(2,3) by (simp add: join_community_def)
qed

theorem invite_only_stays_closed_witness:
  "\<exists>c. hm_get (ss_communities demo_social) 1 = Some c \<and> {u. is_member demo_social 1 u} = {co_owner_user_id c}"
proof -
  have "map_option co_visibility (hm_get (ss_communities demo_social) 1) = Some InviteOnly"
    by code_simp
  then obtain c where "hm_get (ss_communities demo_social) 1 = Some c" "co_visibility c = InviteOnly"
    by auto
  with invite_only_stays_closed [OF demo_social_reachable this] show ?thesis by blast
qed

text \<open>
  C26: The feed shows a user exactly what the memberships allow. For an existing user it lists the
  communities the user is a member of, all events of those communities and all broadcasts with one
  of them among their targets, and nothing else; a broadcast appears once however many of its
  communities the user is in.
\<close>
theorem feed_exact:
  assumes "social_reachable s" and "get_feed s u = Ok feed"
  shows "set (fd_communities feed) = {c. hm_get (ss_communities s) (co_id c) = Some c \<and> is_member s (co_id c) u}
     \<and> fd_events feed = filter (\<lambda>e. is_member s (me_community_id e) u) (ss_events s)
     \<and> fd_broadcasts feed = filter (\<lambda>b. \<exists>c. c \<in> set (br_community_ids b) \<and> is_member s c u) (ss_broadcasts s)"
proof -
  have com: "communities_ok s"
    using social_reachable_ok [OF assms(1)] by (simp add: social_ok_def)
  have joined: "c \<in> set (joined_communities s u) \<longleftrightarrow> is_member s c u" for c
    by (force simp: joined_communities_def is_member_def)
  have feed: "feed = \<lparr>fd_communities = List.map_filter (hm_get (ss_communities s)) (joined_communities s u),
      fd_events = filter (\<lambda>e. me_community_id e \<in> set (joined_communities s u)) (ss_events s),
      fd_broadcasts = filter (\<lambda>b. list_ex (\<lambda>c. c \<in> set (joined_communities s u)) (br_community_ids b))
        (ss_broadcasts s)\<rparr>"
    using assms(2) by (simp add: get_feed_def Let_def split: if_splits)
  have "c \<in> set (fd_communities feed) \<longleftrightarrow> (\<exists>i. is_member s i u \<and> hm_get (ss_communities s) i = Some c)" for c
    by (force simp: feed List.map_filter_def joined)
  then have "c \<in> set (fd_communities feed) \<longleftrightarrow>
      hm_get (ss_communities s) (co_id c) = Some c \<and> is_member s (co_id c) u" for c
    using communities_okD(2) [OF com] unfolding community_ok_def by blast
  then show ?thesis
    by (auto simp: feed joined list_ex_iff Bex_def)
qed

theorem feed_exact_witness:
  "\<exists>feed. get_feed demo_social 1 = Ok feed
     \<and> set (fd_communities feed)
       = {c. hm_get (ss_communities demo_social) (co_id c) = Some c \<and> is_member demo_social (co_id c) 1}"
proof -
  have "is_ok (get_feed demo_social 1)" by code_simp
  then obtain feed where "get_feed demo_social 1 = Ok feed" by (auto simp: is_ok_iff)
  with feed_exact [OF demo_social_reachable this] show ?thesis by blast
qed

text \<open>
  Slugs are well formed. \<open>slugify\<close> yields only lower-case letters, digits and single dashes,
  never at an end; it is empty exactly when the name has no letter or digit; and it leaves a slug
  as it is, so a client that sends back a slug gets the same community name.
\<close>
theorem slugify_well_formed:
  "set (slugify s) \<subseteq> {ch. slug_ok ch} \<union> {CHR ''-''}
   \<and> (slugify s \<noteq> [] \<longrightarrow> list_all (\<lambda>seg. seg \<noteq> []) (str_split (CHR ''-'') (slugify s)))
   \<and> (slugify s = [] \<longleftrightarrow> list_all (\<lambda>ch. \<not> slug_ok (char_lower ch)) (str_trim s))
   \<and> slugify (slugify s) = slugify s"
proof -
  have split: "str_split (CHR ''-'') (slugify s) = slug_segments s" if "slugify s \<noteq> []"
    unfolding slugify_segments using that slug_segments_ok(2) [of _ s] slug_ok_facts(4)
    by (intro str_split_join) (auto simp: slugify_segments)
  have "slugify s = [] \<longleftrightarrow> slug_segments s = []"
    using slug_segments_ok(1) [of _ s] unfolding slugify_segments
    by (cases "slug_segments s"; cases "tl (slug_segments s)") auto
  also have "\<dots> \<longleftrightarrow> list_all (\<lambda>ch. \<not> slug_ok (char_lower ch)) (str_trim s)"
  proof -
    let ?t = "map slug_char (to_lowercase (str_trim s))"
    have dash: "slug_char ch = CHR ''-'' \<longleftrightarrow> \<not> slug_ok ch" for ch
      using slug_ok_facts(1,4) [of ch] by (auto simp: slug_char_def slug_ok_def)
    have "(\<forall>seg\<in>set (str_split (CHR ''-'') t). seg = []) \<longleftrightarrow> (\<forall>ch\<in>set t. ch = CHR ''-'')" for t
    proof (induction t)
      case (Cons ch t)
      then show ?case by (cases "str_split (CHR ''-'') t") auto
    qed simp
    from this [of ?t] show ?thesis
      by (simp add: slug_segments_def filter_empty_conv list_all_iff to_lowercase_def dash)
  qed
  finally have empty: "slugify s = [] \<longleftrightarrow> list_all (\<lambda>ch. \<not> slug_ok (char_lower ch)) (str_trim s)" .
  have "slugify (slugify s) = slugify s"
  proof (cases "slugify s = []")
    case True
    then show ?thesis by (simp add: slugify_def str_trim_def to_lowercase_def)
  next
    case False
    then show ?thesis
      by (metis slug_segments_slugify slugify_segments)
  qed
  then show ?thesis
    using empty split slugify_chars slug_segments_ok(1) by (auto simp: list_all_iff)
qed

theorem slugify_well_formed_witness:
  "list_all (\<lambda>seg. seg \<noteq> []) (str_split (CHR ''-'') (slugify ''My  Club!''))"
proof -
  have "slugify ''My  Club!'' \<noteq> []" by code_simp
  then show ?thesis using slugify_well_formed by blast
qed

end
