(* ===== verification/Gateway.thy ===== *)
theory Gateway
  imports Node Social_Props
begin

text \<open>
  The envelope side of the gateway (\<open>gateway/src/main.rs\<close>): the envelope types, the policy check,
  the dispatch of an envelope to the subsystems of the node, the endpoint for federated envelopes,
  the signal relay and the authentication handshake. The rest of the HTTP surface is in
  \<open>Gateway_Api\<close>.

  \<^item> The JSON library and the parser and printer of times are parameters: the accessors the code uses
    of a \<open>Value\<close> (type variable \<open>'j\<close>) are the fields of \<open>json_lib\<close>.
  \<^item> A handler gets the gateway's state and the decoded request, and returns the new state, the
    events emitted and the answer. \<open>clk i\<close> is the \<open>i\<close>-th reading of the clock the handler makes,
    \<open>uuid\<close> the id it draws, \<open>c\<close> the channel it creates.
  \<^item> A send on an mpsc channel fails exactly when the receiver has been dropped. \<open>gw_dropped\<close> records
    the channels whose receiver a handler has dropped.
\<close>

section \<open>Parameters and state\<close>

datatype policy = Public | MeshOnly | Private

datatype intent = Announce | RequestMatch | Schedule | Offer

record sender =
  sd_agent_id :: string
  sd_mesh_id :: string

record 'j envelope =
  en_schema_version :: string
  en_intent :: intent
  en_capability :: string
  en_policy :: policy
  en_timestamp :: timestamp
  en_sender :: sender
  en_payload :: 'j
  en_signature :: "string option"
  en_signing_key :: "string option"
  en_expiry :: "timestamp option"

record 'j json_lib =
  j_get :: "'j \<Rightarrow> string \<Rightarrow> 'j option"
  j_as_str :: "'j \<Rightarrow> string option"
  j_as_array :: "'j \<Rightarrow> 'j list option"
  j_as_f64 :: "'j \<Rightarrow> f64 option"
  j_to_vec :: "'j \<Rightarrow> bytes option"
  j_envelope :: "'j \<Rightarrow> (string, 'j envelope) result"
  parse_time :: "string \<Rightarrow> timestamp option"
  to_rfc3339 :: "timestamp \<Rightarrow> string"

record ('kp, 'j) app_state =
  gw_node :: "('kp, 'j) mesh_node"
  gw_social :: social_store
  gw_dropped :: "chan list"

definition send_ok :: "('kp, 'j) app_state \<Rightarrow> chan \<Rightarrow> bool" where
  "send_ok gw c \<longleftrightarrow> c \<notin> set (gw_dropped gw)"

abbreviation on_node :: "(('kp, 'j) mesh_node \<Rightarrow> ('kp, 'j) mesh_node) \<Rightarrow> ('kp, 'j) app_state \<Rightarrow> ('kp, 'j) app_state" where
  "on_node f gw \<equiv> gw\<lparr>gw_node := f (gw_node gw)\<rparr>"

record route_response =
  rr_status :: string
  rr_intent :: intent
  rr_route :: string

definition PROTOCOL_VERSION :: string where
  "PROTOCOL_VERSION = ''0.1''"

definition quoted :: "string \<Rightarrow> string" where
  "quoted s = [CHR 0x27] @ s @ [CHR 0x27]"

section \<open>Policy\<close>

definition enforce_policy ::
    "('kp, 'j) app_state \<Rightarrow> 'j envelope \<Rightarrow> (http_error, unit) result" where
  "enforce_policy gw env =
     (case en_policy env of
        Public \<Rightarrow> Ok ()
      | MeshOnly \<Rightarrow>
          if sd_mesh_id (en_sender env) \<noteq> nd_mesh_id (gw_node gw)
          then Err (http_err FORBIDDEN ''policy_violation''
                 (''mesh-only policy: sender mesh '' @ quoted (sd_mesh_id (en_sender env))
                   @ '' does not match gateway mesh '' @ quoted (nd_mesh_id (gw_node gw))))
          else Ok ()
      | Private \<Rightarrow>
          if get_peer (nd_registry (gw_node gw)) (sd_agent_id (en_sender env)) = None
          then Err (http_err FORBIDDEN ''policy_violation''
                 (''private policy: sender '' @ quoted (sd_agent_id (en_sender env))
                   @ '' is not a registered peer''))
          else Ok ())"

section \<open>Dispatch\<close>

definition payload_str :: "'j json_lib \<Rightarrow> 'j \<Rightarrow> string \<Rightarrow> string option" where
  "payload_str js v k = Option.bind (j_get js v k) (j_as_str js)"

definition payload_time :: "'j json_lib \<Rightarrow> 'j \<Rightarrow> string \<Rightarrow> timestamp option" where
  "payload_time js v k = Option.bind (payload_str js v k) (parse_time js)"

definition parse_status :: "string \<Rightarrow> peer_status" where
  "parse_status s = (if s = ''busy'' then Busy else if s = ''away'' then Away else Available)"

definition route_announce ::
    "'j json_lib \<Rightarrow> ('kp, 'j) app_state \<Rightarrow> 'j envelope \<Rightarrow> chan \<Rightarrow> (nat \<Rightarrow> timestamp)
      \<Rightarrow> ('kp, 'j) app_state \<times> event list \<times> route_response" where
  "route_announce js gw env c clk =
     (let display_name = unwrap_or (payload_str js (en_payload env) ''display_name'') ''unknown'';
          status = parse_status (unwrap_or (payload_str js (en_payload env) ''status'') ''available'');
          supports = (case Option.bind (j_get js (en_payload env) ''supports'') (j_as_array js) of
                        None \<Rightarrow> []
                      | Some arr \<Rightarrow> List.map_filter (j_as_str js) arr);
          msg = \<lparr>am_agent_id = sd_agent_id (en_sender env), am_mesh_id = sd_mesh_id (en_sender env),
                 am_display_name = display_name, am_status = status, am_capabilities = supports\<rparr>;
          (registry, evs, _) = handle_announce (nd_registry (gw_node gw)) msg (clk 1);
          (relay, rx) = relay_register (nd_relay (gw_node gw)) (sd_agent_id (en_sender env)) c
      in (gw\<lparr>gw_node := (gw_node gw)\<lparr>nd_registry := registry, nd_relay := relay\<rparr>,
             gw_dropped := rx # gw_dropped gw\<rparr>,
          evs,
          \<lparr>rr_status = ''accepted'', rr_intent = Announce, rr_route = ''announce_router''\<rparr>))"

definition route_request_match ::
    "'j json_lib \<Rightarrow> ('kp, 'j) app_state \<Rightarrow> 'j envelope \<Rightarrow> string \<Rightarrow> (nat \<Rightarrow> timestamp)
      \<Rightarrow> ('kp, 'j) app_state \<times> event list \<times> route_response" where
  "route_request_match js gw env uuid clk =
     (let p = en_payload env;
          game = unwrap_or (payload_str js p ''game'') '''';
          skill = (\<lambda>k d. unwrap_or (Option.bind (Option.bind (j_get js p ''skill_range'')
                     (\<lambda>v. j_get js v k)) (j_as_f64 js)) d);
          window = (\<lambda>k d. unwrap_or (Option.bind (j_get js p ''time_window'')
                     (\<lambda>v. payload_time js v k)) d);
          (mm, evs, _) = submit_request (nd_matchmaker (gw_node gw)) (sd_agent_id (en_sender env)) game
             \<lparr>skr_min = skill ''min'' (Finite 0), skr_max = skill ''max'' (Finite 100)\<rparr>
             \<lparr>tw_start = window ''start'' (clk 1), tw_end = window ''end'' (clk 2)\<rparr> uuid (clk 3)
      in (on_node (nd_matchmaker_update (\<lambda>_. mm)) gw,
          evs,
          \<lparr>rr_status = ''accepted'', rr_intent = RequestMatch, rr_route = ''request_match_router''\<rparr>))"

definition route_schedule ::
    "'j json_lib \<Rightarrow> ('kp, 'j) app_state \<Rightarrow> 'j envelope \<Rightarrow> string \<Rightarrow> (nat \<Rightarrow> timestamp)
      \<Rightarrow> ('kp, 'j) app_state \<times> event list \<times> route_response" where
  "route_schedule js gw env uuid clk =
     (let p = en_payload env;
          slot_start = unwrap_or (payload_time js p ''slot_start'') (clk 1);
          slot_end = unwrap_or (payload_time js p ''slot_end'') (clk 2);
          slot_state = unwrap_or (payload_str js p ''state'') ''proposed'';
          (mm, evs, slot) = propose_slot (nd_matchmaker (gw_node gw)) (sd_agent_id (en_sender env))
             slot_start slot_end uuid (clk 3);
          (mm', evs', _) = (if slot_state = ''confirmed'' then confirm_slot mm (sl_schedule_id slot)
             else if slot_state = ''declined'' then decline_slot mm (sl_schedule_id slot)
             else (mm, [], Ok slot))
      in (on_node (nd_matchmaker_update (\<lambda>_. mm')) gw,
          evs @ evs',
          \<lparr>rr_status = ''accepted'', rr_intent = Schedule, rr_route = ''schedule_router''\<rparr>))"

definition route_offer ::
    "'j json_lib \<Rightarrow> ('kp, 'j) app_state \<Rightarrow> 'j envelope \<Rightarrow> (nat \<Rightarrow> timestamp)
      \<Rightarrow> ('kp, 'j) app_state \<times> event list \<times> route_response" where
  "route_offer js gw env clk =
     (let p = en_payload env;
          offer_id = unwrap_or (payload_str js p ''offer_id'') '''';
          summary = unwrap_or (payload_str js p ''summary'') '''';
          expires_at = unwrap_or (payload_time js p ''expires_at'') (clk 1);
          (mm, evs, _) = submit_offer (nd_matchmaker (gw_node gw)) (sd_agent_id (en_sender env))
             offer_id summary expires_at (clk 2)
      in (on_node (nd_matchmaker_update (\<lambda>_. mm)) gw,
          evs,
          \<lparr>rr_status = ''accepted'', rr_intent = Offer, rr_route = ''offer_router''\<rparr>))"

definition dispatch_intent ::
    "'j json_lib \<Rightarrow> ('kp, 'j) app_state \<Rightarrow> 'j envelope \<Rightarrow> chan \<Rightarrow> string \<Rightarrow> (nat \<Rightarrow> timestamp)
      \<Rightarrow> ('kp, 'j) app_state \<times> event list \<times> route_response" where
  "dispatch_intent js gw env c uuid clk =
     (case en_intent env of
        Announce \<Rightarrow> route_announce js gw env c clk
      | RequestMatch \<Rightarrow> route_request_match js gw env uuid clk
      | Schedule \<Rightarrow> route_schedule js gw env uuid clk
      | Offer \<Rightarrow> route_offer js gw env clk)"

section \<open>Receiving an envelope\<close>

definition check_version :: "'j envelope \<Rightarrow> (http_error, unit) result" where
  "check_version env =
     (if en_schema_version env \<noteq> PROTOCOL_VERSION
      then Err (http_err BAD_REQUEST ''invalid_schema_version''
             (''unsupported schema_version '' @ quoted (en_schema_version env)
               @ '', expected '' @ quoted PROTOCOL_VERSION))
      else Ok ())"

definition check_expiry :: "'j json_lib \<Rightarrow> 'j envelope \<Rightarrow> timestamp \<Rightarrow> (http_error, unit) result" where
  "check_expiry js env now =
     (case en_expiry env of
        None \<Rightarrow> Ok ()
      | Some expiry \<Rightarrow>
          if expiry < now
          then Err (http_err GONE ''envelope_expired'' (''envelope expired at '' @ to_rfc3339 js expiry))
          else Ok ())"

definition check_signature ::
    "'kp crypto_lib \<Rightarrow> 'j json_lib \<Rightarrow> ('kp, 'j) app_state \<Rightarrow> 'j envelope
      \<Rightarrow> (http_error, unit) result" where
  "check_signature lib js gw env =
     (case en_signature env of
        None \<Rightarrow> Ok ()
      | Some sig_str \<Rightarrow>
          (case get_authenticated (nd_auth (gw_node gw)) (sd_agent_id (en_sender env)) of
             None \<Rightarrow> Ok ()
           | Some peer \<Rightarrow>
               if \<not> is_ok (crypto_verify lib (ap_public_key peer)
                        (unwrap_or (j_to_vec js (en_payload env)) []) \<lparr>sig_sig = sig_str\<rparr>)
               then Err (http_err UNAUTHORIZED ''signature_invalid''
                      ''envelope signature verification failed'')
               else Ok ()))"

definition route_envelope ::
    "'kp crypto_lib \<Rightarrow> 'j json_lib \<Rightarrow> ('kp, 'j) app_state \<Rightarrow> 'j envelope
      \<Rightarrow> chan \<Rightarrow> string \<Rightarrow> (nat \<Rightarrow> timestamp)
      \<Rightarrow> ('kp, 'j) app_state \<times> event list \<times> (http_error, status_code \<times> route_response) result" where
  "route_envelope lib js gw env c uuid clk =
     (case check_version env of
        Inl e \<Rightarrow> (gw, [], Err e)
      | Inr _ \<Rightarrow>
     (case check_expiry js env (clk 0) of
        Inl e \<Rightarrow> (gw, [], Err e)
      | Inr _ \<Rightarrow>
     (case enforce_policy gw env of
        Inl e \<Rightarrow> (gw, [], Err e)
      | Inr _ \<Rightarrow>
     (case check_signature lib js gw env of
        Inl e \<Rightarrow> (gw, [], Err e)
      | Inr _ \<Rightarrow>
          (let (gw', evs, response) = dispatch_intent js gw env c uuid clk
           in (gw', evs, Ok (ACCEPTED, response)))))))"

section \<open>Receiving a federated envelope\<close>

definition gw_federation_relay ::
    "'j json_lib \<Rightarrow> ('kp, 'j) app_state \<Rightarrow> 'j federation_envelope
      \<Rightarrow> chan \<Rightarrow> string \<Rightarrow> (nat \<Rightarrow> timestamp)
      \<Rightarrow> ('kp, 'j) app_state \<times> event list \<times> 'j federation_sent
         \<times> (http_error, status_code \<times> route_response) result" where
  "gw_federation_relay js gw body c uuid clk =
     (let fed = nd_federation (gw_node gw)
      in if \<not> should_accept fed body
         then
           if is_linked fed (fe_target_mesh body)
           then
             (case federation_forward (send_ok gw) fed (fe_target_mesh body) body (clk 0) of
                (sent, Inl e) \<Rightarrow>
                  (gw, [], sent, Err (http_err BAD_GATEWAY ''federation_forward_error''
                                        (federation_error_msg e)))
              | (sent, Inr _) \<Rightarrow>
                  (gw, [], sent, Ok (ACCEPTED, \<lparr>rr_status = ''forwarded'', rr_intent = Announce,
                                                rr_route = ''federation_forward''\<rparr>)))
           else
             (gw, [], [], Err (http_err MISDIRECTED_REQUEST ''wrong_mesh''
                (''envelope targets mesh '' @ quoted (fe_target_mesh body)
                  @ '', this node serves '' @ quoted (nd_mesh_id (gw_node gw)))))
         else
           (case j_envelope js (fe_envelope body) of
              Inl e \<Rightarrow>
                (gw, [], [], Err (http_err BAD_REQUEST ''invalid_federated_envelope''
                                    (''inner envelope parse error: '' @ e)))
            | Inr env \<Rightarrow>
                (case check_version env of
                   Inl e \<Rightarrow> (gw, [], [], Err e)
                 | Inr _ \<Rightarrow>
                     (let (gw', evs, response) = dispatch_intent js gw env c uuid clk
                      in (gw', evs, [], Ok (ACCEPTED, response))))))"

section \<open>Federation links\<close>

text \<open>The receiver of the link's channel is dropped when the handler returns.\<close>
definition create_federation_link ::
    "('kp, 'j) app_state \<Rightarrow> string \<Rightarrow> string option \<Rightarrow> chan \<Rightarrow> timestamp
      \<Rightarrow> ('kp, 'j) app_state \<times> event list \<times> (http_error, status_code \<times> string \<times> string) result" where
  "create_federation_link gw mesh_id label c now =
     (case link_mesh (nd_federation (gw_node gw)) mesh_id label c now of
        (fed, evs, Inl e) \<Rightarrow>
          (on_node (nd_federation_update (\<lambda>_. fed)) gw, evs,
           Err (http_err (case e of LinkExists _ \<Rightarrow> CONFLICT | SelfRelay \<Rightarrow> BAD_REQUEST
                          | _ \<Rightarrow> INTERNAL_SERVER_ERROR)
                  ''federation_link_error'' (federation_error_msg e)))
      | (fed, evs, Inr rx) \<Rightarrow>
          ((on_node (nd_federation_update (\<lambda>_. fed)) gw)\<lparr>gw_dropped := rx # gw_dropped gw\<rparr>, evs,
           Ok (CREATED, ''linked'', mesh_id)))"

definition remove_federation_link ::
    "('kp, 'j) app_state \<Rightarrow> string
      \<Rightarrow> ('kp, 'j) app_state \<times> event list \<times> (http_error, string \<times> string) result" where
  "remove_federation_link gw mesh_id =
     (let (fed, evs, res) = unlink_mesh (nd_federation (gw_node gw)) mesh_id
      in (on_node (nd_federation_update (\<lambda>_. fed)) gw, evs,
          map_ok (\<lambda>_. (''unlinked'', mesh_id))
            (map_err (\<lambda>e. http_err NOT_FOUND ''federation_unlink_error'' (federation_error_msg e)) res)))"

section \<open>Signal relay\<close>

definition gw_relay_signal ::
    "('kp, 'j) app_state \<Rightarrow> signal_message
      \<Rightarrow> (chan \<times> signal_message) list \<times> event list \<times> (http_error, status_code) result" where
  "gw_relay_signal gw msg =
     (let (sent, evs, res) = relay_send (send_ok gw) (nd_relay (gw_node gw)) msg
      in (sent, evs,
          map_ok (\<lambda>_. ACCEPTED)
            (map_err (\<lambda>e. http_err NOT_FOUND ''relay_failed'' (signal_error_msg e)) res)))"

section \<open>Authentication\<close>

definition auth_hello_handler ::
    "'kp crypto_lib \<Rightarrow> ('kp, 'j) app_state \<Rightarrow> auth_hello \<Rightarrow> random_source
      \<Rightarrow> ('kp, 'j) app_state \<times> (http_error, auth_challenge) result" where
  "auth_hello_handler lib gw body rand =
     (let (auth, res) = handle_hello lib (nd_auth (gw_node gw)) body rand
      in (on_node (nd_auth_update (\<lambda>_. auth)) gw,
          map_err (\<lambda>e. http_err BAD_REQUEST ''auth_error'' (auth_error_msg e)) res))"

record auth_respond_request =
  arr_response :: auth_response
  arr_public_key :: public_key_bytes

definition auth_respond ::
    "'kp crypto_lib \<Rightarrow> ('kp, 'j) app_state \<Rightarrow> auth_respond_request
      \<Rightarrow> ('kp, 'j) app_state \<times> (http_error, string \<times> string) result" where
  "auth_respond lib gw body =
     (let agent_id = ar_agent_id (arr_response body);
          (auth, res) = handle_response lib (nd_auth (gw_node gw)) (arr_response body)
                          (arr_public_key body)
      in (on_node (nd_auth_update (\<lambda>_. auth)) gw,
          map_ok (\<lambda>_. (''authenticated'', agent_id))
            (map_err (\<lambda>e. http_err
                (case e of AuthVerificationFailed \<Rightarrow> UNAUTHORIZED
                 | NoPendingChallenge _ \<Rightarrow> BAD_REQUEST
                 | _ \<Rightarrow> INTERNAL_SERVER_ERROR)
                ''auth_error'' (auth_error_msg e)) res)))"

definition list_authenticated_peers :: "('kp, 'j) app_state \<Rightarrow> string list" where
  "list_authenticated_peers gw = map ap_agent_id (authenticated_peers (nd_auth (gw_node gw)))"

end
