(* ===== verification/Gateway_Api.thy ===== *)
theory Gateway_Api
  imports Gateway
begin

text \<open>
  The remaining endpoints of the gateway (\<open>gateway/src/main.rs\<close>): peers, gossip, rooms, room state,
  match requests, schedules, offers and maintenance. Each calls one operation of the node and turns
  its error into a response; what the reading endpoints add is written out, what they only pass on
  is the operation of the subsystem.
\<close>

abbreviation with_err ::
    "status_code \<Rightarrow> string \<Rightarrow> ('e \<Rightarrow> string) \<Rightarrow> ('e, 'a) result \<Rightarrow> (http_error, 'a) result" where
  "with_err status error msg \<equiv> map_err (\<lambda>e. http_err status error (msg e))"

section \<open>Peers and gossip\<close>

record peer_search_query =
  psq_capability :: "string option"
  psq_status :: "string option"
  psq_mesh_id :: "string option"

definition gw_search_peers :: "('kp, 'j) app_state \<Rightarrow> peer_search_query \<Rightarrow> peer_entry list" where
  "gw_search_peers gw params =
     search_peers (nd_registry (gw_node gw))
       \<lparr>pq_status = map_option parse_status (psq_status params),
        pq_capability = psq_capability params, pq_mesh_id = psq_mesh_id params\<rparr>"

definition gw_list_peers :: "('kp, 'j) app_state \<Rightarrow> peer_entry list" where
  "gw_list_peers gw = list_peers (nd_registry (gw_node gw))"

fun gossip_exchange ::
    "('kp, 'j) app_state \<Rightarrow> gossip_message
      \<Rightarrow> ('kp, 'j) app_state \<times> event list \<times> string \<times> gossip_message option" where
  "gossip_exchange gw (Pull pull) =
     (gw, [], ''ok'', Some (Push (handle_gossip_pull (nd_registry (gw_node gw)) pull)))"
| "gossip_exchange gw (Push push) =
     (let (registry, evs) = merge_gossip_push (nd_registry (gw_node gw)) push
      in (on_node (nd_registry_update (\<lambda>_. registry)) gw, evs, ''ok'', None))"

definition gossip_status :: "('kp, 'j) app_state \<Rightarrow> string \<times> nat \<times> nat" where
  "gossip_status gw =
     (gr_node_id (nd_gossip (gw_node gw)), gossip_peer_count (nd_gossip (gw_node gw)),
      registry_peer_count (nd_registry (gw_node gw)))"

definition relay_status :: "('kp, 'j) app_state \<Rightarrow> string \<times> nat" where
  "relay_status gw = (''ok'', relay_peer_count (nd_relay (gw_node gw)))"

definition federation_status :: "('kp, 'j) app_state \<Rightarrow> string \<times> nat" where
  "federation_status gw =
     (fr_local_mesh_id (nd_federation (gw_node gw)), link_count (nd_federation (gw_node gw)))"

definition list_federation_links :: "('kp, 'j) app_state \<Rightarrow> mesh_link list" where
  "list_federation_links gw = linked_meshes (nd_federation (gw_node gw))"

section \<open>Rooms\<close>

record create_room_request =
  crr_room_id :: string
  crr_name :: string
  crr_max_members :: "nat option"

definition gw_create_room ::
    "('kp, 'j) app_state \<Rightarrow> create_room_request \<Rightarrow> timestamp
      \<Rightarrow> ('kp, 'j) app_state \<times> (http_error, status_code \<times> string \<times> room_info) result" where
  "gw_create_room gw body now =
     (case create_room (nd_rooms (gw_node gw)) (crr_room_id body) (crr_name body)
             (crr_max_members body) now of
        (rooms, Some info) \<Rightarrow>
          (on_node (\<lambda>n. n\<lparr>nd_rooms := rooms, nd_state := init_room (nd_state n) (crr_room_id body)\<rparr>) gw,
           Ok (CREATED, ''created'', info))
      | (rooms, None) \<Rightarrow>
          (on_node (nd_rooms_update (\<lambda>_. rooms)) gw,
           Err (http_err CONFLICT ''room_exists'' (''room '' @ crr_room_id body @ '' already exists''))))"

definition gw_list_rooms :: "('kp, 'j) app_state \<Rightarrow> room_info list" where
  "gw_list_rooms gw = list_rooms (nd_rooms (gw_node gw))"

definition gw_join_room ::
    "('kp, 'j) app_state \<Rightarrow> string \<Rightarrow> string
      \<Rightarrow> ('kp, 'j) app_state \<times> event list \<times> (http_error, status_code) result" where
  "gw_join_room gw room_id agent_id =
     (let (rooms, evs, res) = join_room (nd_rooms (gw_node gw)) room_id agent_id
      in (on_node (nd_rooms_update (\<lambda>_. rooms)) gw, evs,
          map_ok (\<lambda>_. OK) (with_err BAD_REQUEST ''join_failed'' room_error_msg res)))"

definition gw_leave_room ::
    "('kp, 'j) app_state \<Rightarrow> string \<Rightarrow> string
      \<Rightarrow> ('kp, 'j) app_state \<times> event list \<times> (http_error, status_code) result" where
  "gw_leave_room gw room_id agent_id =
     (let (rooms, evs, res) = leave_room (nd_rooms (gw_node gw)) room_id agent_id
      in (on_node (nd_rooms_update (\<lambda>_. rooms)) gw, evs,
          map_ok (\<lambda>_. OK) (with_err BAD_REQUEST ''leave_failed'' room_error_msg res)))"

definition gw_room_members ::
    "('kp, 'j) app_state \<Rightarrow> string \<Rightarrow> (http_error, string list) result" where
  "gw_room_members gw room_id =
     with_err NOT_FOUND ''room_not_found'' room_error_msg
       (room_members (nd_rooms (gw_node gw)) room_id)"

section \<open>Room state\<close>

record 'j set_state_request =
  ssr_agent_id :: string
  ssr_key :: string
  ssr_value :: 'j

definition gw_set_state ::
    "('kp, 'j) app_state \<Rightarrow> string \<Rightarrow> 'j set_state_request \<Rightarrow> timestamp
      \<Rightarrow> ('kp, 'j) app_state \<times> event list
         \<times> (http_error, status_code \<times> 'j state_entry) result" where
  "gw_set_state gw room_id body now =
     (let (st, evs, res) = sync_set (nd_state (gw_node gw)) room_id (ssr_agent_id body) (ssr_key body)
                             (ssr_value body) now
      in (on_node (nd_state_update (\<lambda>_. st)) gw, evs,
          map_ok (Pair OK) (with_err NOT_FOUND ''state_error'' state_error_msg res)))"

definition gw_list_state ::
    "('kp, 'j) app_state \<Rightarrow> string \<Rightarrow> (http_error, 'j state_entry list) result" where
  "gw_list_state gw room_id =
     with_err NOT_FOUND ''state_error'' state_error_msg (list_entries (nd_state (gw_node gw)) room_id)"

definition gw_get_state ::
    "('kp, 'j) app_state \<Rightarrow> string \<Rightarrow> string \<Rightarrow> (http_error, 'j state_entry) result" where
  "gw_get_state gw room_id key =
     with_err NOT_FOUND ''state_error'' state_error_msg (sync_get (nd_state (gw_node gw)) room_id key)"

definition gw_apply_delta ::
    "('kp, 'j) app_state \<Rightarrow> string \<Rightarrow> 'j state_delta
      \<Rightarrow> ('kp, 'j) app_state \<times> event list \<times> (http_error, string list) result" where
  "gw_apply_delta gw room_id body =
     (if sd_room_id body \<noteq> room_id
      then (gw, [], Err (http_err BAD_REQUEST ''room_id_mismatch''
             (''path room_id '' @ quoted room_id @ '' does not match delta room_id ''
               @ quoted (sd_room_id body))))
      else
        (let (st, evs, res) = apply_delta (nd_state (gw_node gw)) body
         in (on_node (nd_state_update (\<lambda>_. st)) gw, evs,
             with_err NOT_FOUND ''state_error'' state_error_msg res)))"

definition gw_get_snapshot ::
    "('kp, 'j) app_state \<Rightarrow> string \<Rightarrow> timestamp \<Rightarrow> (http_error, 'j state_snapshot) result" where
  "gw_get_snapshot gw room_id now =
     with_err NOT_FOUND ''state_error'' state_error_msg (snapshot (nd_state (gw_node gw)) room_id now)"

definition gw_restore_snapshot ::
    "('kp, 'j) app_state \<Rightarrow> string \<Rightarrow> 'j state_snapshot
      \<Rightarrow> ('kp, 'j) app_state \<times> event list \<times> (http_error, string list) result" where
  "gw_restore_snapshot gw room_id body =
     (if sn_room_id body \<noteq> room_id
      then (gw, [], Err (http_err BAD_REQUEST ''room_id_mismatch''
             (''path room_id '' @ quoted room_id @ '' does not match snapshot room_id ''
               @ quoted (sn_room_id body))))
      else
        (let (st, evs, res) = restore_snapshot (nd_state (gw_node gw)) body
         in (on_node (nd_state_update (\<lambda>_. st)) gw, evs,
             with_err NOT_FOUND ''state_error'' state_error_msg res)))"

section \<open>Matchmaking\<close>

record submit_match_body =
  smb_agent_id :: string
  smb_game :: string
  smb_skill_range :: skill_range
  smb_time_window :: time_window

definition submit_match_request ::
    "('kp, 'j) app_state \<Rightarrow> submit_match_body \<Rightarrow> string \<Rightarrow> timestamp
      \<Rightarrow> ('kp, 'j) app_state \<times> event list \<times> status_code \<times> match_request" where
  "submit_match_request gw body uuid now =
     (let (mm, evs, req) = submit_request (nd_matchmaker (gw_node gw)) (smb_agent_id body)
                             (smb_game body) (smb_skill_range body) (smb_time_window body) uuid now
      in (on_node (nd_matchmaker_update (\<lambda>_. mm)) gw, evs, CREATED, req))"

definition list_match_requests :: "('kp, 'j) app_state \<Rightarrow> match_request list" where
  "list_match_requests gw = list_requests (nd_matchmaker (gw_node gw))"

definition get_match_request ::
    "('kp, 'j) app_state \<Rightarrow> string \<Rightarrow> (http_error, match_request list) result" where
  "get_match_request gw request_id =
     (let found = filter (\<lambda>r. mr_request_id r = request_id) (list_requests (nd_matchmaker (gw_node gw)))
      in if found = []
         then Err (http_err NOT_FOUND ''request_not_found''
                (''match request '' @ request_id @ '' not found''))
         else Ok found)"

definition gw_find_matches ::
    "('kp, 'j) app_state \<Rightarrow> string \<Rightarrow> (http_error, match_request list) result" where
  "gw_find_matches gw request_id =
     with_err NOT_FOUND ''match_error'' match_error_msg
       (find_matches (nd_matchmaker (gw_node gw)) request_id)"

definition cancel_match_request ::
    "('kp, 'j) app_state \<Rightarrow> string
      \<Rightarrow> ('kp, 'j) app_state \<times> (http_error, match_request) result" where
  "cancel_match_request gw request_id =
     (let (mm, res) = cancel_request (nd_matchmaker (gw_node gw)) request_id
      in (on_node (nd_matchmaker_update (\<lambda>_. mm)) gw,
          with_err NOT_FOUND ''cancel_error'' match_error_msg res))"

record propose_schedule_body =
  psb_agent_id :: string
  psb_slot_start :: timestamp
  psb_slot_end :: timestamp

definition propose_schedule ::
    "('kp, 'j) app_state \<Rightarrow> propose_schedule_body \<Rightarrow> string \<Rightarrow> timestamp
      \<Rightarrow> ('kp, 'j) app_state \<times> event list \<times> status_code \<times> schedule_slot" where
  "propose_schedule gw body uuid now =
     (let (mm, evs, slot) = propose_slot (nd_matchmaker (gw_node gw)) (psb_agent_id body)
                              (psb_slot_start body) (psb_slot_end body) uuid now
      in (on_node (nd_matchmaker_update (\<lambda>_. mm)) gw, evs, CREATED, slot))"

definition gw_list_schedules :: "('kp, 'j) app_state \<Rightarrow> string option \<Rightarrow> schedule_slot list" where
  "gw_list_schedules gw agent_id =
     (case agent_id of
        Some a \<Rightarrow> slots_for_agent (nd_matchmaker (gw_node gw)) a
      | None \<Rightarrow> list_schedules (nd_matchmaker (gw_node gw)))"

definition confirm_schedule ::
    "('kp, 'j) app_state \<Rightarrow> string
      \<Rightarrow> ('kp, 'j) app_state \<times> event list \<times> (http_error, schedule_slot) result" where
  "confirm_schedule gw schedule_id =
     (let (mm, evs, res) = confirm_slot (nd_matchmaker (gw_node gw)) schedule_id
      in (on_node (nd_matchmaker_update (\<lambda>_. mm)) gw, evs,
          with_err NOT_FOUND ''schedule_error'' match_error_msg res))"

definition decline_schedule ::
    "('kp, 'j) app_state \<Rightarrow> string
      \<Rightarrow> ('kp, 'j) app_state \<times> event list \<times> (http_error, schedule_slot) result" where
  "decline_schedule gw schedule_id =
     (let (mm, evs, res) = decline_slot (nd_matchmaker (gw_node gw)) schedule_id
      in (on_node (nd_matchmaker_update (\<lambda>_. mm)) gw, evs,
          with_err NOT_FOUND ''schedule_error'' match_error_msg res))"

record submit_offer_body =
  sob_from_agent :: string
  sob_offer_id :: string
  sob_summary :: string
  sob_expires_at :: timestamp

definition gw_submit_offer ::
    "('kp, 'j) app_state \<Rightarrow> submit_offer_body \<Rightarrow> timestamp
      \<Rightarrow> ('kp, 'j) app_state \<times> event list \<times> status_code \<times> peer_offer" where
  "gw_submit_offer gw body now =
     (let (mm, evs, offer) = submit_offer (nd_matchmaker (gw_node gw)) (sob_from_agent body)
                               (sob_offer_id body) (sob_summary body) (sob_expires_at body) now
      in (on_node (nd_matchmaker_update (\<lambda>_. mm)) gw, evs, CREATED, offer))"

definition list_offers :: "('kp, 'j) app_state \<Rightarrow> timestamp \<Rightarrow> peer_offer list" where
  "list_offers gw now = active_offers (nd_matchmaker (gw_node gw)) now"

definition gw_get_offer ::
    "('kp, 'j) app_state \<Rightarrow> string \<Rightarrow> timestamp \<Rightarrow> (http_error, peer_offer) result" where
  "gw_get_offer gw offer_id now =
     map_err (\<lambda>e. http_err (case e of OfferExpired \<Rightarrow> GONE | _ \<Rightarrow> NOT_FOUND) ''offer_error''
                     (match_error_msg e))
       (get_offer (nd_matchmaker (gw_node gw)) offer_id now)"

definition gw_withdraw_offer ::
    "('kp, 'j) app_state \<Rightarrow> string \<Rightarrow> ('kp, 'j) app_state \<times> (http_error, peer_offer) result" where
  "gw_withdraw_offer gw offer_id =
     (let (mm, res) = withdraw_offer (nd_matchmaker (gw_node gw)) offer_id
      in (on_node (nd_matchmaker_update (\<lambda>_. mm)) gw,
          with_err NOT_FOUND ''offer_error'' match_error_msg res))"

definition gw_purge_expired :: "('kp, 'j) app_state \<Rightarrow> timestamp \<Rightarrow> ('kp, 'j) app_state \<times> string" where
  "gw_purge_expired gw now =
     (on_node (nd_matchmaker_update (\<lambda>mm. purge_expired mm now)) gw, ''ok'')"

definition health :: "string \<times> string" where
  "health = (''ok'', ''clawmesh-gateway'')"

end
