(* ===== verification/Gateway_Props.thy ===== *)
theory Gateway_Props
  imports Gateway_Api
begin

text \<open>
  The gateway as a whole: a step relation with one rule per endpoint that changes state, the
  invariant that every component is in a state it can reach by its own operations (so that the
  properties of the components hold in the running gateway), and the properties of the endpoints.
\<close>

section \<open>Steps\<close>

inductive gw_step ::
    "'kp crypto_lib \<Rightarrow> 'j json_lib \<Rightarrow> ('kp, 'j) app_state \<Rightarrow> ('kp, 'j) app_state \<Rightarrow> bool"
  for lib js where
  g_envelope: "gw_step lib js gw (fst (route_envelope lib js gw env c uuid clk))"
| g_federated: "gw_step lib js gw (fst (gw_federation_relay js gw body c uuid clk))"
| g_link: "gw_step lib js gw (fst (create_federation_link gw m label c now))"
| g_unlink: "gw_step lib js gw (fst (remove_federation_link gw m))"
| g_hello: "gw_step lib js gw (fst (auth_hello_handler lib gw hello rand))"
| g_respond: "gw_step lib js gw (fst (auth_respond lib gw arr))"
| g_gossip: "gw_step lib js gw (fst (gossip_exchange gw gmsg))"
| g_create_room: "gw_step lib js gw (fst (gw_create_room gw crr now))"
| g_join: "gw_step lib js gw (fst (gw_join_room gw rid a))"
| g_leave: "gw_step lib js gw (fst (gw_leave_room gw rid a))"
| g_set_state: "gw_step lib js gw (fst (gw_set_state gw rid ssr now))"
| g_delta: "gw_step lib js gw (fst (gw_apply_delta gw rid delta))"
| g_restore: "gw_step lib js gw (fst (gw_restore_snapshot gw rid snap))"
| g_match: "gw_step lib js gw (fst (submit_match_request gw smb uuid now))"
| g_cancel: "gw_step lib js gw (fst (cancel_match_request gw i))"
| g_propose: "gw_step lib js gw (fst (propose_schedule gw psb uuid now))"
| g_confirm: "gw_step lib js gw (fst (confirm_schedule gw i))"
| g_decline: "gw_step lib js gw (fst (decline_schedule gw i))"
| g_offer: "gw_step lib js gw (fst (gw_submit_offer gw sob now))"
| g_withdraw: "gw_step lib js gw (fst (gw_withdraw_offer gw i))"
| g_purge: "gw_step lib js gw (fst (gw_purge_expired gw now))"
| g_social: "social_step (gw_social gw) store \<Longrightarrow> gw_step lib js gw (gw\<lparr>gw_social := store\<rparr>)"

definition gateway_start :: "('kp, 'j) mesh_node \<Rightarrow> ('kp, 'j) app_state" where
  "gateway_start node = \<lparr>gw_node = node, gw_social = social_default, gw_dropped = []\<rparr>"

inductive gw_reachable ::
    "'kp crypto_lib \<Rightarrow> 'j json_lib \<Rightarrow> string \<Rightarrow> ('kp, 'j) app_state \<Rightarrow> bool"
  for lib js mesh where
  g_start: "node_new lib agent mesh rand = Some (Ok node) \<Longrightarrow>
    gw_reachable lib js mesh (gateway_start node)"
| g_next: "gw_reachable lib js mesh gw \<Longrightarrow> gw_step lib js gw gw' \<Longrightarrow> gw_reachable lib js mesh gw'"

section \<open>The invariant\<close>

text \<open>Channels that are registered or linked, and rooms that have metadata.\<close>
definition all_dropped :: "('kp, 'j) app_state \<Rightarrow> bool" where
  "all_dropped gw \<longleftrightarrow>
     (\<forall>a c. hm_get (sr_peers (nd_relay (gw_node gw))) a = Some c \<longrightarrow> c \<in> set (gw_dropped gw))
     \<and> (\<forall>m l. hm_get (fr_links (nd_federation (gw_node gw))) m = Some l \<longrightarrow> ls_tx l \<in> set (gw_dropped gw))"

definition rooms_tracked :: "('kp, 'j) app_state \<Rightarrow> bool" where
  "rooms_tracked gw \<longleftrightarrow>
     (\<forall>rid. hm_get (rm_rooms (nd_rooms (gw_node gw))) rid \<noteq> None \<longrightarrow>
        hm_get (sync_rooms (nd_state (gw_node gw))) rid \<noteq> None)"

definition node_ok :: "'kp crypto_lib \<Rightarrow> string \<Rightarrow> ('kp, 'j) mesh_node \<Rightarrow> bool" where
  "node_ok lib mesh n \<longleftrightarrow>
     nd_mesh_id n = mesh
     \<and> registry_reachable mesh (nd_registry n)
     \<and> rooms_reachable mesh (nd_rooms n)
     \<and> sync_reachable mesh (nd_state n)
     \<and> match_reachable mesh (nd_matchmaker n)
     \<and> federation_reachable mesh (nd_federation n)
     \<and> (\<exists>me i log. auth_reach lib me i (nd_auth n) log)"

definition gw_ok :: "'kp crypto_lib \<Rightarrow> string \<Rightarrow> ('kp, 'j) app_state \<Rightarrow> bool" where
  "gw_ok lib mesh gw \<longleftrightarrow>
     node_ok lib mesh (gw_node gw) \<and> social_reachable (gw_social gw)
     \<and> all_dropped gw \<and> rooms_tracked gw"

lemmas gw_ok_defs = gw_ok_def node_ok_def all_dropped_def rooms_tracked_def

text \<open>One component at a time.\<close>

lemma gw_ok_matchmaker:
  assumes "gw_ok lib mesh gw" "match_step (nd_matchmaker (gw_node gw)) (f (nd_matchmaker (gw_node gw)))"
  shows "gw_ok lib mesh (on_node (nd_matchmaker_update f) gw)"
  using assms by (auto simp: gw_ok_defs intro: m_next)

lemma gw_ok_registry:
  assumes "gw_ok lib mesh gw" "registry_step (nd_registry (gw_node gw)) reg"
  shows "gw_ok lib mesh (on_node (nd_registry_update (\<lambda>_. reg)) gw)"
  using assms by (auto simp: gw_ok_defs intro: reg_next)

lemma gw_ok_relay:
  assumes "gw_ok lib mesh gw"
  shows "gw_ok lib mesh (gw\<lparr>gw_node := (gw_node gw)\<lparr>nd_relay := fst (relay_register (nd_relay (gw_node gw)) a c)\<rparr>,
           gw_dropped := c # gw_dropped gw\<rparr>)"
  using assms by (auto simp: gw_ok_defs relay_register_def split: if_splits)

lemma gw_ok_rooms:
  assumes "gw_ok lib mesh gw" "room_step (nd_rooms (gw_node gw)) rooms"
    and "hm_get (rm_rooms rooms) = hm_get (rm_rooms (nd_rooms (gw_node gw)))"
  shows "gw_ok lib mesh (on_node (nd_rooms_update (\<lambda>_. rooms)) gw)"
  using assms by (auto simp: gw_ok_defs intro: rooms_next)

lemma gw_ok_state:
  assumes "gw_ok lib mesh gw" "sync_step (nd_state (gw_node gw)) st"
    and "\<And>rid. hm_get (sync_rooms (nd_state (gw_node gw))) rid \<noteq> None \<Longrightarrow> hm_get (sync_rooms st) rid \<noteq> None"
  shows "gw_ok lib mesh (on_node (nd_state_update (\<lambda>_. st)) gw)"
proof -
  have "sync_reachable mesh st"
    using assms(1,2) by (auto simp: gw_ok_defs intro: sync_next)
  moreover have "hm_get (sync_rooms st) rid \<noteq> None"
    if "hm_get (rm_rooms (nd_rooms (gw_node gw))) rid \<noteq> None" for rid
    using that assms(1,3) unfolding gw_ok_def rooms_tracked_def by blast
  ultimately show ?thesis
    using assms(1) by (simp add: gw_ok_defs)
qed

lemma gw_ok_federation:
  assumes "gw_ok lib mesh gw" "federation_step (nd_federation (gw_node gw)) fed"
    and "\<And>m l. hm_get (fr_links fed) m = Some l \<Longrightarrow>
      hm_get (fr_links (nd_federation (gw_node gw))) m = Some l \<or> ls_tx l \<in> set cs"
  shows "gw_ok lib mesh ((on_node (nd_federation_update (\<lambda>_. fed)) gw)\<lparr>gw_dropped := cs @ gw_dropped gw\<rparr>)"
proof -
  have "ls_tx l \<in> set (cs @ gw_dropped gw)" if "hm_get (fr_links fed) m = Some l" for m l
    using assms(1) assms(3) [OF that] unfolding gw_ok_def all_dropped_def by auto
  then show ?thesis
    using assms(1,2) by (auto simp: gw_ok_defs intro: fed_next)
qed

lemma gw_ok_auth:
  assumes "gw_ok lib mesh gw" "auth = nd_auth (gw_node gw) \<or> auth_step lib (nd_auth (gw_node gw)) l auth"
  shows "gw_ok lib mesh (on_node (nd_auth_update (\<lambda>_. auth)) gw)"
proof -
  have "\<exists>me i log. auth_reach lib me i auth log"
    using assms unfolding gw_ok_def node_ok_def by (blast intro: auth_next)
  with assms(1) show ?thesis
    by (simp add: gw_ok_defs)
qed

lemma gw_ok_dispatch:
  assumes "gw_ok lib mesh gw"
  shows "gw_ok lib mesh (fst (dispatch_intent js gw env c uuid clk))"
proof (cases "en_intent env")
  case Announce
  obtain msg where gw': "fst (dispatch_intent js gw env c uuid clk) =
      gw\<lparr>gw_node := (gw_node gw)\<lparr>nd_registry := fst (handle_announce (nd_registry (gw_node gw)) msg (clk 1)),
           nd_relay := fst (relay_register (nd_relay (gw_node gw)) (sd_agent_id (en_sender env)) c)\<rparr>,
         gw_dropped := c # gw_dropped gw\<rparr>"
    using Announce
    by (auto simp: dispatch_intent_def route_announce_def Let_def case_prod_beta relay_register_def)
  show ?thesis
    using gw_ok_relay [OF gw_ok_registry [OF assms reg_announce [where msg = msg and now = "clk 1"]],
        where a = "sd_agent_id (en_sender env)" and c = c]
    by (simp add: gw')
next
  case RequestMatch
  have "match_step m (fst (submit_request m a g r w i now))" for m a g r w i now
    by (rule m_submit)
  with RequestMatch show ?thesis
    by (auto simp: dispatch_intent_def route_request_match_def Let_def case_prod_beta
        intro!: gw_ok_matchmaker [OF assms])
next
  case Schedule
  have two: "gw_ok lib mesh (on_node (nd_matchmaker_update (\<lambda>_. mm')) gw)"
    if "match_step (nd_matchmaker (gw_node gw)) mm" "mm' = mm \<or> match_step mm mm'" for mm mm'
    using that assms by (auto simp: gw_ok_defs intro: m_next)
  have choice: "mm' = mm \<or> match_step mm mm'"
    if "mm' = fst (if yes then confirm_slot mm k else if no then decline_slot mm k else (mm, [], r))"
    for mm mm' yes no k and r :: "(match_error, schedule_slot) result"
    using that m_confirm [of mm k] m_decline [of mm k] by auto
  show ?thesis
    by (simp only: dispatch_intent_def Schedule intent.case route_schedule_def Let_def
        case_prod_beta fst_conv) (rule two [OF m_propose choice [OF refl]])
next
  case Offer
  show ?thesis
    using Offer
    by (auto simp: dispatch_intent_def route_offer_def Let_def case_prod_beta
        intro!: gw_ok_matchmaker [OF assms] m_offer)
qed

lemma gw_ok_envelope:
  assumes "gw_ok lib mesh gw"
  shows "gw_ok lib mesh (fst (route_envelope lib js gw env c uuid clk))"
  using gw_ok_dispatch [OF assms, of js env c uuid clk] assms
  by (auto simp: route_envelope_def case_prod_beta split: sum.splits)

lemma gw_ok_federated:
  assumes "gw_ok lib mesh gw"
  shows "gw_ok lib mesh (fst (gw_federation_relay js gw body c uuid clk))"
  using gw_ok_dispatch [OF assms] assms
  by (auto simp: gw_federation_relay_def Let_def case_prod_beta split: sum.splits prod.splits)

lemma gw_ok_link:
  assumes "gw_ok lib mesh gw"
  shows "gw_ok lib mesh (fst (create_federation_link gw m label c now))"
proof (cases "snd (snd (link_mesh (nd_federation (gw_node gw)) m label c now))")
  case (Inl e)
  then have "fst (link_mesh (nd_federation (gw_node gw)) m label c now) = nd_federation (gw_node gw)"
    by (auto simp: link_mesh_def Let_def split: if_splits)
  with Inl assms show ?thesis
    by (auto simp: create_federation_link_def case_prod_beta)
next
  case (Inr rx)
  then have "rx = c" and "fr_links (fst (link_mesh (nd_federation (gw_node gw)) m label c now)) =
      hm_insert m \<lparr>ls_info = \<lparr>ml_mesh_id = m, ml_label = label, ml_linked_at = now\<rparr>, ls_tx = c\<rparr>
        (fr_links (nd_federation (gw_node gw)))"
    by (auto simp: link_mesh_def Let_def split: if_splits)
  then have "gw_ok lib mesh ((on_node (nd_federation_update
      (\<lambda>_. fst (link_mesh (nd_federation (gw_node gw)) m label c now))) gw)\<lparr>gw_dropped := [rx] @ gw_dropped gw\<rparr>)"
    by (intro gw_ok_federation [OF assms fed_link]) (auto split: if_splits)
  with Inr show ?thesis
    by (simp add: create_federation_link_def case_prod_beta)
qed

lemma gw_ok_unlink:
  assumes "gw_ok lib mesh gw"
  shows "gw_ok lib mesh (fst (remove_federation_link gw m))"
proof -
  have "gw_ok lib mesh ((on_node (nd_federation_update
      (\<lambda>_. fst (unlink_mesh (nd_federation (gw_node gw)) m))) gw)\<lparr>gw_dropped := [] @ gw_dropped gw\<rparr>)"
    by (intro gw_ok_federation [OF assms fed_unlink])
      (auto simp: unlink_mesh_def split: option.splits if_splits)
  then show ?thesis
    by (simp add: remove_federation_link_def case_prod_beta Let_def)
qed

lemma gw_ok_hello:
  assumes "gw_ok lib mesh gw"
  shows "gw_ok lib mesh (fst (auth_hello_handler lib gw hello rand))"
proof -
  let ?auth = "nd_auth (gw_node gw)"
  obtain l where "fst (handle_hello lib ?auth hello rand) = ?auth
      \<or> auth_step lib ?auth l (fst (handle_hello lib ?auth hello rand))"
  proof (cases "random_bytes CHALLENGE_LEN rand")
    case (Inl e)
    then show ?thesis by (intro that disjI1) (simp add: handle_hello_def)
  next
    case (Inr nonce)
    then show ?thesis by (rule that [OF disjI2, OF auth_hello [OF _ prod.collapse [symmetric]]])
  qed
  from gw_ok_auth [OF assms this] show ?thesis
    by (simp add: auth_hello_handler_def case_prod_beta Let_def)
qed

lemma gw_ok_respond:
  assumes "gw_ok lib mesh gw"
  shows "gw_ok lib mesh (fst (auth_respond lib gw body))"
proof -
  obtain l where "auth_step lib (nd_auth (gw_node gw)) l
      (fst (handle_response lib (nd_auth (gw_node gw)) (arr_response body) (arr_public_key body)))"
    using auth_step_response by blast
  from gw_ok_auth [OF assms disjI2 [OF this]] show ?thesis
    by (simp add: auth_respond_def case_prod_beta Let_def)
qed

lemma gw_ok_create_room:
  assumes "gw_ok lib mesh gw"
  shows "gw_ok lib mesh (fst (gw_create_room gw body now))"
proof -
  let ?n = "gw_node gw" and ?rid = "crr_room_id body"
  let ?r = "create_room (nd_rooms ?n) ?rid (crr_name body) (crr_max_members body) now"
  show ?thesis
  proof (cases "snd ?r")
    case None
    then have "fst ?r = nd_rooms ?n"
      by (auto simp: create_room_def Let_def split: if_splits)
    with None assms show ?thesis
      by (simp add: gw_create_room_def case_prod_beta)
  next
    case (Some info)
    then have rooms: "hm_get (rm_rooms (fst ?r)) = (hm_get (rm_rooms (nd_rooms ?n)))(?rid \<mapsto> info)"
      by (auto simp: create_room_def Let_def split: if_splits)
    have "rooms_reachable mesh (fst ?r)" "sync_reachable mesh (init_room (nd_state ?n) ?rid)"
      using assms by (auto simp: gw_ok_defs intro: rooms_next room_create sync_next step_init)
    moreover have "hm_get (sync_rooms (init_room (nd_state ?n) ?rid)) rid \<noteq> None"
      if "hm_get (rm_rooms (fst ?r)) rid \<noteq> None" for rid
      using that assms unfolding gw_ok_def rooms_tracked_def rooms rooms_init_room
      by (simp split: if_splits)
    ultimately show ?thesis
      using assms Some by (simp add: gw_create_room_def case_prod_beta gw_ok_defs)
  qed
qed

lemma set_keeps_rooms:
  "hm_get (sync_rooms s) rid \<noteq> None \<Longrightarrow>
     hm_get (sync_rooms (fst (sync_set s rid' a k v now))) rid \<noteq> None"
  by (auto simp: sync_set_def Let_def split: option.splits)

lemma delta_keeps_rooms:
  "hm_get (sync_rooms s) rid \<noteq> None \<Longrightarrow> hm_get (sync_rooms (fst (apply_delta s d))) rid \<noteq> None"
  by (auto simp: apply_delta_def case_prod_beta split: option.splits)

lemma restore_keeps_rooms:
  "hm_get (sync_rooms s) rid \<noteq> None \<Longrightarrow> hm_get (sync_rooms (fst (restore_snapshot s snap))) rid \<noteq> None"
  by (simp add: rooms_restore_snapshot)

lemma join_keeps_rooms: "rm_rooms (fst (join_room r rid a)) = rm_rooms r"
  by (simp add: join_room_def split: option.splits)

lemma leave_keeps_rooms: "rm_rooms (fst (leave_room r rid a)) = rm_rooms r"
  by (simp add: leave_room_def split: option.splits)

lemma gw_ok_join:
  "gw_ok lib mesh gw \<Longrightarrow> gw_ok lib mesh (fst (gw_join_room gw rid a))"
  "gw_ok lib mesh gw \<Longrightarrow> gw_ok lib mesh (fst (gw_leave_room gw rid a))"
  by (simp_all add: gw_join_room_def gw_leave_room_def case_prod_beta Let_def gw_ok_rooms
      room_join room_leave join_keeps_rooms leave_keeps_rooms)

lemma gw_ok_sync:
  assumes "gw_ok lib mesh gw"
  shows "gw_ok lib mesh (fst (gw_set_state gw rid ssr now))"
    and "gw_ok lib mesh (fst (gw_apply_delta gw rid delta))"
    and "gw_ok lib mesh (fst (gw_restore_snapshot gw rid snap))"
  using gw_ok_state [OF assms step_set set_keeps_rooms] gw_ok_state [OF assms step_delta delta_keeps_rooms]
    gw_ok_state [OF assms step_restore restore_keeps_rooms] assms
  by (simp_all add: gw_set_state_def gw_apply_delta_def gw_restore_snapshot_def case_prod_beta Let_def)

lemma gw_ok_matching:
  assumes "gw_ok lib mesh gw"
  shows "gw_ok lib mesh (fst (submit_match_request gw smb uuid now))"
    and "gw_ok lib mesh (fst (cancel_match_request gw i))"
    and "gw_ok lib mesh (fst (propose_schedule gw psb uuid now))"
    and "gw_ok lib mesh (fst (confirm_schedule gw i))"
    and "gw_ok lib mesh (fst (decline_schedule gw i))"
    and "gw_ok lib mesh (fst (gw_submit_offer gw sob now))"
    and "gw_ok lib mesh (fst (gw_withdraw_offer gw i))"
    and "gw_ok lib mesh (fst (gw_purge_expired gw now))"
  by (simp_all add: submit_match_request_def cancel_match_request_def propose_schedule_def
      confirm_schedule_def decline_schedule_def gw_submit_offer_def gw_withdraw_offer_def
      gw_purge_expired_def case_prod_beta Let_def gw_ok_matchmaker [OF assms] match_step.intros)

lemma gw_ok_gossip: "gw_ok lib mesh gw \<Longrightarrow> gw_ok lib mesh (fst (gossip_exchange gw gmsg))"
  by (cases gmsg) (simp_all add: case_prod_beta Let_def gw_ok_registry reg_merge)

lemma gw_ok_social:
  "gw_ok lib mesh gw \<Longrightarrow> social_step (gw_social gw) store \<Longrightarrow> gw_ok lib mesh (gw\<lparr>gw_social := store\<rparr>)"
  by (auto simp: gw_ok_defs intro: soc_next)

lemmas gw_ok_handlers = gw_ok_envelope gw_ok_federated gw_ok_link gw_ok_unlink gw_ok_hello
  gw_ok_respond gw_ok_create_room gw_ok_join gw_ok_sync gw_ok_matching gw_ok_gossip gw_ok_social

lemma gw_step_ok: "gw_step lib js gw gw' \<Longrightarrow> gw_ok lib mesh gw \<Longrightarrow> gw_ok lib mesh gw'"
  by (induction rule: gw_step.induct) (rule gw_ok_handlers; assumption)+

lemma gw_reachable_ok: "gw_reachable lib js mesh gw \<Longrightarrow> gw_ok lib mesh gw"
proof (induction rule: gw_reachable.induct)
  case (g_start agent rand node)
  then obtain i where "node_with_identity lib agent mesh i = Some node"
    by (auto simp: node_new_def split: sum.splits)
  then obtain i' where "node = \<lparr>nd_agent_id = agent, nd_mesh_id = mesh, nd_identity = i,
      nd_registry = registry_new mesh, nd_auth = authenticator_new agent i',
      nd_rooms = room_manager_new mesh, nd_state = sync_new mesh, nd_gossip = gossip_router_new agent,
      nd_relay = signal_relay_new, nd_matchmaker = matchmaker_new mesh,
      nd_federation = federation_router_new mesh\<rparr>"
    by (auto simp: node_with_identity_def split: option.splits)
  then show ?case
    by (auto simp: gw_ok_defs gateway_start_def signal_relay_new_def federation_router_new_def
        room_manager_new_def
        intro: reg_start rooms_start [unfolded room_manager_new_def] sync_start m_start
          fed_start [unfolded federation_router_new_def] auth_start soc_start)
next
  case (g_next gw gw')
  then show ?case by (blast intro: gw_step_ok)
qed

section \<open>Envelopes\<close>

text \<open>The conditions on an envelope, as the protocol states them.\<close>

definition expired :: "'j envelope \<Rightarrow> timestamp \<Rightarrow> bool" where
  "expired env now \<longleftrightarrow> (case en_expiry env of None \<Rightarrow> False | Some t \<Rightarrow> t < now)"

definition policy_holds :: "('kp, 'j) app_state \<Rightarrow> 'j envelope \<Rightarrow> bool" where
  "policy_holds gw env \<longleftrightarrow>
     (en_policy env = MeshOnly \<longrightarrow> sd_mesh_id (en_sender env) = nd_mesh_id (gw_node gw))
     \<and> (en_policy env = Private \<longrightarrow>
          get_peer (nd_registry (gw_node gw)) (sd_agent_id (en_sender env)) \<noteq> None)"

definition signature_holds ::
    "'kp crypto_lib \<Rightarrow> 'j json_lib \<Rightarrow> ('kp, 'j) app_state \<Rightarrow> 'j envelope \<Rightarrow> bool" where
  "signature_holds lib js gw env \<longleftrightarrow>
     (\<forall>sg peer. en_signature env = Some sg \<longrightarrow>
        get_authenticated (nd_auth (gw_node gw)) (sd_agent_id (en_sender env)) = Some peer \<longrightarrow>
        crypto_verify lib (ap_public_key peer) (unwrap_or (j_to_vec js (en_payload env)) [])
          \<lparr>sig_sig = sg\<rparr> = Ok ())"

definition admissible ::
    "'kp crypto_lib \<Rightarrow> 'j json_lib \<Rightarrow> ('kp, 'j) app_state \<Rightarrow> 'j envelope \<Rightarrow> timestamp \<Rightarrow> bool" where
  "admissible lib js gw env now \<longleftrightarrow>
     en_schema_version env = PROTOCOL_VERSION \<and> \<not> expired env now
     \<and> policy_holds gw env \<and> signature_holds lib js gw env"

lemma enforce_policy_ok: "enforce_policy gw env = Ok () \<longleftrightarrow> policy_holds gw env"
  by (cases "en_policy env") (auto simp: enforce_policy_def policy_holds_def)

lemma enforce_policy_err: "enforce_policy gw env = Err e \<Longrightarrow> fst e = FORBIDDEN"
  by (cases "en_policy env") (auto simp: enforce_policy_def split: if_splits)

lemma check_signature_ok: "check_signature lib js gw env = Ok () \<longleftrightarrow> signature_holds lib js gw env"
  by (auto simp: check_signature_def signature_holds_def is_ok_iff split: option.splits)

lemma check_signature_err: "check_signature lib js gw env = Err e \<Longrightarrow> fst e = UNAUTHORIZED"
  by (auto simp: check_signature_def split: option.splits if_splits)

lemma check_expiry_ok: "check_expiry js env now = Ok () \<longleftrightarrow> \<not> expired env now"
  by (auto simp: check_expiry_def expired_def split: option.splits)

lemma check_expiry_err: "check_expiry js env now = Err e \<Longrightarrow> fst e = GONE"
  by (auto simp: check_expiry_def split: option.splits if_splits)

lemma check_version_ok: "check_version env = Ok () \<longleftrightarrow> en_schema_version env = PROTOCOL_VERSION"
  by (simp add: check_version_def)

lemma check_version_err: "check_version env = Err e \<Longrightarrow> fst e = BAD_REQUEST"
  by (auto simp: check_version_def split: if_splits)

lemma unit_result_cases:
  fixes r :: "('e, unit) result"
  obtains "r = Ok ()" | e where "r = Err e" "r \<noteq> Ok ()"
  by (cases r) auto

text \<open>
  C7: The decision on an envelope. An envelope is dispatched, with 202, exactly when its version is
  the supported one, it has not expired, its policy admits the sender, and its signature verifies
  if it has one and the sender is authenticated; otherwise nothing is dispatched, the state does
  not change, no event is emitted, and the status is that of the first check that fails: 400 for
  the version, 410 for the expiry, 403 for the policy, 401 for the signature. The payload has no
  influence on the decision.
\<close>
theorem envelope_decision:
  "fst (route_envelope lib js gw env c uuid clk) =
       (if admissible lib js gw env (clk 0) then fst (dispatch_intent js gw env c uuid clk) else gw)
   \<and> fst (snd (route_envelope lib js gw env c uuid clk)) =
       (if admissible lib js gw env (clk 0) then fst (snd (dispatch_intent js gw env c uuid clk)) else [])
   \<and> map_err fst (snd (snd (route_envelope lib js gw env c uuid clk))) =
     (if en_schema_version env \<noteq> PROTOCOL_VERSION then Err BAD_REQUEST
      else if expired env (clk 0) then Err GONE
      else if \<not> policy_holds gw env then Err FORBIDDEN
      else if \<not> signature_holds lib js gw env then Err UNAUTHORIZED
      else Ok (ACCEPTED, snd (snd (dispatch_intent js gw env c uuid clk))))"
proof (cases "check_version env" rule: unit_result_cases)
  case (2 e)
  then have "en_schema_version env \<noteq> PROTOCOL_VERSION" "fst e = BAD_REQUEST"
    using check_version_ok check_version_err by blast+
  with 2 show ?thesis by (simp add: route_envelope_def admissible_def)
next
  case v: 1
  then have v': "en_schema_version env = PROTOCOL_VERSION" by (simp add: check_version_ok)
  show ?thesis
  proof (cases "check_expiry js env (clk 0)" rule: unit_result_cases)
    case (2 e)
    then have "expired env (clk 0)" "fst e = GONE"
      using check_expiry_ok check_expiry_err by blast+
    with 2 v v' show ?thesis by (simp add: route_envelope_def admissible_def)
  next
    case x: 1
    then have x': "\<not> expired env (clk 0)" by (simp add: check_expiry_ok)
    show ?thesis
    proof (cases "enforce_policy gw env" rule: unit_result_cases)
      case (2 e)
      then have "\<not> policy_holds gw env" "fst e = FORBIDDEN"
        using enforce_policy_ok enforce_policy_err by blast+
      with 2 v v' x x' show ?thesis by (simp add: route_envelope_def admissible_def)
    next
      case p: 1
      then have p': "policy_holds gw env" by (simp add: enforce_policy_ok)
      note before = v v' x x' p p' route_envelope_def admissible_def
      show ?thesis
      proof (cases "check_signature lib js gw env" rule: unit_result_cases)
        case (2 e)
        then have "\<not> signature_holds lib js gw env" "fst e = UNAUTHORIZED"
          using check_signature_ok check_signature_err by blast+
        with 2 show ?thesis by (simp add: before)
      next
        case s: 1
        then have "signature_holds lib js gw env" by (simp add: check_signature_ok)
        with s show ?thesis by (simp add: before case_prod_beta)
      qed
    qed
  qed
qed

text \<open>
  C33: A federated envelope escapes the checks. When an envelope arrives through
  \<open>/v0/federation/relay\<close> for this mesh, with a positive TTL and the supported version, it is
  dispatched with 202 whatever its expiry, its policy and its signature say; the same envelope posted
  directly is refused with 410 if it has expired, although the protocol has expired envelopes always
  rejected.
\<close>
theorem federated_envelope_unchecked:
  assumes "fe_target_mesh body = fr_local_mesh_id (nd_federation (gw_node gw))" and "fe_ttl body \<noteq> 0"
    and "j_envelope js (fe_envelope body) = Ok env" and "en_schema_version env = PROTOCOL_VERSION"
    and "dispatch_intent js gw env c uuid clk = (gw', evs, response)"
  shows "gw_federation_relay js gw body c uuid clk = (gw', evs, [], Ok (ACCEPTED, response))
     \<and> (expired env (clk 0) \<longrightarrow>
          map_err fst (snd (snd (route_envelope lib js gw env c uuid clk))) = Err GONE
          \<and> fst (route_envelope lib js gw env c uuid clk) = gw)"
proof -
  have "should_accept (nd_federation (gw_node gw)) body"
    using assms(1,2) by (simp add: should_accept_def word_gt_0)
  then have "gw_federation_relay js gw body c uuid clk = (gw', evs, [], Ok (ACCEPTED, response))"
    using assms(3-5) by (simp add: gw_federation_relay_def check_version_def)
  moreover have "map_err fst (snd (snd (route_envelope lib js gw env c uuid clk))) = Err GONE
      \<and> fst (route_envelope lib js gw env c uuid clk) = gw" if "expired env (clk 0)"
  proof (cases "check_expiry js env (clk 0)" rule: unit_result_cases)
    case 1
    with that show ?thesis by (simp add: check_expiry_ok)
  next
    case (2 e)
    then show ?thesis
      using assms(4) check_expiry_err by (simp add: route_envelope_def check_version_def)
  qed
  ultimately show ?thesis by blast
qed

section \<open>Messages that are never delivered\<close>

text \<open>
  C34: The gateway's signal relay and its federation links deliver nothing. Announcing registers the
  agent with the relay and linking creates a link, but both drop the receiving end of the channel
  they make; so in every reachable gateway every relayed signal is answered with 404 and every
  federated envelope to a linked mesh with 502, and nothing is sent or announced.
\<close>
theorem relayed_messages_never_delivered:
  assumes "gw_reachable lib js mesh gw"
  shows "(\<exists>e. gw_relay_signal gw msg = ([], [], Err e) \<and> fst e = NOT_FOUND)
     \<and> (is_linked (nd_federation (gw_node gw)) (fe_target_mesh body) \<longrightarrow>
          (\<exists>e. gw_federation_relay js gw body c uuid clk = (gw, [], [], Err e) \<and> fst e = BAD_GATEWAY))"
proof -
  have ok: "gw_ok lib mesh gw"
    using gw_reachable_ok [OF assms] .
  then have peers: "hm_get (sr_peers (nd_relay (gw_node gw))) a = Some ch \<Longrightarrow> \<not> send_ok gw ch"
    and links: "hm_get (fr_links (nd_federation (gw_node gw))) m = Some l \<Longrightarrow> \<not> send_ok gw (ls_tx l)"
    for a ch m l
    by (auto simp: gw_ok_def all_dropped_def send_ok_def)
  have "\<exists>e. gw_relay_signal gw msg = ([], [], Err e) \<and> fst e = NOT_FOUND"
    using peers by (auto simp: gw_relay_signal_def relay_send_def Let_def http_err_def split: option.splits)
  moreover have "\<exists>e. gw_federation_relay js gw body c uuid clk = (gw, [], [], Err e) \<and> fst e = BAD_GATEWAY"
    if linked: "is_linked (nd_federation (gw_node gw)) (fe_target_mesh body)"
  proof -
    let ?fed = "nd_federation (gw_node gw)"
    obtain l where l: "hm_get (fr_links ?fed) (fe_target_mesh body) = Some l"
      using linked by (auto simp: is_linked_def hm_contains_key_def)
    have "links_ok ?fed"
      using ok federation_reachable_ok by (auto simp: gw_ok_def node_ok_def)
    then have "fe_target_mesh body \<noteq> fr_local_mesh_id ?fed"
      using l by (auto simp: links_ok_def)
    then have "\<not> should_accept ?fed body"
      by (simp add: should_accept_def)
    moreover have "\<exists>e. federation_forward (send_ok gw) ?fed (fe_target_mesh body) body (clk 0) = ([], Err e)"
      using l links [OF l] by (simp add: federation_forward_def send_federation_envelope_def)
    ultimately show ?thesis
      using linked by (auto simp: gw_federation_relay_def Let_def http_err_def)
  qed
  ultimately show ?thesis by blast
qed

section \<open>Rooms and their state\<close>

text \<open>
  Every listed room has its state. In every reachable gateway the state endpoints work for each
  room that exists: listing its entries succeeds, and setting a key succeeds and stores the value
  under it for the next reader, unless the writer's counter is at the maximum of \<open>u64\<close>.
\<close>
theorem listed_room_has_state:
  assumes "gw_reachable lib js mesh gw" and "info \<in> set (gw_list_rooms gw)"
    and "gw_set_state gw (ri_room_id info) body now = (gw', evs, res)"
  shows "is_ok (gw_list_state gw (ri_room_id info)) \<and> is_ok res
     \<and> (\<forall>room. hm_get (sync_rooms (nd_state (gw_node gw))) (ri_room_id info) = Some room \<longrightarrow>
          vc_get (rs_clock room) (ssr_agent_id body) \<noteq> - 1 \<longrightarrow>
          map_ok se_value (gw_get_state gw' (ri_room_id info) (ssr_key body)) = Ok (ssr_value body))"
proof -
  let ?s = "nd_state (gw_node gw)" and ?rid = "ri_room_id info"
  have ok: "gw_ok lib mesh gw"
    using gw_reachable_ok [OF assms(1)] .
  then have rooms: "rooms_ok (nd_rooms (gw_node gw))" and sync: "sync_ok ?s"
    using rooms_reachable_ok sync_reachable_ok by (auto simp: gw_ok_def node_ok_def)
  obtain rid where "hm_get (rm_rooms (nd_rooms (gw_node gw))) rid = Some info"
    using assms(2) by (auto simp: gw_list_rooms_def list_rooms_def)
  moreover from this obtain ms where "hm_get (rm_members (nd_rooms (gw_node gw))) rid = Some ms"
    using rooms_ok_dom [OF rooms, of rid] by auto
  ultimately have "hm_get (rm_rooms (nd_rooms (gw_node gw))) ?rid = Some info"
    using rooms by (auto simp: rooms_ok_def)
  then obtain room where room: "hm_get (sync_rooms ?s) ?rid = Some room"
    using ok unfolding gw_ok_def rooms_tracked_def by blast
  have gw': "gw' = on_node (nd_state_update (\<lambda>_. fst (sync_set ?s ?rid (ssr_agent_id body)
      (ssr_key body) (ssr_value body) now))) gw" and res: "is_ok res"
    using assms(3) room by (auto simp: gw_set_state_def case_prod_beta Let_def sync_set_def)
  have "map_ok se_value (gw_get_state gw' ?rid (ssr_key body)) = Ok (ssr_value body)"
    if "vc_get (rs_clock room) (ssr_agent_id body) \<noteq> - 1"
  proof -
    let ?e = "\<lparr>se_key = ssr_key body, se_value = ssr_value body, se_author = ssr_agent_id body,
      se_clock = fst (vc_tick (rs_clock room) (ssr_agent_id body)), se_updated_at = now\<rparr>"
    have "entry_view (apply_step ?e room) (ssr_key body) = Some ?e"
      using tick_beats_room [OF sync_okD(2) [OF sync room] that, of ?e] by simp
    then show ?thesis
      by (simp add: gw' gw_get_state_def sync_get_def rooms_sync_set [OF room] entry_view_def)
  qed
  then show ?thesis
    using room res by (simp add: gw_list_state_def list_entries_def)
qed

section \<open>Impersonation\<close>

text \<open>
  C31: Anyone can take over an agent's authenticated identity. An attacker who says hello under the
  agent's id, whatever key the hello shows, and answers the challenge with a signature and the
  public key of their own, is answered with success; the gateway then holds the attacker's key for
  the agent, and an envelope of the agent whose signature does not verify under the attacker's key
  is not accepted any more.
\<close>
theorem impersonation_locks_out:
  assumes "crypto_ok lib"
    and "random_bytes CHALLENGE_LEN rand = Ok nonce"
    and "auth_hello_handler lib gw \<lparr>ah_agent_id = a, ah_public_key = shown\<rparr> rand = (gw1, res1)"
    and "auth_respond lib gw1 \<lparr>arr_response = \<lparr>ar_agent_id = a, ar_signature = identity_sign lib attacker nonce\<rparr>,
           arr_public_key = identity_public_key lib attacker\<rparr> = (gw2, res2)"
    and "sd_agent_id (en_sender env) = a" and "en_signature env = Some sg"
    and "crypto_verify lib (identity_public_key lib attacker)
           (unwrap_or (j_to_vec js (en_payload env)) []) \<lparr>sig_sig = sg\<rparr> \<noteq> Ok ()"
  shows "res2 = Ok (''authenticated'', a)
     \<and> get_authenticated (nd_auth (gw_node gw2)) a =
         Some \<lparr>ap_agent_id = a, ap_public_key = identity_public_key lib attacker\<rparr>
     \<and> (\<exists>e. route_envelope lib js gw2 env c uuid clk = (gw2, [], Err e))"
proof -
  let ?auth = "nd_auth (gw_node gw)"
  have auth1: "nd_auth (gw_node gw1) = ?auth\<lparr>pa_pending := hm_insert a nonce (pa_pending ?auth)\<rparr>"
    using assms(2,3) by (auto simp: auth_hello_handler_def handle_hello_def Let_def)
  have res2: "res2 = Ok (''authenticated'', a)"
    and got: "get_authenticated (nd_auth (gw_node gw2)) a =
      Some \<lparr>ap_agent_id = a, ap_public_key = identity_public_key lib attacker\<rparr>"
    using assms(4) verify_own_signature [OF assms(1), of attacker nonce]
    by (auto simp: auth_respond_def handle_response_def auth1 Let_def get_authenticated_def)
  have "\<not> signature_holds lib js gw2 env"
    using assms(5-7) got by (auto simp: signature_holds_def)
  then have "\<exists>e. check_signature lib js gw2 env = Err e"
    using check_signature_ok [of lib js gw2 env] by (cases "check_signature lib js gw2 env") auto
  then have "\<exists>e. route_envelope lib js gw2 env c uuid clk = (gw2, [], Err e)"
    by (auto simp: route_envelope_def split: sum.splits)
  with res2 got show ?thesis by blast
qed

section \<open>Witnesses\<close>

text \<open>
  A JSON library in which a value is a string or an object, times are written in unary, and an
  envelope parses when it is an object with an announcement inside.
\<close>

datatype demo_json = JStr string | JObj "(string \<times> demo_json) list"

definition demo_envelope :: "string \<Rightarrow> policy \<Rightarrow> timestamp option \<Rightarrow> string option \<Rightarrow> demo_json envelope" where
  "demo_envelope a pol expiry sg = \<lparr>en_schema_version = ''0.1'', en_intent = Announce,
     en_capability = ''matchmaking'', en_policy = pol, en_timestamp = 0,
     en_sender = \<lparr>sd_agent_id = a, sd_mesh_id = ''mesh:b''\<rparr>, en_payload = JObj [],
     en_signature = sg, en_signing_key = None, en_expiry = expiry\<rparr>"

definition demo_js :: "demo_json json_lib" where
  "demo_js = \<lparr>
     j_get = (\<lambda>v k. case v of JObj kvs \<Rightarrow> map_of kvs k | JStr _ \<Rightarrow> None),
     j_as_str = (\<lambda>v. case v of JStr s \<Rightarrow> Some s | JObj _ \<Rightarrow> None),
     j_as_array = (\<lambda>_. None), j_as_f64 = (\<lambda>_. None), j_to_vec = (\<lambda>_. Some [1, 2, 3]),
     j_envelope = (\<lambda>v. case v of JStr a \<Rightarrow> Ok (demo_envelope a MeshOnly (Some 5) None)
                                | JObj _ \<Rightarrow> Err ''missing field''),
     parse_time = (\<lambda>s. Some (int (length s))), to_rfc3339 = (\<lambda>t. show_nat (nat t))\<rparr>"

definition demo_node :: "(bytes, demo_json) mesh_node" where
  "demo_node = the (node_with_identity plain_crypto ''agent:gw'' ''mesh:a'' (demo_identity 7))"

definition demo_gw :: "(bytes, demo_json) app_state" where
  "demo_gw = gateway_start demo_node"

lemma demo_node_eq: "node_with_identity plain_crypto ''agent:gw'' ''mesh:a'' (demo_identity 7) = Some demo_node"
  by (simp add: demo_node_def node_with_identity_def clone_for_auth_def identity_from_der_def
      plain_crypto_def)

lemma demo_gw_reachable: "gw_reachable plain_crypto demo_js ''mesh:a'' demo_gw"
proof -
  have "identity_generate plain_crypto (Some [7]) = Ok (demo_identity 7)"
    by (simp add: identity_generate_def identity_from_der_def plain_crypto_def demo_identity_def)
  then have "node_new plain_crypto ''agent:gw'' ''mesh:a'' (Some [7]) = Some (Ok demo_node)"
    by (simp add: node_new_def demo_node_eq)
  then show ?thesis
    unfolding demo_gw_def by (rule g_start)
qed

lemma demo_gw_federation:
  "nd_federation (gw_node demo_gw) = federation_router_new ''mesh:a''"
  "nd_rooms (gw_node demo_gw) = room_manager_new ''mesh:a''"
  "nd_state (gw_node demo_gw) = sync_new ''mesh:a''"
  by (simp_all add: demo_gw_def gateway_start_def demo_node_def node_with_identity_def
      clone_for_auth_def identity_from_der_def plain_crypto_def)

text \<open>An envelope of another mesh, marked mesh-only and expired, arrives through federation.\<close>
theorem federated_envelope_unchecked_witness:
  "\<exists>gw' evs r. gw_federation_relay demo_js demo_gw
       \<lparr>fe_source_mesh = ''mesh:b'', fe_target_mesh = ''mesh:a'', fe_envelope = JStr ''agent:eve'',
        fe_relayed_at = 0, fe_ttl = 8\<rparr> 1 ''u'' (\<lambda>_. 10) = (gw', evs, [], Ok (ACCEPTED, r))
     \<and> map_err fst (snd (snd (route_envelope plain_crypto demo_js demo_gw
          (demo_envelope ''agent:eve'' MeshOnly (Some 5) None) 1 ''u'' (\<lambda>_. 10)))) = Err GONE"
proof -
  let ?env = "demo_envelope ''agent:eve'' MeshOnly (Some 5) None"
  let ?body = "\<lparr>fe_source_mesh = ''mesh:b'', fe_target_mesh = ''mesh:a'', fe_envelope = JStr ''agent:eve'',
    fe_relayed_at = 0, fe_ttl = 8\<rparr>"
  obtain gw' evs r where d: "dispatch_intent demo_js demo_gw ?env 1 ''u'' (\<lambda>_. 10) = (gw', evs, r)"
    by (metis prod_cases3)
  have "fe_target_mesh ?body = fr_local_mesh_id (nd_federation (gw_node demo_gw))"
    by (simp add: demo_gw_federation federation_router_new_def)
  moreover have "fe_ttl ?body \<noteq> 0" by simp
  moreover have "j_envelope demo_js (fe_envelope ?body) = Ok ?env"
    by (simp add: demo_js_def)
  moreover have "en_schema_version ?env = PROTOCOL_VERSION" "expired ?env 10"
    by (simp_all add: demo_envelope_def PROTOCOL_VERSION_def expired_def)
  ultimately show ?thesis
    using federated_envelope_unchecked [of ?body demo_gw demo_js ?env 1 "''u''" "\<lambda>_. 10" gw' evs r plain_crypto] d
    by blast
qed

text \<open>A gateway that has linked a mesh still cannot forward to it.\<close>
theorem relayed_messages_never_delivered_witness:
  "\<exists>e. gw_federation_relay demo_js (fst (create_federation_link demo_gw ''mesh:b'' None 1 0))
       \<lparr>fe_source_mesh = ''mesh:c'', fe_target_mesh = ''mesh:b'', fe_envelope = JObj [],
        fe_relayed_at = 0, fe_ttl = 8\<rparr> 1 ''u'' (\<lambda>_. 10)
     = (fst (create_federation_link demo_gw ''mesh:b'' None 1 0), [], [], Err e) \<and> fst e = BAD_GATEWAY"
proof -
  let ?gw = "fst (create_federation_link demo_gw ''mesh:b'' None 1 0)"
  have "is_linked (nd_federation (gw_node ?gw)) ''mesh:b''"
    by (simp add: create_federation_link_def link_mesh_def demo_gw_federation federation_router_new_def
        is_linked_def Let_def)
  then show ?thesis
    using relayed_messages_never_delivered [OF g_next [OF demo_gw_reachable g_link],
        where body = "\<lparr>fe_source_mesh = ''mesh:c'', fe_target_mesh = ''mesh:b'',
          fe_envelope = JObj [], fe_relayed_at = 0, fe_ttl = 8\<rparr>"]
    by fastforce
qed

theorem listed_room_has_state_witness:
  "is_ok (gw_list_state (fst (gw_create_room demo_gw
      \<lparr>crr_room_id = ''room:r'', crr_name = ''R'', crr_max_members = None\<rparr> 0)) ''room:r'')"
proof -
  let ?gw = "fst (gw_create_room demo_gw
      \<lparr>crr_room_id = ''room:r'', crr_name = ''R'', crr_max_members = None\<rparr> 0)"
  let ?info = "\<lparr>ri_room_id = ''room:r'', ri_mesh_id = ''mesh:a'', ri_name = ''R'', ri_created_at = 0,
    ri_max_members = None\<rparr>"
  obtain gw' evs res where "gw_set_state ?gw (ri_room_id ?info)
      \<lparr>ssr_agent_id = ''agent:alice'', ssr_key = ''k'', ssr_value = JObj []\<rparr> 1 = (gw', evs, res)"
    by (metis prod_cases3)
  moreover have "?info \<in> set (gw_list_rooms ?gw)"
    by (auto simp: gw_list_rooms_def list_rooms_def gw_create_room_def create_room_def
        demo_gw_federation room_manager_new_def Let_def split: if_splits)
  ultimately show ?thesis
    using listed_room_has_state [OF g_next [OF demo_gw_reachable g_create_room]] by fastforce
qed

theorem impersonation_locks_out_witness:
  "\<exists>gw2 e. get_authenticated (nd_auth (gw_node gw2)) ''agent:alice'' =
       Some \<lparr>ap_agent_id = ''agent:alice'', ap_public_key = identity_public_key plain_crypto (demo_identity 66)\<rparr>
     \<and> route_envelope plain_crypto demo_js gw2
         (demo_envelope ''agent:alice'' Public None
           (Some (sig_sig (identity_sign plain_crypto (demo_identity 1) [1, 2, 3])))) 1 ''u'' (\<lambda>_. 10)
       = (gw2, [], Err e)"
proof -
  let ?sg = "sig_sig (identity_sign plain_crypto (demo_identity 1) [1, 2, 3])"
  let ?env = "demo_envelope ''agent:alice'' Public None (Some ?sg)"
  obtain gw1 res1 where 1: "auth_hello_handler plain_crypto demo_gw
      \<lparr>ah_agent_id = ''agent:alice'', ah_public_key = identity_public_key plain_crypto (demo_identity 1)\<rparr>
      demo_random = (gw1, res1)"
    by (metis surj_pair)
  obtain gw2 res2 where 2: "auth_respond plain_crypto gw1
      \<lparr>arr_response = \<lparr>ar_agent_id = ''agent:alice'',
           ar_signature = identity_sign plain_crypto (demo_identity 66) demo_nonce\<rparr>,
       arr_public_key = identity_public_key plain_crypto (demo_identity 66)\<rparr> = (gw2, res2)"
    by (metis surj_pair)
  have env: "sd_agent_id (en_sender ?env) = ''agent:alice''" "en_signature ?env = Some ?sg"
    by (simp_all add: demo_envelope_def)
  have "\<not> is_ok (crypto_verify plain_crypto (identity_public_key plain_crypto (demo_identity 66))
      (unwrap_or (j_to_vec demo_js (en_payload ?env)) []) \<lparr>sig_sig = ?sg\<rparr>)"
    by code_simp
  then have "crypto_verify plain_crypto (identity_public_key plain_crypto (demo_identity 66))
      (unwrap_or (j_to_vec demo_js (en_payload ?env)) []) \<lparr>sig_sig = ?sg\<rparr> \<noteq> Ok ()"
    by auto
  from impersonation_locks_out [OF plain_crypto_ok demo_nonce 1 2 env this] show ?thesis by blast
qed

end
