(* ===== verification/Gateway_Routes.thy ===== *)
theory Gateway_Routes
  imports Gateway_Props
begin

text \<open>
  The route table of the gateway and its start (\<open>build_router\<close> and \<open>main\<close> of
  \<open>gateway/src/main.rs\<close>). A path pattern is the list of its segments, a request path the list of
  the segments between its slashes. The router behind axum is a parameter: \<open>router_ok\<close> is what its
  documentation says of it, that a pattern matches segment by segment, a parameter matches any
  non-empty segment, and a literal segment takes priority over a parameter. Matching is on the raw
  segments (\<open>serve\<close>); the \<open>Path\<close> extractors then decode and parse the parameters (\<open>reach\<close>), the decoding
  of percent escapes being a parameter too.
\<close>

section \<open>The route table\<close>

datatype http_method = Get | Post | Delete

datatype route_seg = Lit string | Par string

type_synonym route_pattern = "route_seg list"

text \<open>The handler functions, one constructor for each.\<close>
datatype handler =
    HHealth | HRouteEnvelope | HListPeers | HSearchPeers | HRelaySignal | HRelayStatus
    | HGossipExchange | HGossipStatus | HListRooms | HCreateRoom | HJoinRoom | HLeaveRoom
    | HRoomMembers | HListState | HSetState | HGetState | HApplyDelta | HGetSnapshot
    | HRestoreSnapshot | HListMatchRequests | HSubmitMatchRequest | HGetMatchRequest
    | HFindMatches | HCancelMatchRequest | HListSchedules | HProposeSchedule | HConfirmSchedule
    | HDeclineSchedule | HListOffers | HSubmitOffer | HGetOffer | HWithdrawOffer
    | HListFederationLinks | HCreateFederationLink | HRemoveFederationLink | HFederationRelay
    | HFederationStatus | HAuthHello | HAuthRespond | HListAuthenticatedPeers | HPurgeExpired
    | HRegisterAccount | HGetUserByUsername | HCreateCommunity | HListCommunities
    | HJoinCommunity | HListCommunityMembers | HCreateEvent | HListEvents | HCreateBroadcast
    | HListBroadcasts | HGetFeed

text \<open>The type of the \<open>Path\<close> extractor of each handler.\<close>
datatype path_type = PathString | PathU64

fun handler_path :: "handler \<Rightarrow> path_type list" where
  "handler_path HJoinRoom = [PathString]"
| "handler_path HLeaveRoom = [PathString]"
| "handler_path HRoomMembers = [PathString]"
| "handler_path HListState = [PathString]"
| "handler_path HSetState = [PathString]"
| "handler_path HApplyDelta = [PathString]"
| "handler_path HGetSnapshot = [PathString]"
| "handler_path HRestoreSnapshot = [PathString]"
| "handler_path HGetMatchRequest = [PathString]"
| "handler_path HFindMatches = [PathString]"
| "handler_path HCancelMatchRequest = [PathString]"
| "handler_path HConfirmSchedule = [PathString]"
| "handler_path HDeclineSchedule = [PathString]"
| "handler_path HGetOffer = [PathString]"
| "handler_path HWithdrawOffer = [PathString]"
| "handler_path HRemoveFederationLink = [PathString]"
| "handler_path HGetUserByUsername = [PathString]"
| "handler_path HJoinCommunity = [PathU64]"
| "handler_path HListCommunityMembers = [PathU64]"
| "handler_path HCreateEvent = [PathU64]"
| "handler_path HListEvents = [PathU64]"
| "handler_path HGetFeed = [PathU64]"
| "handler_path HGetState = [PathString, PathString]"
| "handler_path _ = []"

definition routes :: "(route_pattern \<times> (http_method \<times> handler) list) list" where
  "routes =
     [([Lit ''healthz''], [(Get, HHealth)]),
      ([Lit ''v0'', Lit ''envelope''], [(Post, HRouteEnvelope)]),
      ([Lit ''v0'', Lit ''peers''], [(Get, HListPeers)]),
      ([Lit ''v0'', Lit ''peers'', Lit ''search''], [(Get, HSearchPeers)]),
      ([Lit ''v0'', Lit ''signal'', Lit ''relay''], [(Post, HRelaySignal)]),
      ([Lit ''v0'', Lit ''signal'', Lit ''status''], [(Get, HRelayStatus)]),
      ([Lit ''v0'', Lit ''gossip'', Lit ''exchange''], [(Post, HGossipExchange)]),
      ([Lit ''v0'', Lit ''gossip'', Lit ''status''], [(Get, HGossipStatus)]),
      ([Lit ''v0'', Lit ''rooms''], [(Get, HListRooms), (Post, HCreateRoom)]),
      ([Lit ''v0'', Lit ''rooms'', Par ''room_id'', Lit ''join''], [(Post, HJoinRoom)]),
      ([Lit ''v0'', Lit ''rooms'', Par ''room_id'', Lit ''leave''], [(Post, HLeaveRoom)]),
      ([Lit ''v0'', Lit ''rooms'', Par ''room_id'', Lit ''members''], [(Get, HRoomMembers)]),
      ([Lit ''v0'', Lit ''rooms'', Par ''room_id'', Lit ''state''], [(Get, HListState), (Post, HSetState)]),
      ([Lit ''v0'', Lit ''rooms'', Par ''room_id'', Lit ''state'', Par ''key''], [(Get, HGetState)]),
      ([Lit ''v0'', Lit ''rooms'', Par ''room_id'', Lit ''state'', Lit ''delta''], [(Post, HApplyDelta)]),
      ([Lit ''v0'', Lit ''rooms'', Par ''room_id'', Lit ''state'', Lit ''snapshot''], [(Get, HGetSnapshot), (Post, HRestoreSnapshot)]),
      ([Lit ''v0'', Lit ''matchmaking'', Lit ''requests''], [(Get, HListMatchRequests), (Post, HSubmitMatchRequest)]),
      ([Lit ''v0'', Lit ''matchmaking'', Lit ''requests'', Par ''request_id''], [(Get, HGetMatchRequest)]),
      ([Lit ''v0'', Lit ''matchmaking'', Lit ''requests'', Par ''request_id'', Lit ''matches''], [(Get, HFindMatches)]),
      ([Lit ''v0'', Lit ''matchmaking'', Lit ''requests'', Par ''request_id'', Lit ''cancel''], [(Post, HCancelMatchRequest)]),
      ([Lit ''v0'', Lit ''matchmaking'', Lit ''schedules''], [(Get, HListSchedules), (Post, HProposeSchedule)]),
      ([Lit ''v0'', Lit ''matchmaking'', Lit ''schedules'', Par ''schedule_id'', Lit ''confirm''], [(Post, HConfirmSchedule)]),
      ([Lit ''v0'', Lit ''matchmaking'', Lit ''schedules'', Par ''schedule_id'', Lit ''decline''], [(Post, HDeclineSchedule)]),
      ([Lit ''v0'', Lit ''matchmaking'', Lit ''offers''], [(Get, HListOffers), (Post, HSubmitOffer)]),
      ([Lit ''v0'', Lit ''matchmaking'', Lit ''offers'', Par ''offer_id''], [(Get, HGetOffer)]),
      ([Lit ''v0'', Lit ''matchmaking'', Lit ''offers'', Par ''offer_id'', Lit ''withdraw''], [(Post, HWithdrawOffer)]),
      ([Lit ''v0'', Lit ''federation'', Lit ''links''], [(Get, HListFederationLinks), (Post, HCreateFederationLink)]),
      ([Lit ''v0'', Lit ''federation'', Lit ''links'', Par ''mesh_id''], [(Delete, HRemoveFederationLink)]),
      ([Lit ''v0'', Lit ''federation'', Lit ''relay''], [(Post, HFederationRelay)]),
      ([Lit ''v0'', Lit ''federation'', Lit ''status''], [(Get, HFederationStatus)]),
      ([Lit ''v0'', Lit ''auth'', Lit ''hello''], [(Post, HAuthHello)]),
      ([Lit ''v0'', Lit ''auth'', Lit ''respond''], [(Post, HAuthRespond)]),
      ([Lit ''v0'', Lit ''auth'', Lit ''peers''], [(Get, HListAuthenticatedPeers)]),
      ([Lit ''v0'', Lit ''maintenance'', Lit ''purge''], [(Post, HPurgeExpired)]),
      ([Lit ''v0'', Lit ''accounts'', Lit ''register''], [(Post, HRegisterAccount)]),
      ([Lit ''v0'', Lit ''users'', Par ''username''], [(Get, HGetUserByUsername)]),
      ([Lit ''v0'', Lit ''communities''], [(Post, HCreateCommunity), (Get, HListCommunities)]),
      ([Lit ''v0'', Lit ''communities'', Par ''community_id'', Lit ''join''], [(Post, HJoinCommunity)]),
      ([Lit ''v0'', Lit ''communities'', Par ''community_id'', Lit ''members''], [(Get, HListCommunityMembers)]),
      ([Lit ''v0'', Lit ''communities'', Par ''community_id'', Lit ''events''], [(Post, HCreateEvent), (Get, HListEvents)]),
      ([Lit ''v0'', Lit ''broadcasts''], [(Post, HCreateBroadcast), (Get, HListBroadcasts)]),
      ([Lit ''v0'', Lit ''feed'', Par ''user_id''], [(Get, HGetFeed)])]"

section \<open>Routing\<close>

fun is_par :: "route_seg \<Rightarrow> bool" where
  "is_par (Par _) = True"
| "is_par (Lit _) = False"

fun seg_matches :: "route_seg \<Rightarrow> string \<Rightarrow> bool" where
  "seg_matches (Lit s) v \<longleftrightarrow> v = s"
| "seg_matches (Par _) v \<longleftrightarrow> v \<noteq> []"

definition pattern_matches :: "route_pattern \<Rightarrow> string list \<Rightarrow> bool" where
  "pattern_matches p path \<longleftrightarrow> list_all2 seg_matches p path"

text \<open>Where a pattern has parameters; smaller in the lexicographic order is higher priority.\<close>
definition par_shape :: "route_pattern \<Rightarrow> bool list" where
  "par_shape p = map is_par p"

definition captures :: "route_pattern \<Rightarrow> string list \<Rightarrow> string list" where
  "captures p path = map snd (filter (\<lambda>(s, v). is_par s) (zip p path))"

definition patterns :: "route_pattern list" where
  "patterns = map fst routes"

definition router_ok :: "(string list \<Rightarrow> route_pattern option) \<Rightarrow> bool" where
  "router_ok find_route \<longleftrightarrow>
     (\<forall>path. case find_route path of
        None \<Rightarrow> list_all (\<lambda>p. \<not> pattern_matches p path) patterns
      | Some p \<Rightarrow> p \<in> set patterns \<and> pattern_matches p path
          \<and> list_all (\<lambda>q. pattern_matches q path \<longrightarrow> par_shape p \<le> par_shape q) patterns)"

datatype served = NoRoute | MethodNotAllowed | Handled handler "string list"

text \<open>The handler a request reaches: 404 when no pattern matches, 405 when the pattern lacks the method. Its parameters are raw
  segments here.\<close>
definition serve ::
    "(string list \<Rightarrow> route_pattern option) \<Rightarrow> http_method \<Rightarrow> string list \<Rightarrow> served" where
  "serve find_route meth path =
     (case find_route path of
        None \<Rightarrow> NoRoute
      | Some p \<Rightarrow>
          (case map_of routes p of
             None \<Rightarrow> NoRoute
           | Some methods \<Rightarrow>
               (case map_of methods meth of
                  None \<Rightarrow> MethodNotAllowed
                | Some h \<Rightarrow> Handled h (captures p path))))"

text \<open>A pattern with values for its parameters.\<close>
fun fill :: "route_pattern \<Rightarrow> string list \<Rightarrow> string list" where
  "fill [] vs = []"
| "fill (Lit s # p) vs = s # fill p vs"
| "fill (Par x # p) (v # vs) = v # fill p vs"
| "fill (Par x # p) [] = [] # fill p []"

definition arity :: "route_pattern \<Rightarrow> nat" where
  "arity p = length (filter is_par p)"

section \<open>Overlapping patterns\<close>

text \<open>Some instance of \<open>p\<close> may be an instance of \<open>q\<close>.\<close>
fun may_clash :: "route_pattern \<Rightarrow> route_pattern \<Rightarrow> bool" where
  "may_clash [] [] \<longleftrightarrow> True"
| "may_clash (Lit a # p) (Lit b # q) \<longleftrightarrow> (if a = b then may_clash p q else False)"
| "may_clash (_ # p) (_ # q) \<longleftrightarrow> may_clash p q"
| "may_clash _ _ \<longleftrightarrow> False"

text \<open>
  The router refuses (by a panic when it is built) two patterns that name the parameter at one
  place differently.
\<close>
fun names_agree :: "route_pattern \<Rightarrow> route_pattern \<Rightarrow> bool" where
  "names_agree (Lit a # p) (Lit b # q) \<longleftrightarrow> (a = b \<longrightarrow> names_agree p q)"
| "names_agree (Par x # p) (Par y # q) \<longleftrightarrow> x = y \<and> names_agree p q"
| "names_agree _ _ \<longleftrightarrow> True"

definition state_key_pattern :: route_pattern where
  "state_key_pattern = [Lit ''v0'', Lit ''rooms'', Par ''room_id'', Lit ''state'', Par ''key'']"

definition state_lit_pattern :: "string \<Rightarrow> route_pattern" where
  "state_lit_pattern s = [Lit ''v0'', Lit ''rooms'', Par ''room_id'', Lit ''state'', Lit s]"

lemma may_clash_length: "may_clash p q \<Longrightarrow> length p = length q"
  by (induction p q rule: may_clash.induct) (auto split: if_splits)

lemma clashing_pairs:
  "list_all (\<lambda>p. list_all (\<lambda>q.
     if length p = length q then
       if may_clash p q then
         p = q \<or> p = state_key_pattern \<and> q \<in> {state_lit_pattern ''delta'', state_lit_pattern ''snapshot''}
         \<or> q = state_key_pattern \<and> p \<in> {state_lit_pattern ''delta'', state_lit_pattern ''snapshot''}
       else True
     else True) patterns) patterns"
  by code_simp

lemma patterns_distinct: "distinct patterns"
  by code_simp

lemma patterns_agree: "list_all (\<lambda>p. list_all (names_agree p) patterns) patterns"
  by code_simp

lemma methods_distinct: "list_all (\<lambda>(p, ms). distinct (map fst ms)) routes"
  by code_simp

lemma extractors_fit:
  "list_all (\<lambda>(p, ms). list_all (\<lambda>(_, h). length (handler_path h) = arity p) ms) routes"
  by code_simp

lemma handlers_distinct: "distinct (concat (map (\<lambda>r. map snd (snd r)) routes))"
  by code_simp

lemma handlers_mounted: "h \<in> set (concat (map (\<lambda>r. map snd (snd r)) routes))"
  by (cases h) (simp_all add: routes_def)

lemma clash_only:
  assumes "p \<in> set patterns" "q \<in> set patterns" "may_clash p q"
  shows "p = q
     \<or> p = state_key_pattern \<and> q \<in> {state_lit_pattern ''delta'', state_lit_pattern ''snapshot''}
     \<or> q = state_key_pattern \<and> p \<in> {state_lit_pattern ''delta'', state_lit_pattern ''snapshot''}"
proof -
  have "if length p = length q then
       if may_clash p q then
         p = q \<or> p = state_key_pattern \<and> q \<in> {state_lit_pattern ''delta'', state_lit_pattern ''snapshot''}
         \<or> q = state_key_pattern \<and> p \<in> {state_lit_pattern ''delta'', state_lit_pattern ''snapshot''}
       else True
     else True"
    using clashing_pairs assms(1,2) unfolding list_all_iff by blast
  then show ?thesis
    using assms(3) may_clash_length [OF assms(3)] by simp
qed

section \<open>Which handler a request reaches\<close>

lemma arity_simps [simp]:
  "arity [] = 0" "arity (Lit s # p) = arity p" "arity (Par x # p) = Suc (arity p)"
  by (simp_all add: arity_def)

lemma fill_matches:
  "length vs = arity p \<Longrightarrow> list_all (\<lambda>v. v \<noteq> []) vs \<Longrightarrow> pattern_matches p (fill p vs)"
  unfolding pattern_matches_def by (induction p vs rule: fill.induct) auto

lemma fill_captures: "length vs = arity p \<Longrightarrow> captures p (fill p vs) = vs"
  unfolding captures_def by (induction p vs rule: fill.induct) auto

lemma matches_fill:
  "pattern_matches p path \<Longrightarrow> path = fill p (captures p path) \<and> length (captures p path) = arity p"
proof (induction p arbitrary: path)
  case Nil
  then show ?case by (simp add: pattern_matches_def captures_def)
next
  case (Cons s p)
  then obtain v rest where "path = v # rest" "seg_matches s v" "pattern_matches p rest"
    by (auto simp: pattern_matches_def list_all2_Cons1)
  with Cons.IH [of rest] show ?case
    by (cases s) (auto simp: captures_def)
qed

lemma fill_clash:
  "pattern_matches q (fill p vs) \<Longrightarrow> length vs = arity p \<Longrightarrow> may_clash p q"
  unfolding pattern_matches_def
proof (induction p vs arbitrary: q rule: fill.induct)
  case (2 s p vs)
  then obtain t q' where q: "q = t # q'" "seg_matches t s" "list_all2 seg_matches q' (fill p vs)"
    by (auto simp: list_all2_Cons2)
  with 2 show ?case by (cases t) auto
next
  case (3 x p v vs)
  then obtain t q' where "q = t # q'" "list_all2 seg_matches q' (fill p vs)"
    by (auto simp: list_all2_Cons2)
  with 3 show ?case by (cases t) auto
qed auto

lemma find_routeD:
  assumes "router_ok find_route" "p \<in> set patterns" "pattern_matches p path"
  shows "\<exists>q. find_route path = Some q \<and> q \<in> set patterns \<and> pattern_matches q path
    \<and> par_shape q \<le> par_shape p"
proof -
  have "case find_route path of
        None \<Rightarrow> list_all (\<lambda>p. \<not> pattern_matches p path) patterns
      | Some p \<Rightarrow> p \<in> set patterns \<and> pattern_matches p path
          \<and> list_all (\<lambda>q. pattern_matches q path \<longrightarrow> par_shape p \<le> par_shape q) patterns"
    using assms(1) unfolding router_ok_def by blast
  then show ?thesis
    using assms(2,3) by (auto simp: list_all_iff split: option.splits)
qed

lemma find_route_sound:
  assumes "router_ok find_route" "find_route path = Some p"
  shows "p \<in> set patterns" "pattern_matches p path"
  using assms unfolding router_ok_def by (force split: option.splits)+

text \<open>The only parameter that a literal shadows is the key of a room's state.\<close>
definition shadowed :: "route_pattern \<Rightarrow> string list \<Rightarrow> bool" where
  "shadowed p vs \<longleftrightarrow> p = state_key_pattern \<and> vs ! 1 \<in> {''delta'', ''snapshot''}"

lemma state_patterns:
  "state_lit_pattern ''delta'' \<in> set patterns" "state_lit_pattern ''snapshot'' \<in> set patterns"
  "state_key_pattern \<in> set patterns"
  by (simp_all add: patterns_def routes_def state_lit_pattern_def state_key_pattern_def)

lemma state_shapes:
  "\<not> par_shape state_key_pattern \<le> par_shape (state_lit_pattern s)"
  by (simp add: par_shape_def state_key_pattern_def state_lit_pattern_def)

lemma state_key_values:
  assumes "length vs = arity state_key_pattern"
  obtains r k where "vs = [r, k]"
  using assms by (auto simp: state_key_pattern_def length_Suc_conv)

lemma fill_state_key: "fill state_key_pattern [r, k] = fill (state_lit_pattern k) [r]"
  by (simp add: state_key_pattern_def state_lit_pattern_def)

lemma find_route_fill:
  assumes "router_ok find_route" "p \<in> set patterns" "length vs = arity p" "list_all (\<lambda>v. v \<noteq> []) vs"
  shows "find_route (fill p vs) = Some (if shadowed p vs then state_lit_pattern (vs ! 1) else p)"
proof -
  obtain q where q: "find_route (fill p vs) = Some q" "q \<in> set patterns"
      "pattern_matches q (fill p vs)" "par_shape q \<le> par_shape p"
    using find_routeD [OF assms(1,2) fill_matches [OF assms(3,4)]] by blast
  consider "p = q"
    | k where "p = state_key_pattern" "q = state_lit_pattern k" "k \<in> {''delta'', ''snapshot''}"
    | k where "q = state_key_pattern" "p = state_lit_pattern k"
    using clash_only [OF assms(2) q(2) fill_clash [OF q(3) assms(3)]] by blast
  then show ?thesis
  proof cases
    case 1
    have "\<not> shadowed p vs"
    proof
      assume sh: "shadowed p vs"
      then obtain r k where vs: "vs = [r, k]" and p: "p = state_key_pattern" "k \<in> {''delta'', ''snapshot''}"
        using assms(3) by (auto simp: shadowed_def elim: state_key_values)
      have "pattern_matches (state_lit_pattern k) (fill p vs)"
        unfolding p vs fill_state_key using assms(4)
        by (intro fill_matches) (simp_all add: vs state_lit_pattern_def)
      then have "par_shape q \<le> par_shape (state_lit_pattern k)"
        using find_routeD [OF assms(1), of "state_lit_pattern k" "fill p vs"] state_patterns p q(1) by auto
      then show False
        using 1 p state_shapes by simp
    qed
    with 1 q(1) show ?thesis by simp
  next
    case 2
    then obtain r k' where vs: "vs = [r, k']"
      using assms(3) by (auto elim: state_key_values)
    have "k' = k"
      using q(3) by (simp add: 2 vs pattern_matches_def state_key_pattern_def state_lit_pattern_def)
    with 2 q(1) show ?thesis by (simp add: vs shadowed_def)
  next
    case 3
    then show ?thesis using q(4) state_shapes by simp
  qed
qed

lemma map_of_routes: "(p, ms) \<in> set routes \<Longrightarrow> map_of routes p = Some ms"
  using patterns_distinct by (simp add: patterns_def)

definition serve_state_lit :: "string \<Rightarrow> http_method \<Rightarrow> string list \<Rightarrow> served" where
  "serve_state_lit k meth vs =
     (if k = ''delta'' then (case meth of Post \<Rightarrow> Handled HApplyDelta vs | _ \<Rightarrow> MethodNotAllowed)
      else (case meth of Get \<Rightarrow> Handled HGetSnapshot vs | Post \<Rightarrow> Handled HRestoreSnapshot vs
            | Delete \<Rightarrow> MethodNotAllowed))"

lemma state_lit_routes:
  "map_of routes (state_lit_pattern ''delta'') = Some [(Post, HApplyDelta)]"
  "map_of routes (state_lit_pattern ''snapshot'') = Some [(Get, HGetSnapshot), (Post, HRestoreSnapshot)]"
  "map_of routes state_key_pattern = Some [(Get, HGetState)]"
  by (rule map_of_routes, simp add: routes_def state_lit_pattern_def state_key_pattern_def)+

lemma serve_lit:
  assumes "find_route path = Some (state_lit_pattern k)" "k = ''delta'' \<or> k = ''snapshot''"
  shows "serve find_route meth path = serve_state_lit k meth (captures (state_lit_pattern k) path)"
  using assms(2)
  by (elim disjE; cases meth)
    (simp_all add: serve_def assms(1) state_lit_routes serve_state_lit_def)

lemma get_state_mounted:
  "list_all (\<lambda>(p, ms). list_all (\<lambda>(_, h). if h = HGetState then p = state_key_pattern else True) ms) routes"
  by code_simp

text \<open>No request reaches \<open>get_state\<close> with a shadowed key.\<close>
lemma get_state_reached:
  assumes "router_ok find_route" "serve find_route meth path = Handled HGetState vs"
  shows "\<exists>r k. vs = [r, k] \<and> k \<noteq> ''delta'' \<and> k \<noteq> ''snapshot''"
proof -
  obtain p ms where p: "find_route path = Some p" "map_of routes p = Some ms"
      "map_of ms meth = Some HGetState" "vs = captures p path"
    using assms(2) by (auto simp: serve_def split: option.splits)
  have key: "p = state_key_pattern"
    using get_state_mounted map_of_SomeD [OF p(2)] map_of_SomeD [OF p(3)]
    by (auto simp: list_all_iff split: if_splits)
  have "pattern_matches p path"
    using find_route_sound [OF assms(1) p(1)] by blast
  then have path: "path = fill p vs" "length vs = arity p" and ne: "list_all (\<lambda>v. v \<noteq> []) vs"
    using matches_fill [of p path] by (auto simp: p(4) key state_key_pattern_def pattern_matches_def
        captures_def list_all2_Cons1)
  have "Some p = Some (if shadowed p vs then state_lit_pattern (vs ! 1) else p)"
    using find_route_fill [OF assms(1) _ path(2) ne] p(1) state_patterns(3) by (simp add: key path(1))
  then have "\<not> shadowed p vs"
    by (auto simp: key state_key_pattern_def state_lit_pattern_def)
  moreover obtain r k where "vs = [r, k]"
    using path(2) unfolding key by (rule state_key_values)
  ultimately show ?thesis by (simp add: shadowed_def key)
qed

section \<open>Path parameters\<close>

text \<open>\<open>u64::from_str\<close>: an optional plus sign, at least one decimal digit, no overflow.\<close>
definition digit_value :: "char \<Rightarrow> nat option" where
  "digit_value ch = (let n = of_char ch :: nat in if 48 \<le> n \<and> n \<le> 57 then Some (n - 48) else None)"

fun parse_digits :: "nat \<Rightarrow> string \<Rightarrow> nat option" where
  "parse_digits n [] = Some n"
| "parse_digits n (ch # s) = (case digit_value ch of None \<Rightarrow> None | Some d \<Rightarrow> parse_digits (10 * n + d) s)"

definition parse_u64 :: "string \<Rightarrow> u64 option" where
  "parse_u64 s =
     (let digits = (case s of ch # rest \<Rightarrow> if ch = CHR ''+'' then rest else s | [] \<Rightarrow> [])
      in if digits = [] then None
         else case parse_digits 0 digits of
                None \<Rightarrow> None
              | Some n \<Rightarrow> if n < 2 ^ 64 then Some (of_nat n) else None)"

datatype path_arg = StringArg string | U64Arg u64

fun arg_type :: "path_arg \<Rightarrow> path_type" where
  "arg_type (StringArg _) = PathString"
| "arg_type (U64Arg _) = PathU64"

text \<open>
  What a handler's \<open>Path\<close> extractor makes of a segment. \<open>decode\<close> is axum's percent-decoding, \<open>None\<close>
  for bytes that are not UTF-8.
\<close>
fun extract_arg :: "(string \<Rightarrow> string option) \<Rightarrow> path_type \<Rightarrow> string \<Rightarrow> path_arg option" where
  "extract_arg decode PathString v = map_option StringArg (decode v)"
| "extract_arg decode PathU64 v = map_option U64Arg (Option.bind (decode v) parse_u64)"

definition extract_args ::
    "(string \<Rightarrow> string option) \<Rightarrow> path_type list \<Rightarrow> string list \<Rightarrow> path_arg list option" where
  "extract_args decode tys vs = those (map2 (extract_arg decode) tys vs)"

text \<open>
  What becomes of a request before its handler runs: besides 404 and 405, 400 when a parameter does not
  decode or parse, and 500 when the extractor and the pattern disagree about how many there are.
\<close>
datatype reached =
    NotFound | NotAllowed | InvalidPath | WrongPathCount | Reached handler "path_arg list"

definition reach ::
    "(string \<Rightarrow> string option) \<Rightarrow> (string list \<Rightarrow> route_pattern option) \<Rightarrow> http_method \<Rightarrow> string list
      \<Rightarrow> reached" where
  "reach decode find_route meth path =
     (case serve find_route meth path of
        NoRoute \<Rightarrow> NotFound
      | MethodNotAllowed \<Rightarrow> NotAllowed
      | Handled h vs \<Rightarrow>
          if length vs \<noteq> length (handler_path h) then WrongPathCount
          else case extract_args decode (handler_path h) vs of
                 None \<Rightarrow> InvalidPath
               | Some args \<Rightarrow> Reached h args)"

lemma those_Some: "those xs = Some ys \<longleftrightarrow> xs = map Some ys"
  by (induction xs arbitrary: ys) (auto split: option.splits)

lemma extract_arg_type: "extract_arg decode ty v = Some arg \<Longrightarrow> arg_type arg = ty"
  by (cases ty) auto

lemma extract_args_types:
  assumes "extract_args decode tys vs = Some args" "length vs = length tys"
  shows "map arg_type args = tys"
proof -
  have "map2 (extract_arg decode) tys vs = map Some args"
    using assms(1) by (simp add: extract_args_def those_Some)
  with assms(2) show ?thesis
  proof (induction tys vs arbitrary: args rule: list_induct2')
    case (4 ty tys v vs)
    then show ?case by (cases args) (auto dest: extract_arg_type)
  qed auto
qed

lemma serve_arity:
  assumes "router_ok find_route" "serve find_route meth path = Handled h vs"
  shows "length vs = length (handler_path h)"
proof -
  obtain p ms where p: "find_route path = Some p" "map_of routes p = Some ms" "map_of ms meth = Some h"
      "vs = captures p path"
    using assms(2) by (auto simp: serve_def split: option.splits)
  have "length (handler_path h) = arity p"
    using extractors_fit map_of_SomeD [OF p(2)] map_of_SomeD [OF p(3)] by (fastforce simp: list_all_iff)
  with matches_fill [OF find_route_sound(2) [OF assms(1) p(1)]] p(4) show ?thesis by simp
qed

lemma serve_fill:
  assumes "router_ok find_route" "(p, ms) \<in> set routes" "length vs = arity p" "list_all (\<lambda>v. v \<noteq> []) vs"
    and "\<not> shadowed p vs"
  shows "serve find_route meth (fill p vs) =
    (case map_of ms meth of None \<Rightarrow> MethodNotAllowed | Some h \<Rightarrow> Handled h vs)"
proof -
  have "p \<in> set patterns"
    using assms(2) by (force simp: patterns_def)
  from find_route_fill [OF assms(1) this assms(3,4)] assms(5) show ?thesis
    by (simp add: serve_def map_of_routes [OF assms(2)] fill_captures [OF assms(3)] split: option.splits)
qed

section \<open>Properties\<close>


text \<open>
  C18: Every endpoint is reached at its path, whatever values its parameters have: a request for an
  instance of a pattern goes to the handler mounted there for its method, with those values, and is
  answered 405 when there is none. The one exception is a room's state under the keys \<open>delta\<close> and
  \<open>snapshot\<close>, where the requests go to the endpoints of those names. A path that is an instance of no
  pattern is answered 404.
\<close>
theorem endpoint_reached:
  assumes "router_ok find_route" and "(p, ms) \<in> set routes"
    and "length vs = arity p" and "list_all (\<lambda>v. v \<noteq> []) vs"
  shows "serve find_route meth (fill p vs) =
       (if p = state_key_pattern \<and> vs ! 1 = ''delta'' then
          (case meth of Post \<Rightarrow> Handled HApplyDelta [hd vs] | _ \<Rightarrow> MethodNotAllowed)
        else if p = state_key_pattern \<and> vs ! 1 = ''snapshot'' then
          (case meth of Get \<Rightarrow> Handled HGetSnapshot [hd vs]
           | Post \<Rightarrow> Handled HRestoreSnapshot [hd vs] | Delete \<Rightarrow> MethodNotAllowed)
        else (case map_of ms meth of None \<Rightarrow> MethodNotAllowed | Some h \<Rightarrow> Handled h vs))
     \<and> (list_ex (\<lambda>q. pattern_matches q path) (map fst routes) \<or> serve find_route meth path = NoRoute)"
proof -
  have p: "p \<in> set patterns"
    using assms(2) by (force simp: patterns_def)
  note found = find_route_fill [OF assms(1) p assms(3,4)]
  have "serve find_route meth (fill p vs) =
      (case map_of ms meth of None \<Rightarrow> MethodNotAllowed | Some h \<Rightarrow> Handled h vs)" if "\<not> shadowed p vs"
    using that by (simp add: serve_def found map_of_routes [OF assms(2)] fill_captures [OF assms(3)]
        split: option.splits)
  moreover have "serve find_route meth (fill p vs) = serve_state_lit (vs ! 1) meth [hd vs]"
    if sh: "shadowed p vs"
  proof -
    have "length vs = arity state_key_pattern" "p = state_key_pattern"
      using sh assms(3) by (auto simp: shadowed_def)
    then obtain r k where vs: "vs = [r, k]" "p = state_key_pattern"
      by (metis state_key_values)
    have "find_route (fill p vs) = Some (state_lit_pattern k)"
      using found sh by (simp add: vs)
    moreover have "captures (state_lit_pattern k) (fill p vs) = [r]"
      unfolding vs fill_state_key by (rule fill_captures) (simp add: state_lit_pattern_def)
    ultimately show ?thesis
      using serve_lit [of find_route "fill p vs" k meth] sh by (simp add: vs shadowed_def)
  qed
  moreover have "serve find_route meth path = NoRoute"
    if "\<not> list_ex (\<lambda>q. pattern_matches q path) (map fst routes)"
  proof (cases "find_route path")
    case (Some q)
    then show ?thesis
      using find_route_sound [OF assms(1) Some] that by (auto simp: list_ex_iff patterns_def)
  qed (simp add: serve_def)
  ultimately show ?thesis
    unfolding shadowed_def serve_state_lit_def by auto
qed

text \<open>A router that behaves as documented: the matching pattern of the highest priority.\<close>
definition priority_router :: "string list \<Rightarrow> route_pattern option" where
  "priority_router path =
     (case filter (\<lambda>p. pattern_matches p path) patterns of
        [] \<Rightarrow> None
      | p # ps \<Rightarrow> Some (arg_min_list par_shape (p # ps)))"

lemma priority_router_ok: "router_ok priority_router"
  unfolding router_ok_def
proof
  fix path
  show "case priority_router path of
        None \<Rightarrow> list_all (\<lambda>p. \<not> pattern_matches p path) patterns
      | Some p \<Rightarrow> p \<in> set patterns \<and> pattern_matches p path
          \<and> list_all (\<lambda>q. pattern_matches q path \<longrightarrow> par_shape p \<le> par_shape q) patterns"
  proof (cases "filter (\<lambda>p. pattern_matches p path) patterns")
    case Nil
    then show ?thesis by (simp add: priority_router_def filter_empty_conv list_all_iff)
  next
    case (Cons p ps)
    let ?r = "arg_min_list par_shape (p # ps)"
    have r: "priority_router path = Some ?r"
      by (simp add: priority_router_def Cons)
    have set: "set (p # ps) = {q \<in> set patterns. pattern_matches q path}"
      unfolding Cons [symmetric] by simp
    have "?r \<in> set (p # ps)"
      by (rule arg_min_list_in) simp
    moreover have "par_shape ?r \<le> par_shape q" if "q \<in> set (p # ps)" for q
      using that f_arg_min_list_f [of "p # ps" par_shape] by (metis Min_le finite_imageI finite_set
          imageI list.distinct(1))
    ultimately show ?thesis
      unfolding r set by (auto simp: list_all_iff)
  qed
qed

theorem endpoint_reached_witness:
  "serve priority_router Get [''v0'', ''rooms'', ''r1'', ''state'', ''snapshot''] = Handled HGetSnapshot [''r1'']
   \<and> serve priority_router Get [''v0'', ''rooms'', ''r1'', ''state'', ''score''] = Handled HGetState [''r1'', ''score'']"
proof -
  have "(state_key_pattern, [(Get, HGetState)]) \<in> set routes"
    using state_lit_routes(3) by (rule map_of_SomeD)
  note served = endpoint_reached [OF priority_router_ok this, THEN conjunct1]
  show ?thesis
    using served [of "[''r1'', ''snapshot'']" Get] served [of "[''r1'', ''score'']" Get]
    by (simp add: state_key_pattern_def)
qed


text \<open>
  C29: State under the keys \<open>delta\<close> and \<open>snapshot\<close> is hidden at its own path. Setting such a key in a room that
  has state succeeds like any other. But no request whose path spells the key plainly reaches \<open>get_state\<close>
  with it, whatever its method: where the entry should be, \<open>delta\<close> is answered 405, and \<open>snapshot\<close> with the
  snapshot of the room. The entry is there: a request whose path spells the key with percent escapes
  reaches \<open>get_state\<close>, which returns the entry, and \<open>list_state\<close> lists it.
\<close>
theorem reserved_state_keys:
  assumes "router_ok find_route" and "key = ''delta'' \<or> key = ''snapshot''"
    and "seg \<noteq> []" and "decode seg = Some room"
    and "escaped \<noteq> []" and "escaped \<noteq> ''delta''" and "escaped \<noteq> ''snapshot''" and "decode escaped = Some key"
    and "hm_get (sync_rooms (nd_state (gw_node gw))) room \<noteq> None"
    and "gw_set_state gw room \<lparr>ssr_agent_id = a, ssr_key = key, ssr_value = v\<rparr> now = (gw', evs, res)"
  shows "is_ok res
     \<and> reach decode find_route Post [''v0'', ''rooms'', seg, ''state''] = Reached HSetState [StringArg room]
     \<and> reach decode find_route Get [''v0'', ''rooms'', seg, ''state'', key] =
         (if key = ''delta'' then NotAllowed else Reached HGetSnapshot [StringArg room])
     \<and> serve find_route meth path \<noteq> Handled HGetState [r, key]
     \<and> reach decode find_route Get [''v0'', ''rooms'', seg, ''state'', escaped] =
         Reached HGetState [StringArg room, StringArg key]
     \<and> (\<exists>e es. gw_get_state gw' room key = Ok e \<and> gw_list_state gw' room = Ok es \<and> e \<in> set es)"
proof -
  obtain st where st: "hm_get (sync_rooms (nd_state (gw_node gw))) room = Some st"
    using assms(9) by auto
  have stored: "is_ok res" "nd_state (gw_node gw') = fst (sync_set (nd_state (gw_node gw)) room a key v now)"
    using assms(10) st by (auto simp: gw_set_state_def sync_set_def Let_def)
  let ?e = "\<lparr>se_key = key, se_value = v, se_author = a, se_clock = fst (vc_tick (rs_clock st) a), se_updated_at = now\<rparr>"
  have "entry_view (apply_step ?e st) key \<noteq> None"
    by (simp add: apply_entry_eq split: option.split)
  then obtain e where e: "hm_get (rs_entries (apply_step ?e st)) key = Some e"
    by (auto simp: entry_view_def)
  have room: "hm_get (sync_rooms (nd_state (gw_node gw'))) room = Some (apply_step ?e st)"
    by (simp add: stored(2) rooms_sync_set [OF st])
  have read: "\<exists>e es. gw_get_state gw' room key = Ok e \<and> gw_list_state gw' room = Ok es \<and> e \<in> set es"
    using room e by (auto simp: gw_get_state_def gw_list_state_def sync_get_def list_entries_def)
  let ?p = "[Lit ''v0'', Lit ''rooms'', Par ''room_id'', Lit ''state'']"
  have "(?p, [(Get, HListState), (Post, HSetState)]) \<in> set routes"
    by (simp add: routes_def)
  from serve_fill [OF assms(1) this, of "[seg]" Post] assms(3)
  have set: "serve find_route Post [''v0'', ''rooms'', seg, ''state''] = Handled HSetState [seg]"
    by (simp add: shadowed_def state_key_pattern_def)
  have "find_route (fill state_key_pattern [seg, key]) = Some (state_lit_pattern key)"
    using find_route_fill [OF assms(1) state_patterns(3), of "[seg, key]"] assms(2,3)
    by (auto simp: shadowed_def state_key_pattern_def)
  then have "find_route [''v0'', ''rooms'', seg, ''state'', key] = Some (state_lit_pattern key)"
    by (simp add: state_key_pattern_def)
  from serve_lit [of find_route, OF this assms(2)]
  have plain: "serve find_route Get [''v0'', ''rooms'', seg, ''state'', key] = serve_state_lit key Get [seg]"
    by (simp add: captures_def state_lit_pattern_def)
  have "(state_key_pattern, [(Get, HGetState)]) \<in> set routes"
    using state_lit_routes(3) by (rule map_of_SomeD)
  from serve_fill [OF assms(1) this, of "[seg, escaped]" Get] assms(3,5-7)
  have esc: "serve find_route Get [''v0'', ''rooms'', seg, ''state'', escaped] = Handled HGetState [seg, escaped]"
    by (simp add: shadowed_def state_key_pattern_def)
  have "serve find_route meth path \<noteq> Handled HGetState [r, key]"
    using get_state_reached [OF assms(1)] assms(2) by blast
  then show ?thesis
    using stored(1) read set plain esc assms(2,4,8)
    by (auto simp: reach_def extract_args_def serve_state_lit_def)
qed

text \<open>A decoder that knows one escape.\<close>
definition demo_decode :: "string \<Rightarrow> string option" where
  "demo_decode s = Some (if s = ''%64elta'' then ''delta'' else s)"

theorem reserved_state_keys_witness:
  "reach demo_decode priority_router Get [''v0'', ''rooms'', ''r1'', ''state'', ''delta''] = NotAllowed
   \<and> reach demo_decode priority_router Get [''v0'', ''rooms'', ''r1'', ''state'', ''%64elta''] =
       Reached HGetState [StringArg ''r1'', StringArg ''delta'']
   \<and> is_ok (gw_get_state (fst (gw_set_state (fst (gw_create_room demo_gw
       \<lparr>crr_room_id = ''r1'', crr_name = ''R'', crr_max_members = None\<rparr> 0)) ''r1''
       \<lparr>ssr_agent_id = ''agent:alice'', ssr_key = ''delta'', ssr_value = JObj []\<rparr> 1)) ''r1'' ''delta'')"
proof -
  let ?gw = "fst (gw_create_room demo_gw \<lparr>crr_room_id = ''r1'', crr_name = ''R'', crr_max_members = None\<rparr> 0)"
  have room: "hm_get (sync_rooms (nd_state (gw_node ?gw))) ''r1'' \<noteq> None"
    by (simp add: gw_create_room_def create_room_def demo_gw_federation room_manager_new_def
        init_room_def Let_def)
  obtain gw' evs res where run: "gw_set_state ?gw ''r1''
      \<lparr>ssr_agent_id = ''agent:alice'', ssr_key = ''delta'', ssr_value = JObj []\<rparr> 1 = (gw', evs, res)"
    by (metis prod_cases3)
  have dec: "demo_decode ''r1'' = Some ''r1''" "demo_decode ''%64elta'' = Some ''delta''"
    by (simp_all add: demo_decode_def)
  have "''r1'' \<noteq> []" "''%64elta'' \<noteq> []" "''%64elta'' \<noteq> ''delta''" "''%64elta'' \<noteq> ''snapshot''"
    by simp_all
  from reserved_state_keys [OF priority_router_ok _ this(1) dec(1) this(2-4) dec(2) room run, of Get "[]" "''r1''"]
  show ?thesis by (auto simp: run)
qed

section \<open>The start of the gateway\<close>

definition DEFAULT_BIND_ADDR :: string where
  "DEFAULT_BIND_ADDR = ''0.0.0.0:8080''"

text \<open>\<open>env\<close> is \<open>env::var\<close>, with \<open>None\<close> for an unset (or ill-formed) variable.\<close>
definition main_config :: "(string \<Rightarrow> string option) \<Rightarrow> string \<times> string \<times> string" where
  "main_config env =
     (unwrap_or (env ''GATEWAY_ADDR'') DEFAULT_BIND_ADDR,
      unwrap_or (env ''MESH_ID'') ''mesh:default'',
      unwrap_or (env ''NODE_ID'') ''node:gateway-0'')"

datatype ('kp, 'j) main_outcome =
    MainError                                 \<comment> \<open>\<open>main\<close> returns an error\<close>
  | MainPanic                                 \<comment> \<open>\<open>expect\<close> fails\<close>
  | Serving "('kp, 'j) app_state"             \<comment> \<open>the router serves this state\<close>

text \<open>\<open>parses\<close> and \<open>binds\<close> say whether the address parses and can be bound.\<close>
definition gateway_main ::
    "'kp crypto_lib \<Rightarrow> (string \<Rightarrow> bool) \<Rightarrow> (string \<Rightarrow> bool) \<Rightarrow> (string \<Rightarrow> string option) \<Rightarrow> bytes option
      \<Rightarrow> ('kp, 'j) main_outcome" where
  "gateway_main lib parses binds env rand =
     (let (bind_addr, mesh_id, node_id) = main_config env
      in if \<not> parses bind_addr then MainError
         else case node_new lib node_id mesh_id rand of
                Some (Inr node) \<Rightarrow>
                  if binds bind_addr then Serving (gateway_start node) else MainError
              | _ \<Rightarrow> MainPanic)"

text \<open>What \<open>main\<close> serves is a reachable gateway of the configured mesh.\<close>
lemma gateway_main_reachable:
  assumes "gateway_main lib parses binds env rand = Serving gw"
  shows "gw_reachable lib js (unwrap_or (env ''MESH_ID'') ''mesh:default'') gw"
  using assms
  by (auto simp: gateway_main_def main_config_def intro: g_start
      split: if_splits option.splits sum.splits)

end
