(* ===== verification/Gateway_Service.thy ===== *)
theory Gateway_Service
  imports Gateway_Routes
begin

text \<open>
  The gateway as one function from requests to replies: a request is a handler with its decoded
  arguments, \<open>handle_request\<close> runs the handler on the gateway's state. What is shown here holds for
  every endpoint at once: reading requests change nothing, a refused request changes nothing and
  announces nothing, and a served request leaves the gateway in a reachable state.
\<close>

section \<open>Requests\<close>

text \<open>The arguments of each handler: its path parameters, then its query or body.\<close>
datatype 'j request =
    RqHealth
  | RqEnvelope "'j envelope"
  | RqListPeers
  | RqSearchPeers peer_search_query
  | RqRelaySignal signal_message
  | RqRelayStatus
  | RqGossipExchange gossip_message
  | RqGossipStatus
  | RqListRooms
  | RqCreateRoom create_room_request
  | RqJoinRoom string string
  | RqLeaveRoom string string
  | RqRoomMembers string
  | RqListState string
  | RqSetState string "'j set_state_request"
  | RqGetState string string
  | RqApplyDelta string "'j state_delta"
  | RqGetSnapshot string
  | RqRestoreSnapshot string "'j state_snapshot"
  | RqListMatchRequests
  | RqSubmitMatchRequest submit_match_body
  | RqGetMatchRequest string
  | RqFindMatches string
  | RqCancelMatchRequest string
  | RqListSchedules "string option"
  | RqProposeSchedule propose_schedule_body
  | RqConfirmSchedule string
  | RqDeclineSchedule string
  | RqListOffers
  | RqSubmitOffer submit_offer_body
  | RqGetOffer string
  | RqWithdrawOffer string
  | RqListFederationLinks
  | RqCreateFederationLink string "string option"
  | RqRemoveFederationLink string
  | RqFederationRelay "'j federation_envelope"
  | RqFederationStatus
  | RqAuthHello auth_hello
  | RqAuthRespond auth_respond_request
  | RqListAuthenticatedPeers
  | RqPurgeExpired
  | RqRegisterAccount register_account_request
  | RqGetUserByUsername string
  | RqCreateCommunity create_community_request
  | RqListCommunities
  | RqJoinCommunity u64 u64
  | RqListCommunityMembers u64
  | RqCreateEvent u64 create_event_request
  | RqListEvents u64
  | RqCreateBroadcast create_broadcast_request
  | RqListBroadcasts
  | RqGetFeed u64

fun request_handler :: "'j request \<Rightarrow> handler" where
  "request_handler RqHealth = HHealth"
| "request_handler (RqEnvelope _) = HRouteEnvelope"
| "request_handler RqListPeers = HListPeers"
| "request_handler (RqSearchPeers _) = HSearchPeers"
| "request_handler (RqRelaySignal _) = HRelaySignal"
| "request_handler RqRelayStatus = HRelayStatus"
| "request_handler (RqGossipExchange _) = HGossipExchange"
| "request_handler RqGossipStatus = HGossipStatus"
| "request_handler RqListRooms = HListRooms"
| "request_handler (RqCreateRoom _) = HCreateRoom"
| "request_handler (RqJoinRoom _ _) = HJoinRoom"
| "request_handler (RqLeaveRoom _ _) = HLeaveRoom"
| "request_handler (RqRoomMembers _) = HRoomMembers"
| "request_handler (RqListState _) = HListState"
| "request_handler (RqSetState _ _) = HSetState"
| "request_handler (RqGetState _ _) = HGetState"
| "request_handler (RqApplyDelta _ _) = HApplyDelta"
| "request_handler (RqGetSnapshot _) = HGetSnapshot"
| "request_handler (RqRestoreSnapshot _ _) = HRestoreSnapshot"
| "request_handler RqListMatchRequests = HListMatchRequests"
| "request_handler (RqSubmitMatchRequest _) = HSubmitMatchRequest"
| "request_handler (RqGetMatchRequest _) = HGetMatchRequest"
| "request_handler (RqFindMatches _) = HFindMatches"
| "request_handler (RqCancelMatchRequest _) = HCancelMatchRequest"
| "request_handler (RqListSchedules _) = HListSchedules"
| "request_handler (RqProposeSchedule _) = HProposeSchedule"
| "request_handler (RqConfirmSchedule _) = HConfirmSchedule"
| "request_handler (RqDeclineSchedule _) = HDeclineSchedule"
| "request_handler RqListOffers = HListOffers"
| "request_handler (RqSubmitOffer _) = HSubmitOffer"
| "request_handler (RqGetOffer _) = HGetOffer"
| "request_handler (RqWithdrawOffer _) = HWithdrawOffer"
| "request_handler RqListFederationLinks = HListFederationLinks"
| "request_handler (RqCreateFederationLink _ _) = HCreateFederationLink"
| "request_handler (RqRemoveFederationLink _) = HRemoveFederationLink"
| "request_handler (RqFederationRelay _) = HFederationRelay"
| "request_handler RqFederationStatus = HFederationStatus"
| "request_handler (RqAuthHello _) = HAuthHello"
| "request_handler (RqAuthRespond _) = HAuthRespond"
| "request_handler RqListAuthenticatedPeers = HListAuthenticatedPeers"
| "request_handler RqPurgeExpired = HPurgeExpired"
| "request_handler (RqRegisterAccount _) = HRegisterAccount"
| "request_handler (RqGetUserByUsername _) = HGetUserByUsername"
| "request_handler (RqCreateCommunity _) = HCreateCommunity"
| "request_handler RqListCommunities = HListCommunities"
| "request_handler (RqJoinCommunity _ _) = HJoinCommunity"
| "request_handler (RqListCommunityMembers _) = HListCommunityMembers"
| "request_handler (RqCreateEvent _ _) = HCreateEvent"
| "request_handler (RqListEvents _) = HListEvents"
| "request_handler (RqCreateBroadcast _) = HCreateBroadcast"
| "request_handler RqListBroadcasts = HListBroadcasts"
| "request_handler (RqGetFeed _) = HGetFeed"

text \<open>What a handler draws from outside: a channel, a fresh id, readings of the clock, random bytes.\<close>
record draws =
  dr_chan :: chan
  dr_uuid :: string
  dr_clk :: "nat \<Rightarrow> timestamp"
  dr_rand :: random_source

text \<open>The body of a success is what the endpoint's own definition returns.\<close>
datatype reply = Done | Refused http_error | Crashed

abbreviation reply_of :: "(http_error, 'a) result \<Rightarrow> reply" where
  "reply_of res \<equiv> (case res of Inl e \<Rightarrow> Refused e | Inr _ \<Rightarrow> Done)"

abbreviation on_social ::
    "('kp, 'j) app_state \<Rightarrow> social_store \<times> (http_error, 'a) result
      \<Rightarrow> ('kp, 'j) app_state \<times> event list \<times> reply" where
  "on_social gw r \<equiv> (gw\<lparr>gw_social := fst r\<rparr>, [], reply_of (snd r))"

fun handle_request ::
    "'kp crypto_lib \<Rightarrow> 'j json_lib \<Rightarrow> draws \<Rightarrow> ('kp, 'j) app_state \<Rightarrow> 'j request
      \<Rightarrow> ('kp, 'j) app_state \<times> event list \<times> reply" where
  "handle_request lib js d gw (RqEnvelope env) =
     (let (gw', evs, res) = route_envelope lib js gw env (dr_chan d) (dr_uuid d) (dr_clk d)
      in (gw', evs, reply_of res))"
| "handle_request lib js d gw (RqRelaySignal msg) =
     (let (_, evs, res) = gw_relay_signal gw msg in (gw, evs, reply_of res))"
| "handle_request lib js d gw (RqGossipExchange msg) =
     (let (gw', evs, _) = gossip_exchange gw msg in (gw', evs, Done))"
| "handle_request lib js d gw (RqCreateRoom body) =
     (let (gw', res) = gw_create_room gw body (dr_clk d 0) in (gw', [], reply_of res))"
| "handle_request lib js d gw (RqJoinRoom rid a) =
     (let (gw', evs, res) = gw_join_room gw rid a in (gw', evs, reply_of res))"
| "handle_request lib js d gw (RqLeaveRoom rid a) =
     (let (gw', evs, res) = gw_leave_room gw rid a in (gw', evs, reply_of res))"
| "handle_request lib js d gw (RqRoomMembers rid) = (gw, [], reply_of (gw_room_members gw rid))"
| "handle_request lib js d gw (RqListState rid) = (gw, [], reply_of (gw_list_state gw rid))"
| "handle_request lib js d gw (RqSetState rid body) =
     (let (gw', evs, res) = gw_set_state gw rid body (dr_clk d 0) in (gw', evs, reply_of res))"
| "handle_request lib js d gw (RqGetState rid k) = (gw, [], reply_of (gw_get_state gw rid k))"
| "handle_request lib js d gw (RqApplyDelta rid delta) =
     (let (gw', evs, res) = gw_apply_delta gw rid delta in (gw', evs, reply_of res))"
| "handle_request lib js d gw (RqGetSnapshot rid) =
     (gw, [], reply_of (gw_get_snapshot gw rid (dr_clk d 0)))"
| "handle_request lib js d gw (RqRestoreSnapshot rid snap) =
     (let (gw', evs, res) = gw_restore_snapshot gw rid snap in (gw', evs, reply_of res))"
| "handle_request lib js d gw (RqSubmitMatchRequest body) =
     (let (gw', evs, _) = submit_match_request gw body (dr_uuid d) (dr_clk d 0) in (gw', evs, Done))"
| "handle_request lib js d gw (RqGetMatchRequest i) = (gw, [], reply_of (get_match_request gw i))"
| "handle_request lib js d gw (RqFindMatches i) = (gw, [], reply_of (gw_find_matches gw i))"
| "handle_request lib js d gw (RqCancelMatchRequest i) =
     (let (gw', res) = cancel_match_request gw i in (gw', [], reply_of res))"
| "handle_request lib js d gw (RqProposeSchedule body) =
     (let (gw', evs, _) = propose_schedule gw body (dr_uuid d) (dr_clk d 0) in (gw', evs, Done))"
| "handle_request lib js d gw (RqConfirmSchedule i) =
     (let (gw', evs, res) = confirm_schedule gw i in (gw', evs, reply_of res))"
| "handle_request lib js d gw (RqDeclineSchedule i) =
     (let (gw', evs, res) = decline_schedule gw i in (gw', evs, reply_of res))"
| "handle_request lib js d gw (RqSubmitOffer body) =
     (let (gw', evs, _) = gw_submit_offer gw body (dr_clk d 0) in (gw', evs, Done))"
| "handle_request lib js d gw (RqGetOffer i) = (gw, [], reply_of (gw_get_offer gw i (dr_clk d 0)))"
| "handle_request lib js d gw (RqWithdrawOffer i) =
     (let (gw', res) = gw_withdraw_offer gw i in (gw', [], reply_of res))"
| "handle_request lib js d gw (RqCreateFederationLink m label) =
     (let (gw', evs, res) = create_federation_link gw m label (dr_chan d) (dr_clk d 0)
      in (gw', evs, reply_of res))"
| "handle_request lib js d gw (RqRemoveFederationLink m) =
     (let (gw', evs, res) = remove_federation_link gw m in (gw', evs, reply_of res))"
| "handle_request lib js d gw (RqFederationRelay body) =
     (let (gw', evs, _, res) = gw_federation_relay js gw body (dr_chan d) (dr_uuid d) (dr_clk d)
      in (gw', evs, reply_of res))"
| "handle_request lib js d gw (RqAuthHello hello) =
     (let (gw', res) = auth_hello_handler lib gw hello (dr_rand d) in (gw', [], reply_of res))"
| "handle_request lib js d gw (RqAuthRespond body) =
     (let (gw', res) = auth_respond lib gw body in (gw', [], reply_of res))"
| "handle_request lib js d gw RqPurgeExpired =
     (let (gw', _) = gw_purge_expired gw (dr_clk d 0) in (gw', [], Done))"
| "handle_request lib js d gw (RqRegisterAccount req) =
     on_social gw (register_account (gw_social gw) req (dr_clk d 0))"
| "handle_request lib js d gw (RqGetUserByUsername name) =
     (gw, [], (case get_user_by_username (gw_social gw) name of None \<Rightarrow> Crashed | Some res \<Rightarrow> reply_of res))"
| "handle_request lib js d gw (RqCreateCommunity req) =
     on_social gw (create_community (gw_social gw) req (dr_clk d 0))"
| "handle_request lib js d gw (RqJoinCommunity c u) = on_social gw (join_community (gw_social gw) c u)"
| "handle_request lib js d gw (RqListCommunityMembers c) =
     (gw, [], reply_of (list_community_members (gw_social gw) c))"
| "handle_request lib js d gw (RqCreateEvent c req) =
     on_social gw (create_event (gw_social gw) c req (dr_clk d 0))"
| "handle_request lib js d gw (RqListEvents c) = (gw, [], reply_of (list_events (gw_social gw) c))"
| "handle_request lib js d gw (RqCreateBroadcast req) =
     on_social gw (create_broadcast (gw_social gw) req (dr_clk d 0))"
| "handle_request lib js d gw (RqGetFeed u) = (gw, [], reply_of (get_feed (gw_social gw) u))"
| "handle_request lib js d gw _ = (gw, [], Done)"

section \<open>Readers\<close>

lemma same_node [simp]: "gw\<lparr>gw_node := gw_node gw\<rparr> = gw"
  by (cases gw) simp

lemma same_social [simp]: "gw\<lparr>gw_social := gw_social gw\<rparr> = gw"
  by (cases gw) simp

lemma same_parts [simp]:
  "nd_registry_update (\<lambda>_. nd_registry n) n = n" "nd_auth_update (\<lambda>_. nd_auth n) n = n"
  "nd_rooms_update (\<lambda>_. nd_rooms n) n = n" "nd_state_update (\<lambda>_. nd_state n) n = n"
  "nd_matchmaker_update (\<lambda>_. nd_matchmaker n) n = n" "nd_federation_update (\<lambda>_. nd_federation n) n = n"
  by (cases n; simp)+

text \<open>The handlers mounted for reading.\<close>
definition mounted :: "http_method \<Rightarrow> handler list" where
  "mounted meth = concat (map (\<lambda>(_, ms). map snd (filter (\<lambda>m. fst m = meth) ms)) routes)"

lemma get_request_reads:
  assumes "request_handler req \<in> set (mounted Get)"
  shows "\<exists>r. handle_request lib js d gw req = (gw, [], r)"
  using assms by (cases req) (simp_all add: mounted_def routes_def)

section \<open>Refused requests\<close>

text \<open>An endpoint that refuses changes nothing and announces nothing.\<close>

lemma envelope_refused:
  "route_envelope lib js gw env c u clk = (gw', evs, Inl e) \<Longrightarrow> gw' = gw \<and> evs = []"
  by (auto simp: route_envelope_def Let_def split: sum.splits prod.splits)

lemma signal_refused: "gw_relay_signal gw msg = (sent, evs, Inl e) \<Longrightarrow> evs = []"
  by (auto simp: gw_relay_signal_def relay_send_def Let_def split: option.splits if_splits)

lemma rooms_refused:
  "gw_create_room gw crr now = (gw', Inl e) \<Longrightarrow> gw' = gw"
  "gw_join_room gw rid a = (gw', evs, Inl e) \<Longrightarrow> gw' = gw \<and> evs = []"
  "gw_leave_room gw rid a = (gw', evs, Inl e) \<Longrightarrow> gw' = gw \<and> evs = []"
  by (auto simp: gw_create_room_def create_room_def gw_join_room_def join_room_def gw_leave_room_def
      leave_room_def Let_def split: if_splits option.splits prod.splits)

lemma state_refused:
  "gw_set_state gw rid ssr now = (gw', evs, Inl e) \<Longrightarrow> gw' = gw \<and> evs = []"
  "gw_apply_delta gw rid delta = (gw', evs, Inl e) \<Longrightarrow> gw' = gw \<and> evs = []"
  "gw_restore_snapshot gw rid snap = (gw', evs, Inl e) \<Longrightarrow> gw' = gw \<and> evs = []"
  by (auto simp: gw_set_state_def sync_set_def gw_apply_delta_def apply_delta_def gw_restore_snapshot_def
      restore_snapshot_def Let_def split: if_splits option.splits prod.splits)

lemma matchmaking_refused:
  "cancel_match_request gw i = (gw', Inl e) \<Longrightarrow> gw' = gw"
  "gw_withdraw_offer gw i = (gw', Inl e) \<Longrightarrow> gw' = gw"
  "confirm_schedule gw i = (gw', evs, Inl e) \<Longrightarrow> gw' = gw \<and> evs = []"
  "decline_schedule gw i = (gw', evs, Inl e) \<Longrightarrow> gw' = gw \<and> evs = []"
  by (auto simp: cancel_match_request_def cancel_request_def gw_withdraw_offer_def withdraw_offer_def
      confirm_schedule_def confirm_slot_def decline_schedule_def decline_slot_def hm_remove_missing
      Let_def split: if_splits option.splits prod.splits)

lemma federation_refused:
  "create_federation_link gw m label c now = (gw', evs, Inl e) \<Longrightarrow> gw' = gw \<and> evs = []"
  "remove_federation_link gw m = (gw', evs, Inl e) \<Longrightarrow> gw' = gw \<and> evs = []"
  "gw_federation_relay js gw body c u clk = (gw', evs, sent, Inl e) \<Longrightarrow> gw' = gw \<and> evs = []"
  by (auto simp: create_federation_link_def link_mesh_def remove_federation_link_def unlink_mesh_def
      gw_federation_relay_def Let_def split: if_splits option.splits prod.splits sum.splits)

lemma hello_refused: "auth_hello_handler lib gw hello rand = (gw', Inl e) \<Longrightarrow> gw' = gw"
  by (auto simp: auth_hello_handler_def handle_hello_def Let_def split: sum.splits)

text \<open>A refused response has still spent the challenge.\<close>
definition spend_challenge :: "string \<Rightarrow> ('kp, 'j) app_state \<Rightarrow> ('kp, 'j) app_state" where
  "spend_challenge a = on_node (nd_auth_update (\<lambda>auth. auth\<lparr>pa_pending := hm_remove a (pa_pending auth)\<rparr>))"

lemma respond_refused:
  assumes "auth_respond lib gw body = (gw', Inl e)"
  shows "gw' = spend_challenge (ar_agent_id (arr_response body)) gw"
proof -
  have upd: "nd_auth_update (\<lambda>_. f (nd_auth n)) n = nd_auth_update f n" for f and n :: "('a, 'b) mesh_node"
    by (cases n) simp
  show ?thesis
    using assms upd [of "\<lambda>auth. auth\<lparr>pa_pending := hm_remove (ar_agent_id (arr_response body)) (pa_pending auth)\<rparr>"
        "gw_node gw"]
    by (auto simp: auth_respond_def handle_response_def spend_challenge_def Let_def
        split: option.splits sum.splits)
qed

lemma social_refused:
  "snd (register_account st req now) = Inl e \<Longrightarrow> fst (register_account st req now) = st"
  "snd (create_community st creq now) = Inl e \<Longrightarrow> fst (create_community st creq now) = st"
  "snd (join_community st c u) = Inl e \<Longrightarrow> fst (join_community st c u) = st"
  "snd (create_event st c ereq now) = Inl e \<Longrightarrow> fst (create_event st c ereq now) = st"
  "snd (create_broadcast st breq now) = Inl e \<Longrightarrow> fst (create_broadcast st breq now) = st"
  by (auto simp: register_account_def create_community_def join_community_def create_event_def
      create_broadcast_def Let_def split: if_splits option.splits sum.splits)

lemmas endpoints_refused = envelope_refused signal_refused rooms_refused state_refused
  matchmaking_refused federation_refused hello_refused respond_refused

lemma request_refused:
  assumes "handle_request lib js d gw req = (gw', evs, Refused e)"
  shows "evs = [] \<and> gw' = (case req of
      RqAuthRespond body \<Rightarrow> spend_challenge (ar_agent_id (arr_response body)) gw | _ \<Rightarrow> gw)"
  using assms
  by (cases req)
    (auto split: prod.splits sum.splits if_splits option.splits dest: endpoints_refused
      simp: social_refused)

section \<open>Serving requests\<close>

text \<open>The counters of the accounts and the communities are not at their maximum.\<close>
definition ids_left :: "('kp, 'j) app_state \<Rightarrow> bool" where
  "ids_left gw \<longleftrightarrow> ss_next_user_id (gw_social gw) \<noteq> - 1 \<and> ss_next_community_id (gw_social gw) \<noteq> - 1"

lemma reach_step: "gw_reachable lib js mesh gw \<Longrightarrow> gw_step lib js gw (fst r) \<Longrightarrow> gw_reachable lib js mesh (fst r)"
  by (rule g_next)

lemma fst_let [simp]:
  "fst (let (a, b, c) = r in (a, b, f c)) = fst r"
  "fst (let (a, c) = r' in (a, [], f' c)) = fst r'"
  by (simp_all add: case_prod_beta Let_def)

lemma request_step:
  assumes "ids_left gw"
  shows "gw_step lib js gw (fst (handle_request lib js d gw req)) \<or> fst (handle_request lib js d gw req) = gw"
proof (cases req)
  case (RqRegisterAccount r)
  then show ?thesis
    using assms by (simp add: ids_left_def g_social soc_register)
next
  case (RqCreateCommunity r)
  then show ?thesis
    using assms by (simp add: ids_left_def g_social soc_community)
qed (auto simp: Let_def case_prod_beta intro: gw_step.intros social_step.intros)

lemma request_reachable:
  "gw_reachable lib js mesh gw \<Longrightarrow> ids_left gw \<Longrightarrow> gw_reachable lib js mesh (fst (handle_request lib js d gw req))"
  using request_step [of gw lib js d req] by (auto intro: g_next)

text \<open>A request uses up at most one id of each kind.\<close>
definition ids_used :: "('kp, 'j) app_state \<Rightarrow> nat \<Rightarrow> bool" where
  "ids_used gw n \<longleftrightarrow>
     unat (ss_next_user_id (gw_social gw)) \<le> n \<and> unat (ss_next_community_id (gw_social gw)) \<le> n"

lemma ids_used_left:
  assumes "ids_used gw n" "n < 2 ^ 64 - 1"
  shows "ids_left gw"
proof -
  show ?thesis
    using assms by (auto simp: ids_used_def ids_left_def unat_max_u64)
qed

lemma unat_succ_le: "unat (w + 1 :: u64) \<le> Suc (unat w)"
  by (metis One_nat_def Suc_eq_plus1 mod_less_eq_dividend unat_1 unat_word_ariths(1))

lemma social_ids:
  "unat (ss_next_user_id (fst (register_account s r now))) \<le> Suc (unat (ss_next_user_id s))"
  "ss_next_community_id (fst (register_account s r now)) = ss_next_community_id s"
  "ss_next_user_id (fst (create_community s cr now)) = ss_next_user_id s"
  "unat (ss_next_community_id (fst (create_community s cr now))) \<le> Suc (unat (ss_next_community_id s))"
  "ss_next_user_id (fst (join_community s c u)) = ss_next_user_id s"
  "ss_next_community_id (fst (join_community s c u)) = ss_next_community_id s"
  "ss_next_user_id (fst (create_event s c er now)) = ss_next_user_id s"
  "ss_next_community_id (fst (create_event s c er now)) = ss_next_community_id s"
  "ss_next_user_id (fst (create_broadcast s br now)) = ss_next_user_id s"
  "ss_next_community_id (fst (create_broadcast s br now)) = ss_next_community_id s"
  by (auto simp: register_account_def create_community_def join_community_def create_event_def
      create_broadcast_def Let_def unat_succ_le split: option.splits sum.splits)

lemma dispatch_social: "gw_social (fst (dispatch_intent js gw env c u clk)) = gw_social gw"
  by (auto simp: dispatch_intent_def route_announce_def route_request_match_def route_schedule_def
      route_offer_def Let_def case_prod_beta split: intent.splits)

lemma envelope_social:
  "gw_social (fst (route_envelope lib js gw env c u clk)) = gw_social gw"
  "gw_social (fst (gw_federation_relay js gw body c u clk)) = gw_social gw"
  using dispatch_social [of js gw _ c u clk]
  by (auto simp: route_envelope_def gw_federation_relay_def Let_def case_prod_beta
      split: sum.splits prod.splits)

lemma endpoint_social:
  "gw_social (fst (gossip_exchange gw msg)) = gw_social gw"
  "gw_social (fst (gw_create_room gw crr now)) = gw_social gw"
  "gw_social (fst (gw_join_room gw rid a)) = gw_social gw"
  "gw_social (fst (gw_leave_room gw rid a)) = gw_social gw"
  "gw_social (fst (gw_set_state gw rid ssr now)) = gw_social gw"
  "gw_social (fst (gw_apply_delta gw rid delta)) = gw_social gw"
  "gw_social (fst (gw_restore_snapshot gw rid snap)) = gw_social gw"
  "gw_social (fst (submit_match_request gw smb u now)) = gw_social gw"
  "gw_social (fst (cancel_match_request gw i)) = gw_social gw"
  "gw_social (fst (propose_schedule gw psb u now)) = gw_social gw"
  "gw_social (fst (confirm_schedule gw i)) = gw_social gw"
  "gw_social (fst (decline_schedule gw i)) = gw_social gw"
  "gw_social (fst (gw_submit_offer gw sob now)) = gw_social gw"
  "gw_social (fst (gw_withdraw_offer gw i)) = gw_social gw"
  "gw_social (fst (create_federation_link gw m label c now)) = gw_social gw"
  "gw_social (fst (remove_federation_link gw m)) = gw_social gw"
  "gw_social (fst (auth_hello_handler lib gw hello rand)) = gw_social gw"
  "gw_social (fst (auth_respond lib gw body)) = gw_social gw"
  "gw_social (fst (gw_purge_expired gw now)) = gw_social gw"
  by (cases msg; simp add: gw_create_room_def gw_join_room_def gw_leave_room_def gw_set_state_def
      gw_apply_delta_def gw_restore_snapshot_def submit_match_request_def cancel_match_request_def
      propose_schedule_def confirm_schedule_def decline_schedule_def gw_submit_offer_def
      gw_withdraw_offer_def create_federation_link_def remove_federation_link_def
      auth_hello_handler_def auth_respond_def gw_purge_expired_def Let_def case_prod_beta
      split: option.split sum.split prod.split)+

lemma request_ids:
  assumes "ids_used gw n"
  shows "ids_used (fst (handle_request lib js d gw req)) (Suc n)"
proof (cases "gw_social (fst (handle_request lib js d gw req)) = gw_social gw")
  case True
  with assms show ?thesis by (simp add: ids_used_def)
next
  case False
  then show ?thesis
    using assms
    by (cases req)
      (auto simp: Let_def case_prod_beta endpoint_social envelope_social ids_used_def social_ids
        intro: order.trans [OF social_ids(1)] order.trans [OF social_ids(4)])
qed

lemma user_lookup_total:
  assumes "social_reachable (gw_social gw)"
  shows "get_user_by_username (gw_social gw) name \<noteq> None"
  using social_reachable_ok [OF assms]
  by (auto simp: get_user_by_username_def social_ok_def split: option.splits dest: accounts_okD(1))

lemma request_no_crash:
  assumes "social_reachable (gw_social gw)"
  shows "snd (snd (handle_request lib js d gw req)) \<noteq> Crashed"
  using user_lookup_total [OF assms]
  by (cases req) (auto simp: Let_def case_prod_beta split: sum.split option.split)

text \<open>A sequence of requests, each with what its handler draws.\<close>
definition serve_requests ::
    "'kp crypto_lib \<Rightarrow> 'j json_lib \<Rightarrow> (draws \<times> 'j request) list \<Rightarrow> ('kp, 'j) app_state
      \<Rightarrow> ('kp, 'j) app_state" where
  "serve_requests lib js reqs gw = fold (\<lambda>(d, req) gw. fst (handle_request lib js d gw req)) reqs gw"

lemma serve_requests_ok:
  assumes "gw_reachable lib js mesh gw" "ids_used gw n" "n + length reqs < 2 ^ 64 - 1"
  shows "gw_reachable lib js mesh (serve_requests lib js reqs gw)"
  using assms
proof (induction reqs arbitrary: gw n)
  case Nil
  then show ?case by (simp add: serve_requests_def)
next
  case (Cons r reqs)
  obtain d req where r: "r = (d, req)" by (cases r)
  have "ids_left gw"
    by (rule ids_used_left [OF Cons.prems(2)]) (use Cons.prems(3) in simp)
  from Cons.IH [OF request_reachable [OF Cons.prems(1) this] request_ids [OF Cons.prems(2)], of d req]
    Cons.prems(3) show ?case
    by (simp add: serve_requests_def r)
qed

lemma start_ids: "gateway_main lib parses binds env rand = Serving gw \<Longrightarrow> ids_used gw 0"
  by (auto simp: gateway_main_def main_config_def gateway_start_def social_default_def ids_used_def
      split: if_splits option.splits sum.splits)

section \<open>Properties\<close>

text \<open>
  C8: A request that only reads, and a request that is refused, leave the gateway as it was and
  announce nothing: every handler mounted under GET is a reader, and no handler changes state (in
  any subsystem) before all of its checks have passed. The one exception is a refused answer to
  an authentication challenge, which spends the challenge.
\<close>
theorem requests_atomic:
  assumes "handle_request lib js d gw req = (gw', evs, r)"
    and "request_handler req \<in> set (mounted Get) \<or> (\<exists>e. r = Refused e)"
  shows "evs = [] \<and> gw' = (case req of
      RqAuthRespond body \<Rightarrow> spend_challenge (ar_agent_id (arr_response body)) gw | _ \<Rightarrow> gw)"
proof (cases "\<exists>e. r = Refused e")
  case True
  then show ?thesis using request_refused assms(1) by blast
next
  case False
  then have get: "request_handler req \<in> set (mounted Get)"
    using assms(2) by blast
  then have "\<not> (\<exists>body. req = RqAuthRespond body)"
    by (auto simp: mounted_def routes_def)
  with get_request_reads [OF get, of lib js d gw] assms(1) show ?thesis
    by (cases req) auto
qed

text \<open>A refused answer to a challenge that was never made, and a join of an unknown room.\<close>
theorem requests_atomic_witness:
  "handle_request plain_crypto demo_js \<lparr>dr_chan = 1, dr_uuid = ''u'', dr_clk = (\<lambda>_. 0), dr_rand = None\<rparr>
     demo_gw (RqJoinRoom ''room:x'' ''agent:alice'') =
   (demo_gw, [], Refused (http_err BAD_REQUEST ''join_failed'' ''room not found''))"
proof -
  let ?d = "\<lparr>dr_chan = 1, dr_uuid = ''u'', dr_clk = (\<lambda>_. 0 :: int), dr_rand = None\<rparr>"
  let ?req = "RqJoinRoom ''room:x'' ''agent:alice''"
  obtain gw' evs r where h: "handle_request plain_crypto demo_js ?d demo_gw ?req = (gw', evs, r)"
    by (metis prod_cases3)
  moreover have "r = Refused (http_err BAD_REQUEST ''join_failed'' ''room not found'')"
    using h by (simp add: gw_join_room_def join_room_def demo_gw_federation room_manager_new_def Let_def)
  ultimately show ?thesis
    using requests_atomic [OF h] by simp
qed

text \<open>
  The gateway serves any sequence of requests without panicking. From what \<open>main\<close> starts with, after
  any requests with any arguments (fewer than \<open>2^64 - 1\<close> of them, so that no id counter wraps), the
  gateway is in a state its endpoints reach, every subsystem satisfies its invariant, and the next
  request, whatever it is, is answered.
\<close>
theorem gateway_keeps_serving:
  assumes "gateway_main lib parses binds env rand = Serving gw"
    and "length reqs < 2 ^ 64 - 1"
  shows "gw_reachable lib js (unwrap_or (env ''MESH_ID'') ''mesh:default'') (serve_requests lib js reqs gw)
     \<and> gw_ok lib (unwrap_or (env ''MESH_ID'') ''mesh:default'') (serve_requests lib js reqs gw)
     \<and> snd (snd (handle_request lib js d (serve_requests lib js reqs gw) req)) \<noteq> Crashed"
proof -
  have reach: "gw_reachable lib js (unwrap_or (env ''MESH_ID'') ''mesh:default'') (serve_requests lib js reqs gw)"
    using serve_requests_ok [OF gateway_main_reachable [OF assms(1)] start_ids [OF assms(1)], of reqs js]
      assms(2) by simp
  with gw_reachable_ok [OF reach] request_no_crash show ?thesis
    unfolding gw_ok_def by blast
qed

theorem gateway_keeps_serving_witness:
  "\<exists>gw. gateway_main plain_crypto (\<lambda>_. True) (\<lambda>_. True) (\<lambda>_. None) (Some [7]) = Serving gw
     \<and> snd (snd (handle_request plain_crypto demo_js
          \<lparr>dr_chan = 1, dr_uuid = ''u'', dr_clk = (\<lambda>_. 0), dr_rand = None\<rparr> gw
          (RqGetUserByUsername ''alice''))) \<noteq> Crashed"
proof -
  have "identity_generate plain_crypto (Some [7]) = Ok (demo_identity 7)"
    by (simp add: identity_generate_def identity_from_der_def plain_crypto_def demo_identity_def)
  moreover have "\<exists>n :: (bytes, demo_json) mesh_node. node_new plain_crypto ''node:gateway-0'' ''mesh:default'' (Some [7]) = Some (Ok n)"
    using node_new_starts [OF calculation] by blast
  ultimately obtain gw :: "(bytes, demo_json) app_state" where
    start: "gateway_main plain_crypto (\<lambda>_. True) (\<lambda>_. True) (\<lambda>_. None) (Some [7]) = Serving gw"
    by (auto simp: gateway_main_def main_config_def)
  note served = gateway_keeps_serving [OF start, of "[]" demo_js
      "\<lparr>dr_chan = 1, dr_uuid = ''u'', dr_clk = (\<lambda>_. 0), dr_rand = None\<rparr>" "RqGetUserByUsername ''alice''"]
  show ?thesis
    by (intro exI [of _ gw] conjI start) (use served in \<open>simp add: serve_requests_def del: handle_request.simps\<close>)
qed

end
