(* ===== verification/Gateway_Locks.thy ===== *)
theory Gateway_Locks
  imports Gateway_Service
begin

text \<open>
  The handlers of the gateway under concurrent requests. Every subsystem of the node has a lock of its
  own, and a handler that calls several of them (or one operation with two locks) lets other
  requests run in between. Here each handler is cut where it has given back one lock and asks for the
  next; a request that has begun is a \<open>stage\<close>, the work it has left with the values it carries. Run
  alone, the sections of a request do what \<open>handle_request\<close> does in one go. Run together, with the
  sections of other requests in between and with requests abandoned half way (a handler's future is
  dropped when its client disconnects), they keep the invariants of the subsystems.

  Not cut are the calls of the room manager, which \<open>Room_Locks\<close> shows to be atomic when they are run to
  their end (that a creation can be left between its two locks is a turn of its own in
  \<open>Gateway_Concurrency\<close>), and the handlers that only read: they do not change what the others see.
\<close>

section \<open>The parts of the operations with two locks\<close>

text \<open>\<open>handle_response\<close>: the challenge is taken from the pending ones, the peer is recorded later.\<close>
definition take_challenge ::
    "'kp crypto_lib \<Rightarrow> 'kp peer_authenticator \<Rightarrow> auth_response \<Rightarrow> public_key_bytes
      \<Rightarrow> 'kp peer_authenticator \<times> (auth_error, bytes) result" where
  "take_challenge lib self response remote_public_key =
     (let self' = self\<lparr>pa_pending := hm_remove (ar_agent_id response) (pa_pending self)\<rparr>
      in case hm_get (pa_pending self) (ar_agent_id response) of
           None \<Rightarrow> (self', Err (NoPendingChallenge (ar_agent_id response)))
         | Some nonce \<Rightarrow>
             (case crypto_verify lib remote_public_key nonce (ar_signature response) of
                Inl _ \<Rightarrow> (self', Err AuthVerificationFailed)
              | Inr _ \<Rightarrow> (self', Ok nonce)))"

definition record_peer ::
    "'kp peer_authenticator \<Rightarrow> string \<Rightarrow> public_key_bytes \<Rightarrow> 'kp peer_authenticator" where
  "record_peer self agent_id remote_public_key =
     self\<lparr>pa_authenticated := hm_insert agent_id
         \<lparr>ap_agent_id = agent_id, ap_public_key = remote_public_key\<rparr> (pa_authenticated self)\<rparr>"

definition purge_requests :: "matchmaker \<Rightarrow> timestamp \<Rightarrow> matchmaker" where
  "purge_requests self now =
     self\<lparr>mm_requests := hm_retain (\<lambda>_ r. now \<le> tw_end (mr_time_window r)) (mm_requests self)\<rparr>"

definition purge_offers :: "matchmaker \<Rightarrow> timestamp \<Rightarrow> matchmaker" where
  "purge_offers self now =
     self\<lparr>mm_offers := hm_retain (\<lambda>_ o'. now \<le> po_expires_at o') (mm_offers self)\<rparr>"

lemma handle_response_parts:
  "handle_response lib self response pk =
     (case take_challenge lib self response pk of
        (self', Inl e) \<Rightarrow> (self', Err e)
      | (self', Inr nonce) \<Rightarrow>
          (record_peer self' (ar_agent_id response) pk,
           Ok \<lparr>af_agent_id = pa_agent_id self, af_signature = identity_sign lib (pa_identity self) nonce\<rparr>))"
  by (simp add: handle_response_def take_challenge_def record_peer_def Let_def split: option.split sum.split)

lemma purge_expired_parts: "purge_expired self now = purge_offers (purge_requests self now) now"
  by (simp add: purge_expired_def purge_requests_def purge_offers_def)

section \<open>Stages\<close>

datatype 'j stage =
    Begun "'j request"
  | Admitted "'j envelope"               \<comment> \<open>the policy admits it, its signature is not checked\<close>
  | Checked "'j envelope"                \<comment> \<open>all checks have passed, it is not dispatched\<close>
  | Announced "'j envelope"              \<comment> \<open>the peer is in the registry, not yet in the relay\<close>
  | Holding chan                         \<comment> \<open>the receiver of a channel is about to be dropped\<close>
  | Deciding string bool                 \<comment> \<open>the slot is proposed, not confirmed or declined\<close>
  | Forwarding "'j federation_envelope"  \<comment> \<open>the link was there, the envelope is not sent\<close>
  | RoomMade string                      \<comment> \<open>the room exists, its state does not\<close>
  | HalfPurged timestamp                 \<comment> \<open>the requests are purged, the offers are not\<close>
  | Proved auth_respond_request          \<comment> \<open>the signature is verified, the peer not recorded\<close>
  | Comparing match_request              \<comment> \<open>the request was found, the others are not read\<close>
  | Replied reply
  | Abandoned "'j stage"                 \<comment> \<open>the client left while the handler waited\<close>

text \<open>The part of each handler up to the first lock it gives back, with its refusals.\<close>

definition announce_section ::
    "'j json_lib \<Rightarrow> draws \<Rightarrow> ('kp, 'j) app_state \<Rightarrow> 'j envelope
      \<Rightarrow> ('kp, 'j) app_state \<times> event list \<times> 'j stage" where
  "announce_section js d gw env =
     (let p = en_payload env;
          supports = (case Option.bind (j_get js p ''supports'') (j_as_array js) of
                        None \<Rightarrow> []
                      | Some arr \<Rightarrow> List.map_filter (j_as_str js) arr);
          msg = \<lparr>am_agent_id = sd_agent_id (en_sender env), am_mesh_id = sd_mesh_id (en_sender env),
                 am_display_name = unwrap_or (payload_str js p ''display_name'') ''unknown'',
                 am_status = parse_status (unwrap_or (payload_str js p ''status'') ''available''),
                 am_capabilities = supports\<rparr>;
          (registry, evs, _) = handle_announce (nd_registry (gw_node gw)) msg (dr_clk d 1)
      in (on_node (nd_registry_update (\<lambda>_. registry)) gw, evs, Announced env))"

definition schedule_section ::
    "'j json_lib \<Rightarrow> draws \<Rightarrow> ('kp, 'j) app_state \<Rightarrow> 'j envelope
      \<Rightarrow> ('kp, 'j) app_state \<times> event list \<times> 'j stage" where
  "schedule_section js d gw env =
     (let p = en_payload env;
          slot_state = unwrap_or (payload_str js p ''state'') ''proposed'';
          (mm, evs, slot) = propose_slot (nd_matchmaker (gw_node gw)) (sd_agent_id (en_sender env))
             (unwrap_or (payload_time js p ''slot_start'') (dr_clk d 1))
             (unwrap_or (payload_time js p ''slot_end'') (dr_clk d 2)) (dr_uuid d) (dr_clk d 3)
      in (on_node (nd_matchmaker_update (\<lambda>_. mm)) gw, evs,
          if slot_state = ''confirmed'' then Deciding (sl_schedule_id slot) True
          else if slot_state = ''declined'' then Deciding (sl_schedule_id slot) False
          else Replied Done))"

definition dispatch_section ::
    "'j json_lib \<Rightarrow> draws \<Rightarrow> ('kp, 'j) app_state \<Rightarrow> 'j envelope
      \<Rightarrow> ('kp, 'j) app_state \<times> event list \<times> 'j stage" where
  "dispatch_section js d gw env =
     (case en_intent env of
        Announce \<Rightarrow> announce_section js d gw env
      | Schedule \<Rightarrow> schedule_section js d gw env
      | _ \<Rightarrow>
          (let (gw', evs, _) = dispatch_intent js gw env (dr_chan d) (dr_uuid d) (dr_clk d)
           in (gw', evs, Replied Done)))"

definition envelope_section ::
    "'j json_lib \<Rightarrow> draws \<Rightarrow> ('kp, 'j) app_state \<Rightarrow> 'j envelope \<Rightarrow> 'j stage" where
  "envelope_section js d gw env =
     (case check_version env of
        Inl e \<Rightarrow> Replied (Refused e)
      | Inr _ \<Rightarrow>
     (case check_expiry js env (dr_clk d 0) of
        Inl e \<Rightarrow> Replied (Refused e)
      | Inr _ \<Rightarrow>
     (case enforce_policy gw env of
        Inl e \<Rightarrow> Replied (Refused e)
      | Inr _ \<Rightarrow> Admitted env)))"

definition federation_section ::
    "'j json_lib \<Rightarrow> draws \<Rightarrow> ('kp, 'j) app_state \<Rightarrow> 'j federation_envelope
      \<Rightarrow> ('kp, 'j) app_state \<times> event list \<times> 'j stage" where
  "federation_section js d gw body =
     (let fed = nd_federation (gw_node gw)
      in if \<not> should_accept fed body
         then
           if is_linked fed (fe_target_mesh body) then (gw, [], Forwarding body)
           else
             (gw, [], Replied (Refused (http_err MISDIRECTED_REQUEST ''wrong_mesh''
                (''envelope targets mesh '' @ quoted (fe_target_mesh body)
                  @ '', this node serves '' @ quoted (nd_mesh_id (gw_node gw))))))
         else
           (case j_envelope js (fe_envelope body) of
              Inl e \<Rightarrow>
                (gw, [], Replied (Refused (http_err BAD_REQUEST ''invalid_federated_envelope''
                                    (''inner envelope parse error: '' @ e))))
            | Inr env \<Rightarrow>
                (case check_version env of
                   Inl e \<Rightarrow> (gw, [], Replied (Refused e))
                 | Inr _ \<Rightarrow> dispatch_section js d gw env)))"

definition link_section ::
    "draws \<Rightarrow> ('kp, 'j) app_state \<Rightarrow> string \<Rightarrow> string option
      \<Rightarrow> ('kp, 'j) app_state \<times> event list \<times> 'j stage" where
  "link_section d gw mesh_id label =
     (case link_mesh (nd_federation (gw_node gw)) mesh_id label (dr_chan d) (dr_clk d 0) of
        (fed, evs, Inl e) \<Rightarrow>
          (on_node (nd_federation_update (\<lambda>_. fed)) gw, evs,
           Replied (Refused (http_err (case e of LinkExists _ \<Rightarrow> CONFLICT | SelfRelay \<Rightarrow> BAD_REQUEST
                          | _ \<Rightarrow> INTERNAL_SERVER_ERROR)
                  ''federation_link_error'' (federation_error_msg e))))
      | (fed, evs, Inr rx) \<Rightarrow> (on_node (nd_federation_update (\<lambda>_. fed)) gw, evs, Holding rx))"

text \<open>The call of the room manager, when it is run to its end.\<close>
definition create_room_section ::
    "draws \<Rightarrow> ('kp, 'j) app_state \<Rightarrow> create_room_request
      \<Rightarrow> ('kp, 'j) app_state \<times> event list \<times> 'j stage" where
  "create_room_section d gw body =
     (case create_room (nd_rooms (gw_node gw)) (crr_room_id body) (crr_name body)
             (crr_max_members body) (dr_clk d 0) of
        (rooms, Some info) \<Rightarrow>
          (on_node (nd_rooms_update (\<lambda>_. rooms)) gw, [], RoomMade (crr_room_id body))
      | (rooms, None) \<Rightarrow>
          (on_node (nd_rooms_update (\<lambda>_. rooms)) gw, [],
           Replied (Refused (http_err CONFLICT ''room_exists''
             (''room '' @ crr_room_id body @ '' already exists'')))))"

definition respond_section ::
    "'kp crypto_lib \<Rightarrow> ('kp, 'j) app_state \<Rightarrow> auth_respond_request
      \<Rightarrow> ('kp, 'j) app_state \<times> event list \<times> 'j stage" where
  "respond_section lib gw body =
     (let (auth, res) = take_challenge lib (nd_auth (gw_node gw)) (arr_response body) (arr_public_key body)
      in (on_node (nd_auth_update (\<lambda>_. auth)) gw, [],
          case res of
            Inl e \<Rightarrow> Replied (Refused (http_err
                (case e of AuthVerificationFailed \<Rightarrow> UNAUTHORIZED
                 | NoPendingChallenge _ \<Rightarrow> BAD_REQUEST
                 | _ \<Rightarrow> INTERNAL_SERVER_ERROR)
                ''auth_error'' (auth_error_msg e)))
          | Inr _ \<Rightarrow> Proved body))"

definition find_section :: "('kp, 'j) app_state \<Rightarrow> string \<Rightarrow> 'j stage" where
  "find_section gw request_id =
     (case hm_get (mm_requests (nd_matchmaker (gw_node gw))) request_id of
        None \<Rightarrow> Replied (Refused (http_err NOT_FOUND ''match_error''
                   (match_error_msg (RequestNotFound request_id))))
      | Some target \<Rightarrow> Comparing target)"

lemmas [simp] = announce_section_def schedule_section_def envelope_section_def federation_section_def
  link_section_def create_room_section_def respond_section_def find_section_def

text \<open>From the request to the first lock and until it is given back; the other handlers whole.\<close>
fun begin_section ::
    "'kp crypto_lib \<Rightarrow> 'j json_lib \<Rightarrow> draws \<Rightarrow> ('kp, 'j) app_state \<Rightarrow> 'j request
      \<Rightarrow> ('kp, 'j) app_state \<times> event list \<times> 'j stage" where
  "begin_section lib js d gw (RqEnvelope env) = (gw, [], envelope_section js d gw env)"
| "begin_section lib js d gw (RqFederationRelay body) = federation_section js d gw body"
| "begin_section lib js d gw (RqCreateFederationLink mesh_id label) = link_section d gw mesh_id label"
| "begin_section lib js d gw (RqCreateRoom body) = create_room_section d gw body"
| "begin_section lib js d gw (RqAuthRespond body) = respond_section lib gw body"
| "begin_section lib js d gw RqPurgeExpired =
     (on_node (nd_matchmaker_update (\<lambda>mm. purge_requests mm (dr_clk d 0))) gw, [], HalfPurged (dr_clk d 0))"
| "begin_section lib js d gw (RqFindMatches request_id) = (gw, [], find_section gw request_id)"
| "begin_section lib js d gw req =
     (let (gw', evs, r) = handle_request lib js d gw req in (gw', evs, Replied r))"

text \<open>The next section of a request, from one lock to the next.\<close>
fun next_section ::
    "'kp crypto_lib \<Rightarrow> 'j json_lib \<Rightarrow> draws \<Rightarrow> ('kp, 'j) app_state \<Rightarrow> 'j stage
      \<Rightarrow> ('kp, 'j) app_state \<times> event list \<times> 'j stage" where
  "next_section lib js d gw (Begun req) = begin_section lib js d gw req"
| "next_section lib js d gw (Admitted env) =
     (case check_signature lib js gw env of
        Inl e \<Rightarrow> (gw, [], Replied (Refused e))
      | Inr _ \<Rightarrow> (gw, [], Checked env))"
| "next_section lib js d gw (Checked env) = dispatch_section js d gw env"
| "next_section lib js d gw (Announced env) =
     (let (relay, rx) = relay_register (nd_relay (gw_node gw)) (sd_agent_id (en_sender env)) (dr_chan d)
      in (on_node (nd_relay_update (\<lambda>_. relay)) gw, [], Holding rx))"
| "next_section lib js d gw (Holding rx) = (gw\<lparr>gw_dropped := rx # gw_dropped gw\<rparr>, [], Replied Done)"
| "next_section lib js d gw (Deciding schedule_id yes) =
     (let (mm, evs, _) = (if yes then confirm_slot else decline_slot) (nd_matchmaker (gw_node gw)) schedule_id
      in (on_node (nd_matchmaker_update (\<lambda>_. mm)) gw, evs, Replied Done))"
| "next_section lib js d gw (Forwarding body) =
     (case federation_forward (send_ok gw) (nd_federation (gw_node gw)) (fe_target_mesh body) body (dr_clk d 0) of
        (sent, Inl e) \<Rightarrow>
          (gw, [], Replied (Refused (http_err BAD_GATEWAY ''federation_forward_error'' (federation_error_msg e))))
      | (sent, Inr _) \<Rightarrow> (gw, [], Replied Done))"
| "next_section lib js d gw (RoomMade room_id) =
     (on_node (nd_state_update (\<lambda>st. init_room st room_id)) gw, [], Replied Done)"
| "next_section lib js d gw (HalfPurged now) =
     (on_node (nd_matchmaker_update (\<lambda>mm. purge_offers mm now)) gw, [], Replied Done)"
| "next_section lib js d gw (Proved body) =
     (on_node (nd_auth_update (\<lambda>auth. record_peer auth (ar_agent_id (arr_response body)) (arr_public_key body))) gw,
      [], Replied Done)"
| "next_section lib js d gw (Comparing target) = (gw, [], Replied Done)"
| "next_section lib js d gw (Replied r) = (gw, [], Replied r)"
| "next_section lib js d gw (Abandoned st) = (gw, [], Abandoned st)"

text \<open>A bound on the sections a request has left.\<close>
fun sections_left :: "'j stage \<Rightarrow> nat" where
  "sections_left (Begun _) = 5"
| "sections_left (Admitted _) = 4"
| "sections_left (Checked _) = 3"
| "sections_left (Announced _) = 2"
| "sections_left (Replied _) = 0"
| "sections_left (Abandoned _) = 0"
| "sections_left _ = 1"

section \<open>A request alone\<close>

definition run_section ::
    "'kp crypto_lib \<Rightarrow> 'j json_lib \<Rightarrow> draws \<Rightarrow> ('kp, 'j) app_state \<times> event list \<times> 'j stage
      \<Rightarrow> ('kp, 'j) app_state \<times> event list \<times> 'j stage" where
  "run_section lib js d = (\<lambda>(gw, evs, st).
     let (gw', evs', st') = next_section lib js d gw st in (gw', evs @ evs', st'))"

lemma run_replied: "(run_section lib js d ^^ n) (gw, evs, Replied r) = (gw, evs, Replied r)"
  by (induction n) (simp_all add: run_section_def)

lemma run_first:
  "(run_section lib js d ^^ Suc n) (gw, evs, st) =
     (run_section lib js d ^^ n) (let (gw', evs', st') = next_section lib js d gw st in (gw', evs @ evs', st'))"
  by (simp only: funpow_Suc_right comp_def) (simp add: run_section_def)

lemma run_last:
  assumes "next_section lib js d gw st = (gw', evs', Replied r)"
  shows "(run_section lib js d ^^ Suc n) (gw, evs, st) = (gw', evs @ evs', Replied r)"
  by (simp add: run_first assms run_replied del: funpow.simps)

lemma run_announced:
  "(run_section lib js d ^^ Suc (Suc n)) (gw, evs, Announced env) =
     (gw\<lparr>gw_node := (gw_node gw)\<lparr>nd_relay :=
            fst (relay_register (nd_relay (gw_node gw)) (sd_agent_id (en_sender env)) (dr_chan d))\<rparr>,
         gw_dropped := dr_chan d # gw_dropped gw\<rparr>, evs, Replied Done)"
  by (simp add: run_first run_replied relay_register_def Let_def del: funpow.simps)

lemma run_dispatch:
  "(run_section lib js d ^^ Suc (Suc n))
     (let (gw', evs', st') = dispatch_section js d gw env in (gw', evs @ evs', st')) =
     (let (gw', evs', _) = dispatch_intent js gw env (dr_chan d) (dr_uuid d) (dr_clk d)
      in (gw', evs @ evs', Replied Done))"
proof (cases "en_intent env")
  case Announce
  then show ?thesis
    by (simp add: dispatch_section_def dispatch_intent_def route_announce_def Let_def case_prod_beta
        run_announced relay_register_def del: funpow.simps)
next
  case Schedule
  then show ?thesis
    by (simp add: dispatch_section_def dispatch_intent_def route_schedule_def Let_def case_prod_beta
        run_replied run_first [where st = "Deciding _ _"] del: funpow.simps)
qed (simp_all add: dispatch_section_def Let_def case_prod_beta run_replied del: funpow.simps)

lemma run_begun:
  "(run_section lib js d ^^ 5) (gw, [], Begun req) =
     (run_section lib js d ^^ 4) (begin_section lib js d gw req)"
  by (simp add: run_first [where n = 4, simplified] case_prod_beta del: funpow.simps)

lemma run_whole:
  "(run_section lib js d ^^ n) (let (gw', evs, r) = res in (gw', evs, Replied r)) =
     (let (gw', evs, r) = res in (gw', evs, Replied r))"
  by (simp add: case_prod_beta Let_def run_replied)

lemmas run_more = run_first [where n = 3, simplified] run_first [where n = 2, simplified]

lemma run_envelope:
  "(run_section lib js d ^^ 4) (begin_section lib js d gw (RqEnvelope env)) =
     (let (gw', evs, r) = handle_request lib js d gw (RqEnvelope env) in (gw', evs, Replied r))"
  using run_dispatch [where n = 0 and lib = lib and js = js and d = d and gw = gw and env = env and evs = "[]"]
  by (auto simp: route_envelope_def run_replied run_more case_prod_beta Let_def numeral_2_eq_2
      simp del: funpow.simps split: sum.split)

lemma two_more: "Suc (Suc 2) = 4"
  by simp

lemma run_federated:
  "(run_section lib js d ^^ 4) (begin_section lib js d gw (RqFederationRelay body)) =
     (let (gw', evs, r) = handle_request lib js d gw (RqFederationRelay body) in (gw', evs, Replied r))"
  using run_dispatch [where n = 2 and lib = lib and js = js and d = d and gw = gw and evs = "[]",
      unfolded two_more]
  by (auto simp: gw_federation_relay_def run_replied run_more case_prod_beta Let_def numeral_2_eq_2
      simp del: funpow.simps split: sum.split prod.split)

lemma run_link:
  "(run_section lib js d ^^ 4) (begin_section lib js d gw (RqCreateFederationLink m label)) =
     (let (gw', evs, r) = handle_request lib js d gw (RqCreateFederationLink m label)
      in (gw', evs, Replied r))"
  by (auto simp: create_federation_link_def run_replied run_first [where n = 3, simplified] Let_def
      simp del: funpow.simps split: sum.split prod.split)

lemma run_create:
  "(run_section lib js d ^^ 4) (begin_section lib js d gw (RqCreateRoom body)) =
     (let (gw', evs, r) = handle_request lib js d gw (RqCreateRoom body) in (gw', evs, Replied r))"
  by (auto simp: gw_create_room_def run_replied run_first [where n = 3, simplified] Let_def
      simp del: funpow.simps split: option.split prod.split)

lemma run_respond:
  "(run_section lib js d ^^ 4) (begin_section lib js d gw (RqAuthRespond body)) =
     (let (gw', evs, r) = handle_request lib js d gw (RqAuthRespond body) in (gw', evs, Replied r))"
  by (auto simp: auth_respond_def handle_response_parts run_replied run_first [where n = 3, simplified] Let_def
      simp del: funpow.simps split: sum.split prod.split)

lemma run_matching:
  "(run_section lib js d ^^ 4) (begin_section lib js d gw RqPurgeExpired) =
     (let (gw', evs, r) = handle_request lib js d gw RqPurgeExpired in (gw', evs, Replied r))"
  "(run_section lib js d ^^ 4) (begin_section lib js d gw (RqFindMatches i)) =
     (let (gw', evs, r) = handle_request lib js d gw (RqFindMatches i) in (gw', evs, Replied r))"
  by (auto simp: gw_purge_expired_def purge_expired_parts gw_find_matches_def find_matches_def run_replied
      run_first [where n = 3, simplified] Let_def simp del: funpow.simps split: option.split)

lemma alone:
  "(run_section lib js d ^^ 5) (gw, [], Begun req) =
     (let (gw', evs, r) = handle_request lib js d gw req in (gw', evs, Replied r))"
  by (cases req)
    (simp_all only: run_begun run_envelope run_federated run_link run_create run_respond run_matching,
     simp_all only: begin_section.simps run_whole)

end
