(* ===== verification/Gateway_Effects.thy ===== *)
theory Gateway_Effects
  imports Gateway_Locks
begin

text \<open>
  What one section of a handler does to the gateway, whatever stage it is in: each subsystem takes
  steps of its own, nothing that other handlers rely on is taken away (\<open>grows\<close>), the next stage has
  what it relies on (\<open>stage_ok\<close>), and the authenticator stays true to its log.
\<close>

section \<open>What a section does to the subsystems\<close>

definition parts_step :: "('kp, 'j) app_state \<Rightarrow> ('kp, 'j) app_state \<Rightarrow> bool" where
  "parts_step gw gw' \<longleftrightarrow>
     (let n = gw_node gw; n' = gw_node gw' in
        nd_mesh_id n' = nd_mesh_id n
        \<and> registry_step\<^sup>=\<^sup>= (nd_registry n) (nd_registry n')
        \<and> room_step\<^sup>=\<^sup>= (nd_rooms n) (nd_rooms n')
        \<and> sync_step\<^sup>=\<^sup>= (nd_state n) (nd_state n')
        \<and> match_step\<^sup>*\<^sup>* (nd_matchmaker n) (nd_matchmaker n')
        \<and> federation_step\<^sup>=\<^sup>= (nd_federation n) (nd_federation n')
        \<and> social_step\<^sup>=\<^sup>= (gw_social gw) (gw_social gw'))"

lemma parts_step_refl [simp]: "parts_step gw gw"
  by (simp add: parts_step_def)

lemma propose_steps:
  "match_step\<^sup>*\<^sup>* m (fst (propose_slot m a s e i now))"
  "match_step\<^sup>*\<^sup>* m (fst (confirm_slot (fst (propose_slot m a s e i now)) k))"
  "match_step\<^sup>*\<^sup>* m (fst (decline_slot (fst (propose_slot m a s e i now)) k))"
  by (blast intro: m_propose m_confirm m_decline rtranclp.intros)+

lemma dispatch_parts: "parts_step gw (fst (dispatch_intent js gw env c u clk))"
  by (cases "en_intent env")
    (auto simp: dispatch_intent_def route_announce_def route_request_match_def route_schedule_def
      route_offer_def Let_def case_prod_beta parts_step_def propose_steps
      intro: reg_announce m_submit m_offer)

lemma gw_step_parts: "gw_step lib js gw gw' \<Longrightarrow> parts_step gw gw'"
proof (induction rule: gw_step.induct)
  case (g_envelope gw env c uuid clk)
  then show ?case using dispatch_parts [of gw js env c uuid clk]
    by (auto simp: route_envelope_def case_prod_beta split: sum.split)
next
  case (g_federated gw body c uuid clk)
  then show ?case using dispatch_parts [of gw js _ c uuid clk]
    by (auto simp: gw_federation_relay_def case_prod_beta Let_def split: sum.split prod.split)
next
  case (g_gossip gw gmsg)
  then show ?case
    by (cases gmsg) (auto simp: parts_step_def case_prod_beta Let_def intro: reg_merge)
qed (auto simp: parts_step_def create_federation_link_def remove_federation_link_def auth_hello_handler_def auth_respond_def
  gw_create_room_def gw_join_room_def gw_leave_room_def gw_set_state_def gw_apply_delta_def gw_restore_snapshot_def
  submit_match_request_def cancel_match_request_def propose_schedule_def confirm_schedule_def decline_schedule_def
  gw_submit_offer_def gw_withdraw_offer_def gw_purge_expired_def case_prod_beta Let_def
  intro: match_step.intros room_step.intros sync_step.intros federation_step.intros registry_step.intros
  split: sum.split option.split)

text \<open>Each half of a purge is a run of removals.\<close>

lemma retain_removes:
  "hm_retain p m = fold hm_remove (map fst (filter (\<lambda>(k, v). \<not> p k v) (hm_entries m))) m"
proof -
  have del: "fold AList.delete ks xs = filter (\<lambda>x. fst x \<notin> set ks) xs" for ks and xs :: "('a \<times> 'b) list"
    by (induction ks arbitrary: xs) (auto simp: AList.delete_eq intro: filter_cong)
  have impl: "DAList.impl_of (fold hm_remove ks m) = fold AList.delete ks (DAList.impl_of m)" for ks and m :: "('a, 'b) hash_map"
    by (induction ks arbitrary: m) (simp_all add: DAList.delete.rep_eq)
  have "distinct (map fst xs) \<Longrightarrow>
      filter (\<lambda>(k, v). p k v) xs = filter (\<lambda>x. fst x \<notin> set (map fst (filter (\<lambda>(k, v). \<not> p k v) xs))) xs" for xs
    by (rule filter_cong [OF refl]) (force dest: eq_key_imp_eq_value)
  then show ?thesis
    by (simp add: DAList.impl_of_inject [symmetric] impl del hm_retain_def hm_entries_def DAList.filter.rep_eq)
qed

lemma purge_steps:
  "match_step\<^sup>*\<^sup>* m (purge_requests m now)" "match_step\<^sup>*\<^sup>* m (purge_offers m now)"
proof -
  have "match_step\<^sup>*\<^sup>* m (m\<lparr>mm_requests := fold hm_remove ks (mm_requests m)\<rparr>)" for ks
  proof (induction ks arbitrary: m)
    case (Cons k ks)
    from converse_rtranclp_into_rtranclp [where r = match_step, OF m_cancel [of m k] Cons.IH] show ?case
      by (simp add: cancel_request_def)
  qed simp
  then show "match_step\<^sup>*\<^sup>* m (purge_requests m now)"
    by (simp add: purge_requests_def retain_removes)
  have "match_step\<^sup>*\<^sup>* m (m\<lparr>mm_offers := fold hm_remove ks (mm_offers m)\<rparr>)" for ks
  proof (induction ks arbitrary: m)
    case (Cons k ks)
    from converse_rtranclp_into_rtranclp [where r = match_step, OF m_withdraw [of m k] Cons.IH] show ?case
      by (simp add: withdraw_offer_def)
  qed simp
  then show "match_step\<^sup>*\<^sup>* m (purge_offers m now)"
    by (simp add: purge_offers_def retain_removes)
qed

lemma dispatch_section_parts: "parts_step gw (fst (dispatch_section js d gw env))"
proof (cases "en_intent env")
  case Announce
  then show ?thesis
    by (auto simp: dispatch_section_def Let_def case_prod_beta parts_step_def intro: reg_announce)
next
  case Schedule
  then show ?thesis
    by (simp add: dispatch_section_def Let_def case_prod_beta parts_step_def propose_steps)
qed (use dispatch_parts in \<open>simp_all add: dispatch_section_def Let_def case_prod_beta\<close>)

text \<open>The requests whose handler is one section.\<close>
fun whole :: "'j request \<Rightarrow> bool" where
  "whole (RqEnvelope _) = False"
| "whole (RqFederationRelay _) = False"
| "whole (RqCreateFederationLink _ _) = False"
| "whole (RqCreateRoom _) = False"
| "whole (RqAuthRespond _) = False"
| "whole RqPurgeExpired = False"
| "whole (RqFindMatches _) = False"
| "whole _ = True"

lemma begin_whole:
  "whole req \<Longrightarrow> begin_section lib js d gw req =
     (let (gw', evs, r) = handle_request lib js d gw req in (gw', evs, Replied r))"
  by (cases req) simp_all

lemma begin_section_parts:
  assumes "ids_left gw"
  shows "parts_step gw (fst (begin_section lib js d gw req))"
proof (cases "whole req")
  case True
  then show ?thesis
    using request_step [OF assms, of lib js d req] gw_step_parts
    by (auto simp: begin_whole case_prod_beta Let_def)
next
  case False
  then show ?thesis
    using dispatch_section_parts
    by (cases req)
      (auto simp: case_prod_beta Let_def parts_step_def purge_steps intro: room_create fed_link
        split: sum.split option.split)
qed

lemma next_section_parts:
  assumes "\<And>req. st = Begun req \<Longrightarrow> ids_left gw"
  shows "parts_step gw (fst (next_section lib js d gw st))"
  using begin_section_parts [OF assms] dispatch_section_parts
  by (cases st)
    (auto simp: case_prod_beta Let_def parts_step_def purge_steps
      intro: step_init m_confirm m_decline r_into_rtranclp split: sum.split)

section \<open>What no section takes away\<close>

definition grows :: "('kp, 'j) app_state \<Rightarrow> ('kp, 'j) app_state \<Rightarrow> bool" where
  "grows gw gw' \<longleftrightarrow>
     (let n = gw_node gw; n' = gw_node gw' in
        nd_mesh_id n' = nd_mesh_id n
        \<and> (\<forall>a. get_peer (nd_registry n) a \<noteq> None \<longrightarrow> get_peer (nd_registry n') a \<noteq> None)
        \<and> (\<forall>k. hm_get (mm_schedules (nd_matchmaker n)) k \<noteq> None \<longrightarrow> hm_get (mm_schedules (nd_matchmaker n')) k \<noteq> None)
        \<and> (\<forall>r. hm_get (rm_rooms (nd_rooms n)) r \<noteq> None \<longrightarrow> hm_get (rm_rooms (nd_rooms n')) r \<noteq> None)
        \<and> (\<forall>r. hm_get (sync_rooms (nd_state n)) r \<noteq> None \<longrightarrow> hm_get (sync_rooms (nd_state n')) r \<noteq> None))"

lemma grows_refl [simp]: "grows gw gw"
  by (simp add: grows_def)

lemma merge_keeps: "get_peer reg a \<noteq> None \<Longrightarrow> get_peer (fst (merge_gossip_push reg push)) a \<noteq> None"
proof -
  have "get_peer reg a \<noteq> None \<Longrightarrow> get_peer (fold merge_step es reg) a \<noteq> None" for es
    by (induction es arbitrary: reg) (auto simp: merge_gossip_entry_def get_peer_def Let_def split: option.splits)
  then show "get_peer reg a \<noteq> None \<Longrightarrow> ?thesis"
    by (simp add: merge_gossip_push_def fst_merge_gossip_entries)
qed

lemma step_keeps_slots: "match_step m m' \<Longrightarrow> hm_get (mm_schedules m) k \<noteq> None \<Longrightarrow> hm_get (mm_schedules m') k \<noteq> None"
  by (induction rule: match_step.induct) (auto simp: match_ops Let_def split: option.splits)

lemma steps_keep_slots:
  "match_step\<^sup>*\<^sup>* m m' \<Longrightarrow> hm_get (mm_schedules m) k \<noteq> None \<Longrightarrow> hm_get (mm_schedules m') k \<noteq> None"
  by (induction rule: rtranclp_induct) (auto dest: step_keeps_slots)

lemma step_keeps_room: "room_step r r' \<Longrightarrow> hm_get (rm_rooms r) rid \<noteq> None \<Longrightarrow> hm_get (rm_rooms r') rid \<noteq> None"
  by (induction rule: room_step.induct)
    (auto simp: create_room_def Let_def join_keeps_rooms leave_keeps_rooms)

lemma parts_grow:
  assumes "parts_step gw gw'"
    and "\<And>a. get_peer (nd_registry (gw_node gw)) a \<noteq> None \<Longrightarrow> get_peer (nd_registry (gw_node gw')) a \<noteq> None"
    and "\<And>r. hm_get (sync_rooms (nd_state (gw_node gw))) r \<noteq> None \<Longrightarrow> hm_get (sync_rooms (nd_state (gw_node gw'))) r \<noteq> None"
  shows "grows gw gw'"
proof -
  have parts: "nd_mesh_id (gw_node gw') = nd_mesh_id (gw_node gw)"
    "room_step\<^sup>=\<^sup>= (nd_rooms (gw_node gw)) (nd_rooms (gw_node gw'))"
    "match_step\<^sup>*\<^sup>* (nd_matchmaker (gw_node gw)) (nd_matchmaker (gw_node gw'))"
    using assms(1) by (simp_all add: parts_step_def Let_def)
  have "hm_get (rm_rooms (nd_rooms (gw_node gw'))) r \<noteq> None"
    if "hm_get (rm_rooms (nd_rooms (gw_node gw))) r \<noteq> None" for r
    using parts(2) step_keeps_room [of _ _ r] that by auto
  with parts(1) steps_keep_slots [OF parts(3)] assms(2,3) show ?thesis
    unfolding grows_def Let_def by blast
qed

text \<open>What the endpoints of one section leave of the node.\<close>
lemma endpoint_node:
  "gw_node (fst (gw_join_room gw rid a)) = (gw_node gw)\<lparr>nd_rooms := fst (join_room (nd_rooms (gw_node gw)) rid a)\<rparr>"
  "gw_node (fst (gw_leave_room gw rid a)) = (gw_node gw)\<lparr>nd_rooms := fst (leave_room (nd_rooms (gw_node gw)) rid a)\<rparr>"
  "gw_node (fst (gw_set_state gw rid ssr now)) = (gw_node gw)\<lparr>nd_state :=
     fst (sync_set (nd_state (gw_node gw)) rid (ssr_agent_id ssr) (ssr_key ssr) (ssr_value ssr) now)\<rparr>"
  "gw_node (fst (gw_apply_delta gw rid delta)) = (if sd_room_id delta \<noteq> rid then gw_node gw
     else (gw_node gw)\<lparr>nd_state := fst (apply_delta (nd_state (gw_node gw)) delta)\<rparr>)"
  "gw_node (fst (gw_restore_snapshot gw rid snap)) = (if sn_room_id snap \<noteq> rid then gw_node gw
     else (gw_node gw)\<lparr>nd_state := fst (restore_snapshot (nd_state (gw_node gw)) snap)\<rparr>)"
  "gw_node (fst (submit_match_request gw smb u now)) = (gw_node gw)\<lparr>nd_matchmaker :=
     fst (submit_request (nd_matchmaker (gw_node gw)) (smb_agent_id smb) (smb_game smb)
       (smb_skill_range smb) (smb_time_window smb) u now)\<rparr>"
  "gw_node (fst (cancel_match_request gw i)) =
     (gw_node gw)\<lparr>nd_matchmaker := fst (cancel_request (nd_matchmaker (gw_node gw)) i)\<rparr>"
  "gw_node (fst (propose_schedule gw psb u now)) = (gw_node gw)\<lparr>nd_matchmaker :=
     fst (propose_slot (nd_matchmaker (gw_node gw)) (psb_agent_id psb) (psb_slot_start psb) (psb_slot_end psb) u now)\<rparr>"
  "gw_node (fst (confirm_schedule gw i)) =
     (gw_node gw)\<lparr>nd_matchmaker := fst (confirm_slot (nd_matchmaker (gw_node gw)) i)\<rparr>"
  "gw_node (fst (decline_schedule gw i)) =
     (gw_node gw)\<lparr>nd_matchmaker := fst (decline_slot (nd_matchmaker (gw_node gw)) i)\<rparr>"
  "gw_node (fst (gw_submit_offer gw sob now)) = (gw_node gw)\<lparr>nd_matchmaker :=
     fst (submit_offer (nd_matchmaker (gw_node gw)) (sob_from_agent sob) (sob_offer_id sob)
       (sob_summary sob) (sob_expires_at sob) now)\<rparr>"
  "gw_node (fst (gw_withdraw_offer gw i)) =
     (gw_node gw)\<lparr>nd_matchmaker := fst (withdraw_offer (nd_matchmaker (gw_node gw)) i)\<rparr>"
  "gw_node (fst (remove_federation_link gw m)) =
     (gw_node gw)\<lparr>nd_federation := fst (unlink_mesh (nd_federation (gw_node gw)) m)\<rparr>"
  "gw_node (fst (auth_hello_handler lib gw hello rand)) =
     (gw_node gw)\<lparr>nd_auth := fst (handle_hello lib (nd_auth (gw_node gw)) hello rand)\<rparr>"
  by (simp_all add: gw_join_room_def gw_leave_room_def gw_set_state_def gw_apply_delta_def
      gw_restore_snapshot_def submit_match_request_def cancel_match_request_def propose_schedule_def
      confirm_schedule_def decline_schedule_def gw_submit_offer_def gw_withdraw_offer_def
      remove_federation_link_def auth_hello_handler_def Let_def case_prod_beta)

lemma endpoint_dropped:
  "gw_dropped (fst (gw_join_room gw rid a)) = gw_dropped gw"
  "gw_dropped (fst (gw_leave_room gw rid a)) = gw_dropped gw"
  "gw_dropped (fst (gw_set_state gw rid ssr now)) = gw_dropped gw"
  "gw_dropped (fst (gw_apply_delta gw rid delta)) = gw_dropped gw"
  "gw_dropped (fst (gw_restore_snapshot gw rid snap)) = gw_dropped gw"
  "gw_dropped (fst (submit_match_request gw smb u now)) = gw_dropped gw"
  "gw_dropped (fst (cancel_match_request gw i)) = gw_dropped gw"
  "gw_dropped (fst (propose_schedule gw psb u now)) = gw_dropped gw"
  "gw_dropped (fst (confirm_schedule gw i)) = gw_dropped gw"
  "gw_dropped (fst (decline_schedule gw i)) = gw_dropped gw"
  "gw_dropped (fst (gw_submit_offer gw sob now)) = gw_dropped gw"
  "gw_dropped (fst (gw_withdraw_offer gw i)) = gw_dropped gw"
  "gw_dropped (fst (remove_federation_link gw m)) = gw_dropped gw"
  "gw_dropped (fst (auth_hello_handler lib gw hello rand)) = gw_dropped gw"
  "gw_dropped (fst (gossip_exchange gw msg)) = gw_dropped gw"
  by (cases msg; simp add: gw_join_room_def gw_leave_room_def gw_set_state_def gw_apply_delta_def
      gw_restore_snapshot_def submit_match_request_def cancel_match_request_def propose_schedule_def
      confirm_schedule_def decline_schedule_def gw_submit_offer_def gw_withdraw_offer_def
      remove_federation_link_def auth_hello_handler_def Let_def case_prod_beta)+

lemma gossip_node:
  "nd_registry (gw_node (fst (gossip_exchange gw msg))) = (case msg of Pull _ \<Rightarrow> nd_registry (gw_node gw)
     | Push push \<Rightarrow> fst (merge_gossip_push (nd_registry (gw_node gw)) push))"
  "nd_state (gw_node (fst (gossip_exchange gw msg))) = nd_state (gw_node gw)"
  "nd_auth (gw_node (fst (gossip_exchange gw msg))) = nd_auth (gw_node gw)"
  "nd_rooms (gw_node (fst (gossip_exchange gw msg))) = nd_rooms (gw_node gw)"
  "nd_relay (gw_node (fst (gossip_exchange gw msg))) = nd_relay (gw_node gw)"
  "nd_federation (gw_node (fst (gossip_exchange gw msg))) = nd_federation (gw_node gw)"
  by (cases msg; simp add: Let_def case_prod_beta)+

lemma dispatch_keeps:
  "get_peer (nd_registry (gw_node gw)) a \<noteq> None \<Longrightarrow>
     get_peer (nd_registry (gw_node (fst (dispatch_intent js gw env c u clk)))) a \<noteq> None"
  "nd_state (gw_node (fst (dispatch_intent js gw env c u clk))) = nd_state (gw_node gw)"
  by (auto simp: dispatch_intent_def route_announce_def route_request_match_def route_schedule_def
      route_offer_def Let_def case_prod_beta split: intent.split)

lemma whole_keeps:
  assumes "whole req"
  shows "get_peer (nd_registry (gw_node gw)) a \<noteq> None \<Longrightarrow>
      get_peer (nd_registry (gw_node (fst (handle_request lib js d gw req)))) a \<noteq> None"
    and "hm_get (sync_rooms (nd_state (gw_node gw))) r \<noteq> None \<Longrightarrow>
      hm_get (sync_rooms (nd_state (gw_node (fst (handle_request lib js d gw req))))) r \<noteq> None"
  using assms
  by (cases req; simp add: Let_def case_prod_beta endpoint_node gossip_node merge_keeps set_keeps_rooms
      delta_keeps_rooms restore_keeps_rooms del: not_None_eq split: gossip_message.split)+

lemma dispatch_section_keeps:
  "get_peer (nd_registry (gw_node gw)) a \<noteq> None \<Longrightarrow>
     get_peer (nd_registry (gw_node (fst (dispatch_section js d gw env)))) a \<noteq> None"
  "nd_state (gw_node (fst (dispatch_section js d gw env))) = nd_state (gw_node gw)"
  by (cases "en_intent env"; simp add: dispatch_section_def dispatch_keeps Let_def case_prod_beta del: not_None_eq)+

lemma begin_section_keeps:
  "get_peer (nd_registry (gw_node gw)) a \<noteq> None \<Longrightarrow>
     get_peer (nd_registry (gw_node (fst (begin_section lib js d gw req)))) a \<noteq> None"
  "hm_get (sync_rooms (nd_state (gw_node gw))) r \<noteq> None \<Longrightarrow>
     hm_get (sync_rooms (nd_state (gw_node (fst (begin_section lib js d gw req))))) r \<noteq> None"
proof (atomize (full), cases "whole req")
  case True
  show "(get_peer (nd_registry (gw_node gw)) a \<noteq> None \<longrightarrow>
     get_peer (nd_registry (gw_node (fst (begin_section lib js d gw req)))) a \<noteq> None)
    \<and> (hm_get (sync_rooms (nd_state (gw_node gw))) r \<noteq> None \<longrightarrow>
     hm_get (sync_rooms (nd_state (gw_node (fst (begin_section lib js d gw req))))) r \<noteq> None)"
    by (simp add: begin_whole [OF True] whole_keeps [OF True] case_prod_beta Let_def del: not_None_eq)
next
  case False
  then show "(get_peer (nd_registry (gw_node gw)) a \<noteq> None \<longrightarrow>
     get_peer (nd_registry (gw_node (fst (begin_section lib js d gw req)))) a \<noteq> None)
    \<and> (hm_get (sync_rooms (nd_state (gw_node gw))) r \<noteq> None \<longrightarrow>
     hm_get (sync_rooms (nd_state (gw_node (fst (begin_section lib js d gw req))))) r \<noteq> None)"
    by (cases req) (simp_all add: dispatch_section_keeps case_prod_beta Let_def
        del: not_None_eq split: sum.split option.split)
qed

lemma next_section_keeps:
  "get_peer (nd_registry (gw_node gw)) a \<noteq> None \<Longrightarrow>
     get_peer (nd_registry (gw_node (fst (next_section lib js d gw st)))) a \<noteq> None"
  "hm_get (sync_rooms (nd_state (gw_node gw))) r \<noteq> None \<Longrightarrow>
     hm_get (sync_rooms (nd_state (gw_node (fst (next_section lib js d gw st))))) r \<noteq> None"
  by (cases st; simp add: begin_section_keeps dispatch_section_keeps rooms_init_room case_prod_beta Let_def
      del: not_None_eq split: sum.split)+

lemma next_section_grows:
  assumes "\<And>req. st = Begun req \<Longrightarrow> ids_left gw"
  shows "grows gw (fst (next_section lib js d gw st))"
  by (rule parts_grow [OF next_section_parts [OF assms] next_section_keeps])

section \<open>Stages\<close>

text \<open>What a section adds to the log of the authenticator.\<close>
fun auth_entries ::
    "'kp crypto_lib \<Rightarrow> draws \<Rightarrow> ('kp, 'j) app_state \<Rightarrow> 'j stage \<Rightarrow> auth_log list" where
  "auth_entries lib d gw (Begun (RqAuthHello hello)) =
     (case random_bytes CHALLENGE_LEN (dr_rand d) of
        Inl _ \<Rightarrow> [] | Inr nonce \<Rightarrow> [Issued (ah_agent_id hello) nonce])"
| "auth_entries lib d gw (Begun (RqAuthRespond body)) =
     (let response = arr_response body
      in [case snd (take_challenge lib (nd_auth (gw_node gw)) response (arr_public_key body)) of
            Inl _ \<Rightarrow> Rejected (ar_agent_id response)
          | Inr nonce \<Rightarrow> Accepted (ar_agent_id response) (arr_public_key body) nonce (ar_signature response)])"
| "auth_entries lib d gw _ = []"

text \<open>What a stage relies on, in the state and in the log of the authenticator.\<close>
fun stage_ok :: "'kp crypto_lib \<Rightarrow> ('kp, 'j) app_state \<Rightarrow> auth_log list \<Rightarrow> 'j stage \<Rightarrow> bool" where
  "stage_ok lib gw l (Admitted env) \<longleftrightarrow> en_schema_version env = PROTOCOL_VERSION \<and> policy_holds gw env"
| "stage_ok lib gw l (Checked env) \<longleftrightarrow> en_schema_version env = PROTOCOL_VERSION \<and> policy_holds gw env"
| "stage_ok lib gw l (Announced env) \<longleftrightarrow>
     get_peer (nd_registry (gw_node gw)) (sd_agent_id (en_sender env)) \<noteq> None"
| "stage_ok lib gw l (Deciding k yes) \<longleftrightarrow> hm_get (mm_schedules (nd_matchmaker (gw_node gw))) k \<noteq> None"
| "stage_ok lib gw l (RoomMade rid) \<longleftrightarrow> hm_get (rm_rooms (nd_rooms (gw_node gw))) rid \<noteq> None"
| "stage_ok lib gw l (Proved body) \<longleftrightarrow>
     vouched lib l (ar_agent_id (arr_response body))
       \<lparr>ap_agent_id = ar_agent_id (arr_response body), ap_public_key = arr_public_key body\<rparr>"
| "stage_ok lib gw l (Replied r) \<longleftrightarrow> r \<noteq> Crashed"
| "stage_ok lib gw l _ \<longleftrightarrow> True"

lemma stage_ok_mono: "grows gw gw' \<Longrightarrow> stage_ok lib gw l st \<Longrightarrow> stage_ok lib gw' (l @ l') st"
  by (cases st) (simp_all add: grows_def Let_def policy_holds_def vouched_append del: not_None_eq)

lemma dispatch_stage_ok:
  "stage_ok lib (fst (dispatch_section js d gw env)) l (snd (snd (dispatch_section js d gw env)))"
  by (cases "en_intent env")
    (simp_all add: dispatch_section_def Let_def case_prod_beta propose_slot_def handle_announce_def get_peer_def)

lemma take_challenge_auth:
  assumes "auth_inv lib s l" "take_challenge lib s r pk = (s', res)"
  shows "auth_inv lib s' (l @ [case res of Inl _ \<Rightarrow> Rejected (ar_agent_id r)
      | Inr nonce \<Rightarrow> Accepted (ar_agent_id r) pk nonce (ar_signature r)])"
    and "res = Ok nonce \<Longrightarrow> vouched lib (l @ [Accepted (ar_agent_id r) pk nonce (ar_signature r)])
      (ar_agent_id r) \<lparr>ap_agent_id = ar_agent_id r, ap_public_key = pk\<rparr>"
proof -
  have s': "s' = s\<lparr>pa_pending := hm_remove (ar_agent_id r) (pa_pending s)\<rparr>"
    using assms(2) by (auto simp: take_challenge_def Let_def split: option.splits sum.splits)
  show "auth_inv lib s' (l @ [case res of Inl _ \<Rightarrow> Rejected (ar_agent_id r)
      | Inr nonce \<Rightarrow> Accepted (ar_agent_id r) pk nonce (ar_signature r)])"
    using assms(1) by (auto simp: auth_inv_def s' intro: vouched_append split: sum.split)
  assume "res = Ok nonce"
  then have "hm_get (pa_pending s) (ar_agent_id r) = Some nonce"
    "crypto_verify lib pk nonce (ar_signature r) = Ok ()"
    using assms(2) by (auto simp: take_challenge_def Let_def split: option.splits sum.splits)
  then show "vouched lib (l @ [Accepted (ar_agent_id r) pk nonce (ar_signature r)])
      (ar_agent_id r) \<lparr>ap_agent_id = ar_agent_id r, ap_public_key = pk\<rparr>"
    using assms(1) vouchedI(1) by (simp add: auth_inv_def)
qed

lemma record_peer_auth:
  "auth_inv lib s l \<Longrightarrow> vouched lib l a \<lparr>ap_agent_id = a, ap_public_key = pk\<rparr> \<Longrightarrow> auth_inv lib (record_peer s a pk) l"
  by (simp add: auth_inv_def record_peer_def)

lemma next_stage_ok:
  assumes "social_reachable (gw_social gw)" "auth_inv lib (nd_auth (gw_node gw)) l" "stage_ok lib gw l st"
  shows "stage_ok lib (fst (next_section lib js d gw st)) (l @ auth_entries lib d gw st)
    (snd (snd (next_section lib js d gw st)))"
proof (cases st)
  case (Begun req)
  show ?thesis
  proof (cases "whole req")
    case True
    then show ?thesis
      using Begun request_no_crash [OF assms(1)] by (simp add: begin_whole case_prod_beta Let_def)
  next
    case False
    then show ?thesis
      using Begun
      by (cases req) (auto simp: dispatch_stage_ok enforce_policy_ok check_version_ok
          take_challenge_auth(2) [OF assms(2) prod.collapse [symmetric]] case_prod_beta Let_def create_room_def
          split: sum.split option.split prod.split)
  qed
next
  case (Checked env)
  then show ?thesis by (simp add: dispatch_stage_ok)
qed (use assms(3) in \<open>simp_all add: case_prod_beta Let_def split: sum.split\<close>)

section \<open>The authenticator\<close>

lemma whole_frame:
  assumes "whole req"
  shows "nd_relay (gw_node (fst (handle_request lib js d gw req))) = nd_relay (gw_node gw)"
    and "rm_rooms (nd_rooms (gw_node (fst (handle_request lib js d gw req)))) = rm_rooms (nd_rooms (gw_node gw))"
    and "gw_dropped (fst (handle_request lib js d gw req)) = gw_dropped gw"
    and "nd_auth (gw_node (fst (handle_request lib js d gw req))) = (case req of
      RqAuthHello hello \<Rightarrow> fst (handle_hello lib (nd_auth (gw_node gw)) hello (dr_rand d))
      | _ \<Rightarrow> nd_auth (gw_node gw))"
    and "hm_get (fr_links (nd_federation (gw_node (fst (handle_request lib js d gw req))))) m = Some lk \<Longrightarrow>
      hm_get (fr_links (nd_federation (gw_node gw))) m = Some lk"
  using assms
  by (cases req; simp add: Let_def case_prod_beta endpoint_node endpoint_dropped gossip_node
      join_keeps_rooms leave_keeps_rooms unlink_mesh_def split: option.splits if_splits)+

lemma dispatch_section_frame:
  "nd_auth (gw_node (fst (dispatch_section js d gw env))) = nd_auth (gw_node gw)"
  "nd_rooms (gw_node (fst (dispatch_section js d gw env))) = nd_rooms (gw_node gw)"
  "nd_relay (gw_node (fst (dispatch_section js d gw env))) = nd_relay (gw_node gw)"
  "nd_federation (gw_node (fst (dispatch_section js d gw env))) = nd_federation (gw_node gw)"
  "gw_dropped (fst (dispatch_section js d gw env)) = gw_dropped gw"
  "gw_social (fst (dispatch_section js d gw env)) = gw_social gw"
  by (cases "en_intent env"; simp add: dispatch_section_def dispatch_intent_def route_request_match_def
      route_offer_def Let_def case_prod_beta)+

lemma hello_auth:
  assumes "auth_inv lib s l"
  shows "auth_inv lib (fst (handle_hello lib s hello rand))
    (l @ (case random_bytes CHALLENGE_LEN rand of
        Inl _ \<Rightarrow> [] | Inr nonce \<Rightarrow> [Issued (ah_agent_id hello) nonce]))"
proof (cases "random_bytes CHALLENGE_LEN rand")
  case (Inl e)
  with assms show ?thesis by (simp add: handle_hello_def)
next
  case (Inr nonce)
  from auth_inv_step [OF auth_hello [OF Inr prod.collapse [symmetric]] assms] Inr show ?thesis by simp
qed

lemma next_section_auth:
  assumes "auth_inv lib (nd_auth (gw_node gw)) l" "stage_ok lib gw l st"
  shows "auth_inv lib (nd_auth (gw_node (fst (next_section lib js d gw st)))) (l @ auth_entries lib d gw st)"
proof (cases st)
  case (Begun req)
  show ?thesis
  proof (cases "whole req")
    case True
    then show ?thesis
      using Begun assms(1) hello_auth [OF assms(1)]
      by (cases req) (simp_all add: begin_whole whole_frame case_prod_beta Let_def del: handle_request.simps)
  next
    case False
    then show ?thesis
      using Begun assms(1) take_challenge_auth(1) [OF assms(1) prod.collapse [symmetric]]
      by (cases req) (auto simp: dispatch_section_frame case_prod_beta Let_def split: sum.split option.split)
  qed
qed (use assms in \<open>simp_all add: dispatch_section_frame record_peer_auth case_prod_beta Let_def split: sum.split\<close>)

section \<open>Rooms, channels and ids\<close>

lemma next_section_rooms:
  assumes "hm_get (rm_rooms (nd_rooms (gw_node (fst (next_section lib js d gw st))))) rid \<noteq> None"
  shows "hm_get (rm_rooms (nd_rooms (gw_node gw))) rid \<noteq> None
    \<or> snd (snd (next_section lib js d gw st)) = RoomMade rid"
proof (cases st)
  case (Begun req)
  show ?thesis
  proof (cases "whole req")
    case True
    then show ?thesis
      using Begun assms by (simp add: begin_whole whole_frame case_prod_beta Let_def)
  next
    case False
    then show ?thesis
      using Begun assms
      by (cases req) (auto simp: dispatch_section_frame create_room_def case_prod_beta Let_def
          split: sum.splits option.splits if_splits)
  qed
qed (use assms in \<open>auto simp: dispatch_section_frame case_prod_beta Let_def split: sum.splits\<close>)

lemma next_section_relay:
  assumes "hm_get (sr_peers (nd_relay (gw_node (fst (next_section lib js d gw st))))) a = Some c"
  shows "hm_get (sr_peers (nd_relay (gw_node gw))) a = Some c
    \<or> snd (snd (next_section lib js d gw st)) = Holding c"
proof (cases st)
  case (Begun req)
  show ?thesis
  proof (cases "whole req")
    case True
    then show ?thesis
      using Begun assms by (simp add: begin_whole whole_frame case_prod_beta Let_def)
  next
    case False
    then show ?thesis
      using Begun assms
      by (cases req) (auto simp: dispatch_section_frame case_prod_beta Let_def
          split: sum.splits option.splits if_splits)
  qed
qed (use assms in \<open>auto simp: dispatch_section_frame relay_register_def case_prod_beta Let_def
    split: sum.splits if_splits\<close>)

lemma next_section_links:
  assumes "hm_get (fr_links (nd_federation (gw_node (fst (next_section lib js d gw st))))) m = Some lk"
  shows "hm_get (fr_links (nd_federation (gw_node gw))) m = Some lk
    \<or> snd (snd (next_section lib js d gw st)) = Holding (ls_tx lk)"
proof (cases st)
  case (Begun req)
  show ?thesis
  proof (cases "whole req")
    case True
    then show ?thesis
      using Begun assms whole_frame(5) by (simp add: begin_whole case_prod_beta Let_def)
  next
    case False
    then show ?thesis
      using Begun assms
      by (cases req) (auto simp: dispatch_section_frame link_mesh_def case_prod_beta Let_def
          split: sum.splits option.splits if_splits)
  qed
qed (use assms in \<open>auto simp: dispatch_section_frame case_prod_beta Let_def split: sum.splits\<close>)

lemma next_section_dropped:
  "set (gw_dropped gw) \<subseteq> set (gw_dropped (fst (next_section lib js d gw st)))"
proof (cases st)
  case (Begun req)
  show ?thesis
  proof (cases "whole req")
    case True
    then show ?thesis
      using Begun by (simp add: begin_whole whole_frame case_prod_beta Let_def)
  next
    case False
    then show ?thesis
      using Begun by (cases req) (auto simp: dispatch_section_frame case_prod_beta Let_def
          split: sum.splits option.splits)
  qed
qed (auto simp: dispatch_section_frame case_prod_beta Let_def split: sum.splits)

fun has_begun :: "'j stage \<Rightarrow> bool" where
  "has_begun (Begun _) = False"
| "has_begun _ = True"

lemma next_has_begun: "has_begun (snd (snd (next_section lib js d gw st)))"
proof -
  have dispatch: "has_begun (snd (snd (dispatch_section js d gw env)))" for env
    by (cases "en_intent env") (simp_all add: dispatch_section_def case_prod_beta Let_def)
  have "has_begun (snd (snd (begin_section lib js d gw req)))" for req
    using dispatch
    by (cases "whole req"; cases req) (auto simp: begin_whole case_prod_beta Let_def split: sum.splits option.splits)
  with dispatch show ?thesis
    by (cases st) (auto simp: case_prod_beta Let_def split: sum.splits)
qed

lemma next_section_ids:
  assumes "ids_used gw n"
  shows "ids_used (fst (next_section lib js d gw st)) (if has_begun st then n else Suc n)"
proof (cases st)
  case (Begun req)
  show ?thesis
  proof (cases "whole req")
    case True
    then show ?thesis
      using Begun request_ids [OF assms] by (simp add: begin_whole case_prod_beta Let_def)
  next
    case False
    then show ?thesis
      using Begun assms by (cases req) (auto simp: dispatch_section_frame ids_used_def case_prod_beta Let_def
          split: sum.splits option.splits)
  qed
qed (use assms in \<open>auto simp: dispatch_section_frame ids_used_def case_prod_beta Let_def split: sum.splits\<close>)

end
