(* ===== verification/Gateway_Concurrency.thy ===== *)
theory Gateway_Concurrency
  imports Gateway_Effects Room_Locks
begin

text \<open>
  The gateway under concurrent requests: requests arrive, take their sections in any interleaving, and
  are abandoned when their client leaves, be it between two sections or where the room manager waits for
  its second lock. A history is a list of turns. The invariant \<open>service_ok\<close> holds after every history;
  what the atomic handlers promise and the sections do not is shown in the last part, a room that has
  no state and a room that has no members.
\<close>

section \<open>Requests together\<close>

text \<open>The gateway and the requests that have arrived, each with what its handler draws.\<close>
record ('kp, 'j) service =
  sv_gw :: "('kp, 'j) app_state"
  sv_tasks :: "(draws \<times> 'j stage) list"

definition arrive :: "draws \<Rightarrow> 'j request \<Rightarrow> ('kp, 'j) service \<Rightarrow> ('kp, 'j) service" where
  "arrive d req sv = sv\<lparr>sv_tasks := sv_tasks sv @ [(d, Begun req)]\<rparr>"

definition step_task ::
    "'kp crypto_lib \<Rightarrow> 'j json_lib \<Rightarrow> nat \<Rightarrow> ('kp, 'j) service \<Rightarrow> ('kp, 'j) service" where
  "step_task lib js i sv =
     (let (d, st) = sv_tasks sv ! i;
          (gw, _, st') = next_section lib js d (sv_gw sv) st
      in \<lparr>sv_gw = gw, sv_tasks = (sv_tasks sv)[i := (d, st')]\<rparr>)"

text \<open>A handler can be dropped where it waits for a lock.\<close>
fun waits :: "'j stage \<Rightarrow> bool" where
  "waits (Holding _) = False"
| "waits (Replied _) = False"
| "waits (Abandoned _) = False"
| "waits _ = True"

definition abandon_task :: "nat \<Rightarrow> ('kp, 'j) service \<Rightarrow> ('kp, 'j) service" where
  "abandon_task i sv =
     sv\<lparr>sv_tasks := (sv_tasks sv)[i := (fst (sv_tasks sv ! i), Abandoned (snd (sv_tasks sv ! i)))]\<rparr>"

text \<open>
  \<open>create_room\<close> of the room manager waits twice (\<open>Room_Locks\<close>): with the rooms written and their lock
  held, it waits for the members. A client that leaves there leaves a room that is listed and has no
  members. What other requests do while it waits does not need the lock of the rooms, so it does not
  see the new room and could as well have come before (\<open>begin_commutes\<close> below); the two parts, the writing
  and the leaving, are one turn.
\<close>
definition leave_locked :: "nat \<Rightarrow> ('kp, 'j) service \<Rightarrow> ('kp, 'j) service" where
  "leave_locked i sv =
     (case sv_tasks sv ! i of
        (d, Begun (RqCreateRoom body)) \<Rightarrow>
          (case create_begin (nd_rooms (gw_node (sv_gw sv))) (crr_room_id body) (crr_name body)
                  (crr_max_members body) (dr_clk d 0) of
             (rooms, Some info) \<Rightarrow>
               abandon_task i (sv\<lparr>sv_gw := on_node (nd_rooms_update (\<lambda>_. rooms)) (sv_gw sv)\<rparr>)
           | (rooms, None) \<Rightarrow> sv)
      | _ \<Rightarrow> sv)"

text \<open>
  What may happen next: a request arrives, a request takes its next section, a client leaves, a client
  leaves while its \<open>create_room\<close> holds the rooms.
\<close>
datatype 'j turn = Arrives draws "'j request" | Steps nat | Leaves nat | LeavesLocked nat

fun take_turn ::
    "'kp crypto_lib \<Rightarrow> 'j json_lib \<Rightarrow> 'j turn \<Rightarrow> ('kp, 'j) service \<Rightarrow> ('kp, 'j) service" where
  "take_turn lib js (Arrives d req) sv = arrive d req sv"
| "take_turn lib js (Steps i) sv = (if i < length (sv_tasks sv) then step_task lib js i sv else sv)"
| "take_turn lib js (Leaves i) sv =
     (if i < length (sv_tasks sv) \<and> waits (snd (sv_tasks sv ! i)) then abandon_task i sv else sv)"
| "take_turn lib js (LeavesLocked i) sv = (if i < length (sv_tasks sv) then leave_locked i sv else sv)"

fun turn_log :: "'kp crypto_lib \<Rightarrow> 'j turn \<Rightarrow> ('kp, 'j) service \<Rightarrow> auth_log list" where
  "turn_log lib (Steps i) sv =
     (if i < length (sv_tasks sv)
      then auth_entries lib (fst (sv_tasks sv ! i)) (sv_gw sv) (snd (sv_tasks sv ! i)) else [])"
| "turn_log lib _ sv = []"

text \<open>A history of turns, with the log of the authenticator.\<close>
fun run_turns ::
    "'kp crypto_lib \<Rightarrow> 'j json_lib \<Rightarrow> 'j turn list \<Rightarrow> ('kp, 'j) service \<times> auth_log list
      \<Rightarrow> ('kp, 'j) service \<times> auth_log list" where
  "run_turns lib js [] (sv, l) = (sv, l)"
| "run_turns lib js (turn # turns) (sv, l) =
     run_turns lib js turns (take_turn lib js turn sv, l @ turn_log lib turn sv)"

definition fresh_service :: "('kp, 'j) app_state \<Rightarrow> ('kp, 'j) service" where
  "fresh_service gw = \<lparr>sv_gw = gw, sv_tasks = []\<rparr>"

section \<open>Rooms whose creation was left\<close>

text \<open>The calls that do not need the lock of the rooms, before or after a room is written.\<close>
lemma begin_commutes:
  shows "fst (leave_room (fst (create_begin m rid name limit now)) r a) =
      fst (create_begin (fst (leave_room m r a)) rid name limit now)"
    "snd (leave_room (fst (create_begin m rid name limit now)) r a) = snd (leave_room m r a)"
    "room_members (fst (create_begin m rid name limit now)) r = room_members m r"
    "member_count (fst (create_begin m rid name limit now)) r = member_count m r"
    "snd (create_begin (fst (leave_room m r a)) rid name limit now) = snd (create_begin m rid name limit now)"
  by (simp_all add: leave_room_def create_begin_def room_members_def member_count_def Let_def split: option.split)

text \<open>The states of a room manager whose calls may be left between their locks.\<close>
inductive rooms_history :: "string \<Rightarrow> room_manager \<Rightarrow> bool" for mesh where
  rh_start: "rooms_history mesh (room_manager_new mesh)"
| rh_next: "rooms_history mesh r \<Longrightarrow> room_step r r' \<Longrightarrow> rooms_history mesh r'"
| rh_left: "rooms_history mesh r \<Longrightarrow> rooms_history mesh (fst (create_begin r rid name limit now))"

text \<open>What is left of \<open>rooms_ok\<close>: every set of members belongs to a room, and keeps its limit.\<close>
definition rooms_part_ok :: "string \<Rightarrow> room_manager \<Rightarrow> bool" where
  "rooms_part_ok mesh r \<longleftrightarrow>
     rm_mesh_id r = mesh
     \<and> (\<forall>rid. hm_get (rm_members r) rid \<noteq> None \<longrightarrow> hm_get (rm_rooms r) rid \<noteq> None)
     \<and> (\<forall>rid info. hm_get (rm_rooms r) rid = Some info \<longrightarrow> ri_room_id info = rid \<and> ri_mesh_id info = mesh)
     \<and> (\<forall>rid info ms limit. hm_get (rm_rooms r) rid = Some info \<longrightarrow> hm_get (rm_members r) rid = Some ms \<longrightarrow>
          ri_max_members info = Some limit \<longrightarrow> hm_len ms \<le> limit)"

lemma rooms_part_ok_members:
  assumes "rooms_part_ok mesh r" "room_members r rid = Ok ms"
  shows "\<exists>info. get_room r rid = Some info \<and> (\<forall>limit. ri_max_members info = Some limit \<longrightarrow> length ms \<le> limit)"
  using assms unfolding rooms_part_ok_def room_members_def get_room_def
  by (auto simp: hm_len_def hm_keys_def)

lemma rooms_part_ok_leave:
  assumes "rooms_part_ok mesh r"
  shows "rooms_part_ok mesh (fst (leave_room r rid a))"
proof (cases "hm_get (rm_members r) rid")
  case None
  with assms show ?thesis by (simp add: leave_room_def)
next
  case (Some ms)
  have "hm_len (hm_remove a ms) \<le> hm_len ms"
    by simp
  then have "hm_get (rm_rooms r) rid = Some info \<longrightarrow> ri_max_members info = Some limit \<longrightarrow>
      hm_len (hm_remove a ms) \<le> limit" for info limit
    using assms Some unfolding rooms_part_ok_def by (meson le_trans)
  moreover have "hm_get (rm_rooms r) rid \<noteq> None"
    using assms Some unfolding rooms_part_ok_def by (metis option.distinct(1))
  ultimately show ?thesis
    using assms Some unfolding rooms_part_ok_def leave_room_def
    by (simp del: not_None_eq hm_len_remove)
qed

lemma rooms_history_ok: "rooms_history mesh r \<Longrightarrow> rooms_part_ok mesh r"
proof (induction rule: rooms_history.induct)
  case rh_start
  show ?case by (simp add: rooms_part_ok_def room_manager_new_def)
next
  case (rh_next r r')
  from rh_next.hyps(2) show ?case
  proof (cases rule: room_step.cases)
    case (room_create rid name limit now)
    with rh_next.IH show ?thesis
      by (auto simp: rooms_part_ok_def create_room_def hm_contains_key_def Let_def)
  next
    case (room_join rid a)
    with rh_next.IH show ?thesis
      by (auto simp: rooms_part_ok_def join_room_def room_is_full_def split: option.splits)
  next
    case (room_leave rid a)
    with rooms_part_ok_leave [OF rh_next.IH] show ?thesis by simp
  qed
next
  case (rh_left r rid name limit now)
  then show ?case
    by (auto simp: rooms_part_ok_def create_begin_def hm_contains_key_def Let_def)
qed

lemma step_makes_members:
  assumes "room_step r r'" "hm_get (rm_rooms r') rid \<noteq> None"
  shows "hm_get (rm_members r') rid \<noteq> None
    \<or> hm_get (rm_rooms r) rid \<noteq> None \<and> hm_get (rm_members r) rid = None"
  using assms
  by (induction rule: room_step.induct)
    (auto simp: create_room_def join_room_def leave_room_def Let_def split: option.splits if_splits)

section \<open>The invariant\<close>

definition parts_ok :: "string \<Rightarrow> ('kp, 'j) app_state \<Rightarrow> bool" where
  "parts_ok mesh gw \<longleftrightarrow>
     (let n = gw_node gw in
        nd_mesh_id n = mesh \<and> registry_reachable mesh (nd_registry n) \<and> rooms_history mesh (nd_rooms n)
        \<and> sync_reachable mesh (nd_state n) \<and> match_reachable mesh (nd_matchmaker n)
        \<and> federation_reachable mesh (nd_federation n) \<and> social_reachable (gw_social gw))"

lemma match_steps_reachable: "match_step\<^sup>*\<^sup>* m m' \<Longrightarrow> match_reachable mesh m \<Longrightarrow> match_reachable mesh m'"
  by (induction rule: rtranclp_induct) (auto intro: m_next)

lemma parts_ok_step: "parts_step gw gw' \<Longrightarrow> parts_ok mesh gw \<Longrightarrow> parts_ok mesh gw'"
  unfolding parts_step_def parts_ok_def Let_def
  by (auto intro: reg_next rh_next sync_next match_steps_reachable fed_next soc_next)

definition stages :: "('kp, 'j) service \<Rightarrow> 'j stage list" where
  "stages sv = map snd (sv_tasks sv)"

text \<open>A stage that some request is in, or was in when it was abandoned.\<close>
definition left_at :: "('kp, 'j) service \<Rightarrow> 'j stage \<Rightarrow> bool" where
  "left_at sv st \<longleftrightarrow> st \<in> set (stages sv) \<or> Abandoned st \<in> set (stages sv)"

text \<open>A request for this room was abandoned while the room manager created it, or before.\<close>
definition creation_left :: "('kp, 'j) service \<Rightarrow> string \<Rightarrow> bool" where
  "creation_left sv rid \<longleftrightarrow>
     (\<exists>body. crr_room_id body = rid \<and> Abandoned (Begun (RqCreateRoom body)) \<in> set (stages sv))"

definition service_ok ::
    "'kp crypto_lib \<Rightarrow> string \<Rightarrow> ('kp, 'j) service \<Rightarrow> auth_log list \<Rightarrow> bool" where
  "service_ok lib mesh sv l \<longleftrightarrow>
     (let gw = sv_gw sv; n = gw_node gw in
        parts_ok mesh gw
        \<and> auth_inv lib (nd_auth n) l
        \<and> (\<forall>st \<in> set (stages sv). stage_ok lib gw l st)
        \<and> ids_used gw (length (filter has_begun (stages sv)))
        \<and> (\<forall>rid. hm_get (rm_rooms (nd_rooms n)) rid \<noteq> None \<longrightarrow>
             hm_get (sync_rooms (nd_state n)) rid \<noteq> None \<or> left_at sv (RoomMade rid) \<or> creation_left sv rid)
        \<and> (\<forall>rid. hm_get (rm_rooms (nd_rooms n)) rid \<noteq> None \<longrightarrow>
             hm_get (rm_members (nd_rooms n)) rid \<noteq> None \<or> creation_left sv rid)
        \<and> (\<forall>a c. hm_get (sr_peers (nd_relay n)) a = Some c \<longrightarrow>
             c \<in> set (gw_dropped gw) \<or> Holding c \<in> set (stages sv))
        \<and> (\<forall>m lk. hm_get (fr_links (nd_federation n)) m = Some lk \<longrightarrow>
             ls_tx lk \<in> set (gw_dropped gw) \<or> Holding (ls_tx lk) \<in> set (stages sv)))"

lemma service_okD:
  assumes "service_ok lib mesh sv l"
  shows "parts_ok mesh (sv_gw sv)" "auth_inv lib (nd_auth (gw_node (sv_gw sv))) l"
    "st \<in> set (stages sv) \<Longrightarrow> stage_ok lib (sv_gw sv) l st"
    "ids_used (sv_gw sv) (length (filter has_begun (stages sv)))"
    "hm_get (rm_rooms (nd_rooms (gw_node (sv_gw sv)))) rid \<noteq> None \<Longrightarrow>
       hm_get (sync_rooms (nd_state (gw_node (sv_gw sv)))) rid \<noteq> None \<or> left_at sv (RoomMade rid) \<or> creation_left sv rid"
    "hm_get (rm_rooms (nd_rooms (gw_node (sv_gw sv)))) rid \<noteq> None \<Longrightarrow>
       hm_get (rm_members (nd_rooms (gw_node (sv_gw sv)))) rid \<noteq> None \<or> creation_left sv rid"
    "hm_get (sr_peers (nd_relay (gw_node (sv_gw sv)))) a = Some c \<Longrightarrow>
       c \<in> set (gw_dropped (sv_gw sv)) \<or> Holding c \<in> set (stages sv)"
    "hm_get (fr_links (nd_federation (gw_node (sv_gw sv)))) m = Some lk \<Longrightarrow>
       ls_tx lk \<in> set (gw_dropped (sv_gw sv)) \<or> Holding (ls_tx lk) \<in> set (stages sv)"
  using assms unfolding service_ok_def Let_def by blast+

text \<open>One task moves on.\<close>

lemma length_stages: "length (stages sv) = length (sv_tasks sv)"
  by (simp add: stages_def)

lemma stages_simps [simp]:
  "stages \<lparr>sv_gw = gw, sv_tasks = []\<rparr> = []"
  "stages (arrive d req sv) = stages sv @ [Begun req]"
  "sv_gw (arrive d req sv) = sv_gw sv" "sv_gw (abandon_task i sv) = sv_gw sv"
  "stages (abandon_task i sv) = (stages sv)[i := Abandoned (snd (sv_tasks sv ! i))]"
  by (simp_all add: stages_def arrive_def abandon_task_def map_update)

lemma step_task_simps:
  assumes "sv_tasks sv ! i = (d, st)"
  shows "sv_gw (step_task lib js i sv) = fst (next_section lib js d (sv_gw sv) st)"
    "stages (step_task lib js i sv) = (stages sv)[i := snd (snd (next_section lib js d (sv_gw sv) st))]"
  by (simp_all add: stages_def step_task_def assms case_prod_beta Let_def map_update)

lemma stage_at: "i < length (sv_tasks sv) \<Longrightarrow> sv_tasks sv ! i = (d, st) \<Longrightarrow> stages sv ! i = st \<and> i < length (stages sv)"
  by (simp add: stages_def)

lemma others_stay:
  assumes "y \<in> set xs" "y \<noteq> xs ! i"
  shows "y \<in> set (xs[i := x])"
proof -
  obtain j where "j < length xs" "xs ! j = y"
    using assms(1) by (auto simp: in_set_conv_nth)
  moreover from this have "j \<noteq> i"
    using assms(2) by auto
  ultimately show ?thesis
    by (metis length_list_update nth_list_update_neq nth_mem)
qed

lemma length_filter_update:
  assumes "i < length xs" "P x"
  shows "length (filter P (xs[i := x])) = (if P (xs ! i) then length (filter P xs) else Suc (length (filter P xs)))"
  using assms by (induction xs arbitrary: i) (auto split: nat.splits)

lemma service_ok_start:
  assumes "gateway_main lib parses binds env rand = Serving gw"
  shows "service_ok lib (unwrap_or (env ''MESH_ID'') ''mesh:default'') (fresh_service gw) []"
proof -
  let ?mesh = "unwrap_or (env ''MESH_ID'') ''mesh:default''"
  obtain agent i i' where gw: "gw = gateway_start \<lparr>nd_agent_id = agent, nd_mesh_id = ?mesh, nd_identity = i',
      nd_registry = registry_new ?mesh, nd_auth = authenticator_new agent i,
      nd_rooms = room_manager_new ?mesh, nd_state = sync_new ?mesh, nd_gossip = gossip_router_new agent,
      nd_relay = signal_relay_new, nd_matchmaker = matchmaker_new ?mesh,
      nd_federation = federation_router_new ?mesh\<rparr>"
    using assms
    by (auto simp: gateway_main_def main_config_def node_new_def node_with_identity_def clone_for_auth_def
        split: if_splits option.splits sum.splits)
  have "auth_inv lib (authenticator_new agent i) []"
    by (rule auth_reach_inv [OF auth_start])
  then show ?thesis
    using start_ids [OF assms]
    by (auto simp: service_ok_def parts_ok_def Let_def fresh_service_def gw gateway_start_def signal_relay_new_def
        federation_router_new_def room_manager_new_def
        intro: reg_start rh_start [unfolded room_manager_new_def] sync_start m_start
          fed_start [unfolded federation_router_new_def] soc_start)
qed

lemma service_ok_arrive:
  assumes "service_ok lib mesh sv l"
  shows "service_ok lib mesh (arrive d req sv) l"
  using assms by (auto simp: service_ok_def left_at_def creation_left_def Let_def)

lemma service_ok_leaves:
  fixes rooms :: room_manager and sv :: "('kp, 'j) service"
  defines "sv' \<equiv> sv\<lparr>sv_gw := on_node (nd_rooms_update (\<lambda>_. rooms)) (sv_gw sv)\<rparr>"
  assumes ok: "service_ok lib mesh sv l" and i: "i < length (sv_tasks sv)" and t: "sv_tasks sv ! i = (d, st)"
    and w: "waits st"
    and history: "rooms_history mesh rooms"
    and keeps: "\<And>r. hm_get (rm_rooms (nd_rooms (gw_node (sv_gw sv)))) r \<noteq> None \<Longrightarrow> hm_get (rm_rooms rooms) r \<noteq> None"
    and fresh: "\<And>r. hm_get (rm_rooms rooms) r \<noteq> None \<Longrightarrow> hm_get (rm_rooms (nd_rooms (gw_node (sv_gw sv)))) r \<noteq> None
      \<or> (\<exists>body. st = Begun (RqCreateRoom body) \<and> crr_room_id body = r)"
    and members: "rm_members rooms = rm_members (nd_rooms (gw_node (sv_gw sv)))"
  shows "service_ok lib mesh (abandon_task i sv') l"
proof -
  note at = stage_at [OF i t]
  let ?sts = "(stages sv)[i := Abandoned st]" and ?gw = "sv_gw sv" and ?gw' = "sv_gw sv'"
  have "stages sv' = stages sv" "sv_tasks sv' = sv_tasks sv"
    by (simp_all add: sv'_def stages_def)
  then have sv': "stages (abandon_task i sv') = ?sts" "sv_gw (abandon_task i sv') = ?gw'"
    using t by (simp_all add: abandon_task_def stages_def map_update)
  have node: "gw_node ?gw' = (gw_node ?gw)\<lparr>nd_rooms := rooms\<rparr>" "gw_dropped ?gw' = gw_dropped ?gw"
      "gw_social ?gw' = gw_social ?gw"
    by (simp_all add: sv'_def)
  have left: "left_at (abandon_task i sv') x" if "left_at sv x" for x
  proof -
    have "Abandoned x \<noteq> stages sv ! i"
      using w at by (metis waits.simps(3))
    then show ?thesis
      using that at others_stay [of x "stages sv" i "Abandoned st"]
        others_stay [of "Abandoned x" "stages sv" i "Abandoned st"] set_update_memI [of i "stages sv" "Abandoned st"]
      by (cases "x = st") (auto simp: left_at_def sv' simp del: stages_simps)
  qed
  have creation: "creation_left (abandon_task i sv') r" if was: "creation_left sv r" for r
  proof -
    obtain body where body: "crr_room_id body = r" "Abandoned (Begun (RqCreateRoom body)) \<in> set (stages sv)"
      using was unfolding creation_left_def by blast
    moreover have "Abandoned (Begun (RqCreateRoom body)) \<noteq> stages sv ! i"
      using w at by (metis waits.simps(3))
    ultimately show ?thesis
      using others_stay [OF body(2)] by (auto simp: creation_left_def sv' simp del: stages_simps)
  qed
  have new: "creation_left (abandon_task i sv') r" if "st = Begun (RqCreateRoom body)" "crr_room_id body = r" for body r
    using that at set_update_memI [of i "stages sv" "Abandoned st"] by (auto simp: creation_left_def sv' simp del: stages_simps)
  have listed: "hm_get (rm_rooms (nd_rooms (gw_node ?gw))) r \<noteq> None \<or> creation_left (abandon_task i sv') r"
    if "hm_get (rm_rooms rooms) r \<noteq> None" for r
    using fresh [OF that] new by blast
  have hold: "Holding c \<in> set ?sts" if "Holding c \<in> set (stages sv)" for c
  proof -
    have "Holding c \<noteq> stages sv ! i"
      using w at by (metis waits.simps(1))
    then show ?thesis by (rule others_stay [OF that])
  qed
  have grows: "grows ?gw ?gw'"
    using keeps by (simp add: grows_def node Let_def del: not_None_eq)
  have stages: "stage_ok lib ?gw' l x" if "x \<in> set ?sts" for x
    using that stage_ok_mono [OF grows service_okD(3) [OF ok, of x], of "[]"]
      set_update_subset_insert [of "stages sv" i "Abandoned st"] by auto
  have begun: "ids_used ?gw' (length (filter has_begun ?sts))"
    using service_okD(4) [OF ok] at by (auto simp: length_filter_update ids_used_def node)
  have parts: "parts_ok mesh ?gw'"
    using service_okD(1) [OF ok] history by (simp add: parts_ok_def node Let_def)
  have state: "hm_get (sync_rooms (nd_state (gw_node ?gw))) r \<noteq> None \<or> left_at (abandon_task i sv') (RoomMade r)
      \<or> creation_left (abandon_task i sv') r"
    and with_members: "hm_get (rm_members rooms) r \<noteq> None \<or> creation_left (abandon_task i sv') r"
    if "hm_get (rm_rooms rooms) r \<noteq> None" for r
    using listed [OF that] service_okD(5,6) [OF ok, of r] left creation unfolding members by blast+
  have relay: "c \<in> set (gw_dropped ?gw) \<or> Holding c \<in> set ?sts"
    if "hm_get (sr_peers (nd_relay (gw_node ?gw))) a = Some c" for a c
    using service_okD(7) [OF ok that] hold by blast
  have links: "ls_tx lk \<in> set (gw_dropped ?gw) \<or> Holding (ls_tx lk) \<in> set ?sts"
    if "hm_get (fr_links (nd_federation (gw_node ?gw))) m = Some lk" for m lk
    using service_okD(8) [OF ok that] hold by blast
  show ?thesis
    using parts service_okD(2) [OF ok] stages begun state with_members relay links
    unfolding service_ok_def Let_def sv' by (simp add: node del: not_None_eq)
qed

lemma service_ok_abandon:
  assumes "service_ok lib mesh sv l" "i < length (sv_tasks sv)" "waits (snd (sv_tasks sv ! i))"
  shows "service_ok lib mesh (abandon_task i sv) l"
  using service_ok_leaves [OF assms(1,2) prod.collapse [symmetric] assms(3), of "nd_rooms (gw_node (sv_gw sv))"]
    service_okD(1) [OF assms(1)]
  by (simp add: parts_ok_def Let_def)

lemma service_ok_leave_locked:
  assumes ok: "service_ok lib mesh sv l" and i: "i < length (sv_tasks sv)"
  shows "service_ok lib mesh (leave_locked i sv) l"
proof -
  obtain d st where t: "sv_tasks sv ! i = (d, st)" by (cases "sv_tasks sv ! i")
  consider body where "st = Begun (RqCreateRoom body)" "\<not> hm_contains_key (rm_rooms (nd_rooms (gw_node (sv_gw sv)))) (crr_room_id body)"
    | "leave_locked i sv = sv"
  proof (cases "\<exists>body. st = Begun (RqCreateRoom body)")
    case True
    then obtain body where body: "st = Begun (RqCreateRoom body)" by blast
    show ?thesis
    proof (cases "hm_contains_key (rm_rooms (nd_rooms (gw_node (sv_gw sv)))) (crr_room_id body)")
      case True
      then have "leave_locked i sv = sv"
        by (simp add: leave_locked_def t body create_begin_def)
      with that show ?thesis by blast
    qed (use body that in blast)
  next
    case False
    then have "leave_locked i sv = sv"
      by (auto simp: leave_locked_def t split: stage.split request.split)
    with that show ?thesis by blast
  qed
  then show ?thesis
  proof cases
    case 1
    let ?rooms = "fst (create_begin (nd_rooms (gw_node (sv_gw sv))) (crr_room_id body) (crr_name body) (crr_max_members body) (dr_clk d 0))"
    have "leave_locked i sv = abandon_task i (sv\<lparr>sv_gw := on_node (nd_rooms_update (\<lambda>_. ?rooms)) (sv_gw sv)\<rparr>)"
      using 1 by (simp add: leave_locked_def t create_begin_def Let_def)
    moreover have "rooms_history mesh ?rooms"
      using service_okD(1) [OF ok] by (auto simp: parts_ok_def Let_def intro: rh_left)
    ultimately show ?thesis
      using service_ok_leaves [OF ok i t, of ?rooms] 1
      by (auto simp: create_begin_def Let_def split: if_splits)
  qed (simp add: ok)
qed

lemma next_section_room_step:
  "room_step\<^sup>=\<^sup>= (nd_rooms (gw_node gw)) (nd_rooms (gw_node (fst (next_section lib js d gw st))))"
proof (cases st)
  case (Begun req)
  show ?thesis
  proof (cases "whole req")
    case True
    then show ?thesis
      using Begun by (cases req) (auto simp: begin_whole endpoint_node gossip_node case_prod_beta Let_def
          intro: room_join room_leave split: option.split)
  next
    case False
    then show ?thesis
      using Begun by (cases req) (auto simp: dispatch_section_frame case_prod_beta Let_def
          intro: room_create split: sum.split option.split)
  qed
qed (auto simp: dispatch_section_frame case_prod_beta Let_def split: sum.split)

lemma service_ok_section:
  assumes ok: "service_ok lib mesh sv l" and i: "i < length (sv_tasks sv)" and t: "sv_tasks sv ! i = (d, st)"
    and few: "length (sv_tasks sv) < 2 ^ 64 - 1"
  shows "service_ok lib mesh (step_task lib js i sv) (l @ auth_entries lib d (sv_gw sv) st)"
proof -
  note at = stage_at [OF i t]
  let ?gw = "sv_gw sv" and ?l = "l @ auth_entries lib d (sv_gw sv) st"
  let ?gw' = "fst (next_section lib js d (sv_gw sv) st)"
    and ?st = "snd (snd (next_section lib js d (sv_gw sv) st))"
  let ?sts = "(stages sv)[i := ?st]"
  have st: "stage_ok lib ?gw l st"
    using service_okD(3) [OF ok, of st] at nth_mem by metis
  have "length (filter has_begun (stages sv)) < 2 ^ 64 - 1"
    using few length_filter_le [of has_begun "stages sv"] by (simp add: length_stages)
  then have ids: "ids_left ?gw"
    by (rule ids_used_left [OF service_okD(4) [OF ok]])
  have parts: "parts_ok mesh ?gw'"
    by (rule parts_ok_step [OF next_section_parts [OF ids] service_okD(1) [OF ok]])
  have grows: "grows ?gw ?gw'"
    by (rule next_section_grows [OF ids])
  have auth: "auth_inv lib (nd_auth (gw_node ?gw')) ?l"
    by (rule next_section_auth [OF service_okD(2) [OF ok] st])
  have "social_reachable (gw_social ?gw)"
    using service_okD(1) [OF ok] by (simp add: parts_ok_def Let_def)
  note st' = next_stage_ok [OF this service_okD(2) [OF ok] st]
  have stages: "stage_ok lib ?gw' ?l x" if "x \<in> set ?sts" for x
  proof (cases "x = ?st")
    case False
    then have "x \<in> set (stages sv)"
      using that set_update_subset_insert [of "stages sv" i ?st] by auto
    then show ?thesis
      by (rule stage_ok_mono [OF grows service_okD(3) [OF ok]])
  qed (simp only: st')
  have used: "ids_used ?gw' (length (filter has_begun ?sts))"
    using next_section_ids [OF service_okD(4) [OF ok], of lib js d st] at
    by (simp add: length_filter_update next_has_begun)
  have there: "?st \<in> set ?sts"
    using at by (simp add: set_update_memI)
  have left: "left_at (step_task lib js i sv) (RoomMade rid)"
    if "left_at sv (RoomMade rid)" "st \<noteq> RoomMade rid" for rid
  proof (cases "st = Abandoned (RoomMade rid)")
    case True
    with there show ?thesis by (simp add: left_at_def step_task_simps [OF t])
  next
    case False
    with that at show ?thesis
      using others_stay [of "RoomMade rid" "stages sv" i ?st] others_stay [of "Abandoned (RoomMade rid)" "stages sv" i ?st]
      by (auto simp: left_at_def step_task_simps [OF t])
  qed
  have creation: "creation_left (step_task lib js i sv) rid" if was: "creation_left sv rid" for rid
  proof -
    obtain body where body: "crr_room_id body = rid" "Abandoned (Begun (RqCreateRoom body)) \<in> set (stages sv)"
      using was unfolding creation_left_def by blast
    then have "Abandoned (Begun (RqCreateRoom body)) \<in> set ?sts"
      using there others_stay [OF body(2), of i ?st] at by (cases "st = Abandoned (Begun (RqCreateRoom body))") auto
    with body(1) show ?thesis by (auto simp: creation_left_def step_task_simps [OF t])
  qed
  have members: "hm_get (rm_members (nd_rooms (gw_node ?gw'))) rid \<noteq> None \<or> creation_left (step_task lib js i sv) rid"
    if "hm_get (rm_rooms (nd_rooms (gw_node ?gw'))) rid \<noteq> None" for rid
  proof -
    from next_section_room_step consider "nd_rooms (gw_node ?gw') = nd_rooms (gw_node ?gw)"
      | "room_step (nd_rooms (gw_node ?gw)) (nd_rooms (gw_node ?gw'))" by fastforce
    then show ?thesis
      using that step_makes_members service_okD(6) [OF ok] creation by cases metis+
  qed
  have rooms: "hm_get (sync_rooms (nd_state (gw_node ?gw'))) rid \<noteq> None \<or> left_at (step_task lib js i sv) (RoomMade rid)
      \<or> creation_left (step_task lib js i sv) rid"
    if "hm_get (rm_rooms (nd_rooms (gw_node ?gw'))) rid \<noteq> None" for rid
  proof (cases "?st = RoomMade rid")
    case True
    with there show ?thesis by (simp add: left_at_def step_task_simps [OF t])
  next
    case False
    with next_section_rooms [OF that] have "hm_get (rm_rooms (nd_rooms (gw_node ?gw))) rid \<noteq> None"
      by blast
    from service_okD(5) [OF ok this] show ?thesis
    proof (elim disjE)
      assume "hm_get (sync_rooms (nd_state (gw_node ?gw))) rid \<noteq> None"
      then show ?thesis using next_section_keeps(2) by blast
    next
      assume "left_at sv (RoomMade rid)"
      with left show ?thesis by (cases "st = RoomMade rid") (simp_all add: rooms_init_room)
    next
      assume "creation_left sv rid"
      with creation show ?thesis by blast
    qed
  qed
  have hold: "c \<in> set (gw_dropped ?gw') \<or> Holding c \<in> set ?sts"
    if "c \<in> set (gw_dropped ?gw) \<or> Holding c \<in> set (stages sv)" for c
  proof (cases "st = Holding c")
    case False
    then show ?thesis
      using that at others_stay [of "Holding c" "stages sv" i ?st] next_section_dropped [of ?gw lib js d st] by auto
  qed simp
  have relay: "c \<in> set (gw_dropped ?gw') \<or> Holding c \<in> set ?sts"
    if "hm_get (sr_peers (nd_relay (gw_node ?gw'))) a = Some c" for a c
    using next_section_relay [OF that] hold service_okD(7) [OF ok] there by metis
  have links: "ls_tx lk \<in> set (gw_dropped ?gw') \<or> Holding (ls_tx lk) \<in> set ?sts"
    if "hm_get (fr_links (nd_federation (gw_node ?gw'))) m = Some lk" for m lk
    using next_section_links [OF that] hold service_okD(8) [OF ok] there by metis
  show ?thesis
    unfolding service_ok_def Let_def step_task_simps [OF t]
    using parts auth stages used rooms members relay links by blast
qed

lemma take_turn_ok:
  assumes "service_ok lib mesh sv l" "length (sv_tasks sv) < 2 ^ 64 - 1"
  shows "service_ok lib mesh (take_turn lib js turn sv) (l @ turn_log lib turn sv)"
proof (cases turn)
  case (Arrives d req)
  with service_ok_arrive [OF assms(1)] show ?thesis by simp
next
  case (Steps i)
  with service_ok_section [OF assms(1) _ prod.collapse [symmetric] assms(2)] assms(1) show ?thesis by auto
next
  case (Leaves i)
  with service_ok_abandon [OF assms(1)] assms(1) show ?thesis by auto
next
  case (LeavesLocked i)
  with service_ok_leave_locked [OF assms(1)] assms(1) show ?thesis by auto
qed

lemma leave_locked_tasks: "length (sv_tasks (leave_locked i sv)) = length (sv_tasks sv)"
proof -
  obtain d st where "sv_tasks sv ! i = (d, st)" by (cases "sv_tasks sv ! i")
  then show ?thesis
    by (auto simp: leave_locked_def abandon_task_def split: stage.split request.split prod.split option.split)
qed

lemma leave_locked_node:
  "hm_get (rm_rooms (nd_rooms (gw_node (sv_gw sv)))) rid = Some info \<Longrightarrow>
     hm_get (rm_rooms (nd_rooms (gw_node (sv_gw (leave_locked i sv))))) rid = Some info"
  "nd_state (gw_node (sv_gw (leave_locked i sv))) = nd_state (gw_node (sv_gw sv))"
  by (auto simp: leave_locked_def abandon_task_def create_begin_def hm_contains_key_def Let_def
      split: prod.split stage.split request.split)

lemma leave_locked_stages:
  assumes "i < length (sv_tasks sv)"
  shows "stages (leave_locked i sv) = stages sv
   \<or> (\<exists>body. stages sv ! i = Begun (RqCreateRoom body)
        \<and> stages (leave_locked i sv) = (stages sv)[i := Abandoned (Begun (RqCreateRoom body))])"
  using assms by (auto simp: leave_locked_def abandon_task_def stages_def map_update
      split: prod.split stage.split request.split option.split)

lemma take_turn_tasks: "length (sv_tasks (take_turn lib js turn sv)) \<le> Suc (length (sv_tasks sv))"
  by (cases turn) (simp_all add: arrive_def step_task_def abandon_task_def leave_locked_tasks case_prod_beta Let_def)

lemma run_turns_ok:
  assumes "service_ok lib mesh sv l" "length (sv_tasks sv) + length turns < 2 ^ 64 - 1"
    and "run_turns lib js turns (sv, l) = (sv', l')"
  shows "service_ok lib mesh sv' l'"
  using assms
proof (induction turns arbitrary: sv l)
  case (Cons turn turns)
  show ?case
    using Cons.prems take_turn_tasks [of lib js turn sv] take_turn_ok [OF Cons.prems(1)]
    by (intro Cons.IH [of "take_turn lib js turn sv" "l @ turn_log lib turn sv"]) simp_all
qed simp

section \<open>Properties\<close>

lemma next_section_progress:
  "sections_left st \<noteq> 0 \<Longrightarrow> sections_left (snd (snd (next_section lib js d gw st))) < sections_left st"
proof -
  have dispatch: "sections_left (snd (snd (dispatch_section js d gw env))) < 3" for env
    by (cases "en_intent env") (simp_all add: dispatch_section_def case_prod_beta Let_def)
  have "sections_left (snd (snd (begin_section lib js d gw req))) < 5" for req
    using less_trans [OF dispatch]
    by (cases "whole req"; cases req) (auto simp: begin_whole case_prod_beta Let_def split: sum.splits option.splits)
  with dispatch show "sections_left st \<noteq> 0 \<Longrightarrow> ?thesis"
    by (cases st) (auto simp: case_prod_beta Let_def split: sum.splits)
qed

text \<open>
  C6: The gateway stays sound under concurrent requests. From what \<open>main\<close> starts with, after any
  history in which requests arrive, take their sections in any interleaving and are abandoned half
  way: every subsystem is in a state its own operations reach, the rooms in one they reach when
  creations may also be left between their two locks; a peer is authenticated only by a
  signature that verified over the challenge then outstanding for it; no handler has panicked;
  a room that is listed has its state, unless the request that creates it is between its two steps
  or was abandoned, and it has its set of members, unless a request that creates it was abandoned;
  every set of members belongs to a room and keeps its limit;
  and a channel that is registered or linked has lost its receiver, or is about to.
\<close>
theorem concurrent_gateway_sound:
  assumes "gateway_main lib parses binds env rand = Serving gw"
    and "run_turns lib js turns (fresh_service gw, []) = (sv, l)" and "length turns < 2 ^ 64 - 1"
  shows "parts_ok (unwrap_or (env ''MESH_ID'') ''mesh:default'') (sv_gw sv)
     \<and> (get_authenticated (nd_auth (gw_node (sv_gw sv))) a = Some p \<longrightarrow> vouched lib l a p)
     \<and> Replied Crashed \<notin> set (stages sv)
     \<and> (hm_get (rm_rooms (nd_rooms (gw_node (sv_gw sv)))) rid \<noteq> None \<longrightarrow>
          hm_get (sync_rooms (nd_state (gw_node (sv_gw sv)))) rid \<noteq> None
          \<or> RoomMade rid \<in> set (stages sv) \<or> Abandoned (RoomMade rid) \<in> set (stages sv)
          \<or> (\<exists>body. crr_room_id body = rid \<and> Abandoned (Begun (RqCreateRoom body)) \<in> set (stages sv)))
     \<and> (hm_get (rm_rooms (nd_rooms (gw_node (sv_gw sv)))) rid \<noteq> None \<longrightarrow>
          is_ok (room_members (nd_rooms (gw_node (sv_gw sv))) rid)
          \<or> (\<exists>body. crr_room_id body = rid \<and> Abandoned (Begun (RqCreateRoom body)) \<in> set (stages sv)))
     \<and> (room_members (nd_rooms (gw_node (sv_gw sv))) rid = Ok ms \<longrightarrow>
          (\<exists>info. get_room (nd_rooms (gw_node (sv_gw sv))) rid = Some info
             \<and> (\<forall>limit. ri_max_members info = Some limit \<longrightarrow> length ms \<le> limit)))
     \<and> (hm_get (sr_peers (nd_relay (gw_node (sv_gw sv)))) b = Some c \<longrightarrow>
          \<not> send_ok (sv_gw sv) c \<or> Holding c \<in> set (stages sv))"
proof -
  let ?rooms = "nd_rooms (gw_node (sv_gw sv))"
  have ok: "service_ok lib (unwrap_or (env ''MESH_ID'') ''mesh:default'') sv l"
    using run_turns_ok [OF service_ok_start [OF assms(1)] _ assms(2)] assms(3) by (simp add: fresh_service_def)
  have "Replied Crashed \<notin> set (stages sv)"
    using service_okD(3) [OF ok] by force
  moreover have "vouched lib l a p" if "get_authenticated (nd_auth (gw_node (sv_gw sv))) a = Some p"
    using that service_okD(2) [OF ok] by (simp add: auth_inv_def get_authenticated_def)
  moreover have "is_ok (room_members ?rooms rid) \<or> creation_left sv rid"
    if "hm_get (rm_rooms ?rooms) rid \<noteq> None"
    using service_okD(6) [OF ok that] by (auto simp: room_members_def)
  moreover have "\<exists>info. get_room ?rooms rid = Some info
      \<and> (\<forall>limit. ri_max_members info = Some limit \<longrightarrow> length ms \<le> limit)" if "room_members ?rooms rid = Ok ms"
    using rooms_part_ok_members [OF rooms_history_ok that] service_okD(1) [OF ok] by (auto simp: parts_ok_def Let_def)
  ultimately show ?thesis
    using service_okD(1,5,7) [OF ok] unfolding send_ok_def left_at_def creation_left_def by blast
qed

text \<open>
  C15: What a handler has checked before it lets other requests run still holds when it goes on.
  In any concurrent history, an envelope whose policy was checked satisfies the policy when its signature is checked
  and when it is dispatched, the slot a scheduling envelope has proposed is still there to be
  confirmed or declined (so the result its handler ignores is never an error), and the room a
  request has created still exists when its state is set up.
\<close>
theorem checks_stay_valid:
  assumes "gateway_main lib parses binds env rand = Serving gw"
    and "run_turns lib js turns (fresh_service gw, []) = (sv, l)" and "length turns < 2 ^ 64 - 1"
  shows "(Admitted envl \<in> set (stages sv) \<or> Checked envl \<in> set (stages sv) \<longrightarrow>
          en_schema_version envl = PROTOCOL_VERSION \<and> enforce_policy (sv_gw sv) envl = Ok ())
     \<and> (Deciding k yes \<in> set (stages sv) \<longrightarrow>
          is_ok (snd (snd (confirm_slot (nd_matchmaker (gw_node (sv_gw sv))) k)))
          \<and> is_ok (snd (snd (decline_slot (nd_matchmaker (gw_node (sv_gw sv))) k))))
     \<and> (RoomMade rid \<in> set (stages sv) \<longrightarrow> get_room (nd_rooms (gw_node (sv_gw sv))) rid \<noteq> None)"
proof -
  have ok: "service_ok lib (unwrap_or (env ''MESH_ID'') ''mesh:default'') sv l"
    using run_turns_ok [OF service_ok_start [OF assms(1)] _ assms(2)] assms(3) by (simp add: fresh_service_def)
  show ?thesis
    using service_okD(3) [OF ok, of "Admitted envl"] service_okD(3) [OF ok, of "Checked envl"]
      service_okD(3) [OF ok, of "Deciding k yes"] service_okD(3) [OF ok, of "RoomMade rid"]
    by (auto simp: enforce_policy_ok confirm_slot_def decline_slot_def Let_def get_room_def)
qed

section \<open>A room without state\<close>

text \<open>The stages and the turns from which the state of a room may come.\<close>

fun makes_state :: "string \<Rightarrow> 'j stage \<Rightarrow> bool" where
  "makes_state rid (RoomMade r) \<longleftrightarrow> r = rid"
| "makes_state rid (Begun (RqRestoreSnapshot r snap)) \<longleftrightarrow> r = rid"
| "makes_state rid _ \<longleftrightarrow> False"

fun restores :: "string \<Rightarrow> 'j turn \<Rightarrow> bool" where
  "restores rid (Arrives d (RqRestoreSnapshot r snap)) \<longleftrightarrow> r = rid"
| "restores rid _ \<longleftrightarrow> False"

definition orphaned :: "string \<Rightarrow> room_info \<Rightarrow> ('kp, 'j) service \<Rightarrow> bool" where
  "orphaned rid info sv \<longleftrightarrow>
     hm_get (rm_rooms (nd_rooms (gw_node (sv_gw sv)))) rid = Some info
     \<and> hm_get (sync_rooms (nd_state (gw_node (sv_gw sv)))) rid = None
     \<and> (\<forall>st \<in> set (stages sv). \<not> makes_state rid st)"

lemma next_section_no_state:
  assumes "hm_get (sync_rooms (nd_state (gw_node gw))) rid = None" "\<not> makes_state rid st"
  shows "hm_get (sync_rooms (nd_state (gw_node (fst (next_section lib js d gw st))))) rid = None"
proof (cases st)
  case (Begun req)
  show ?thesis
  proof (cases "whole req")
    case True
    then show ?thesis
      using Begun assms
      by (cases req) (auto simp: begin_whole endpoint_node gossip_node sync_set_def apply_delta_def
          rooms_restore_snapshot case_prod_beta Let_def split: option.split)
  next
    case False
    then show ?thesis
      using Begun assms
      by (cases req) (auto simp: dispatch_section_keeps case_prod_beta Let_def split: sum.split option.split)
  qed
qed (use assms in \<open>auto simp: dispatch_section_keeps rooms_init_room case_prod_beta Let_def split: sum.split\<close>)

lemma next_section_room:
  assumes "hm_get (rm_rooms (nd_rooms (gw_node gw))) rid = Some info"
  shows "hm_get (rm_rooms (nd_rooms (gw_node (fst (next_section lib js d gw st))))) rid = Some info"
    and "\<not> makes_state rid (snd (snd (next_section lib js d gw st)))"
proof -
  have dispatch: "\<not> makes_state rid (snd (snd (dispatch_section js d gw env)))" for env
    by (cases "en_intent env") (simp_all add: dispatch_section_def case_prod_beta Let_def)
  have "hm_get (rm_rooms (nd_rooms (gw_node (fst (begin_section lib js d gw req))))) rid = Some info
      \<and> \<not> makes_state rid (snd (snd (begin_section lib js d gw req)))" for req
  proof (cases "whole req")
    case True
    then show ?thesis
      using assms by (simp add: begin_whole whole_frame case_prod_beta Let_def)
  next
    case False
    then show ?thesis
      using assms dispatch
      by (cases req) (auto simp: dispatch_section_frame create_room_def case_prod_beta Let_def
          hm_contains_key_def split: sum.split option.split)
  qed
  with assms dispatch show
    "hm_get (rm_rooms (nd_rooms (gw_node (fst (next_section lib js d gw st))))) rid = Some info"
    "\<not> makes_state rid (snd (snd (next_section lib js d gw st)))"
    by (cases st; auto simp: dispatch_section_frame case_prod_beta Let_def split: sum.split)+
qed

lemma orphaned_turn:
  assumes "orphaned rid info sv" "\<not> restores rid turn"
  shows "orphaned rid info (take_turn lib js turn sv)"
proof (cases turn)
  case (Arrives d req)
  with assms show ?thesis by (cases req) (auto simp: orphaned_def)
next
  case (Steps i)
  show ?thesis
  proof (cases "i < length (sv_tasks sv)")
    case True
    obtain d st where t: "sv_tasks sv ! i = (d, st)" by (cases "sv_tasks sv ! i")
    then have "\<not> makes_state rid st"
      using assms(1) stage_at [OF True t] nth_mem unfolding orphaned_def by metis
    then show ?thesis
      using assms(1) True Steps next_section_no_state [of "sv_gw sv" rid st lib js d]
        next_section_room [of "sv_gw sv" rid info lib js d st]
        set_update_subset_insert [of "stages sv" i "snd (snd (next_section lib js d (sv_gw sv) st))"]
      unfolding orphaned_def by (auto simp: step_task_simps [OF t])
  qed (use assms Steps in simp)
next
  case (Leaves i)
  then show ?thesis
    using assms(1) set_update_subset_insert [of "stages sv" i "Abandoned (snd (sv_tasks sv ! i))"]
    unfolding orphaned_def by auto
next
  case (LeavesLocked i)
  have "\<not> makes_state rid st" if "i < length (sv_tasks sv)" "st \<in> set (stages (leave_locked i sv))" for st
    using assms(1) leave_locked_stages [OF that(1)] that(2) unfolding orphaned_def
    by (auto dest!: set_update_subset_insert [THEN subsetD])
  then show ?thesis
    using LeavesLocked assms(1) leave_locked_node(1) [of sv rid info i] leave_locked_node(2) [of i sv]
    unfolding orphaned_def by auto
qed

lemma orphaned_turns:
  "orphaned rid info sv \<Longrightarrow> list_all (\<lambda>turn. \<not> restores rid turn) turns \<Longrightarrow>
     orphaned rid info (fst (run_turns lib js turns (sv, l)))"
  by (induction turns arbitrary: sv l) (simp_all add: orphaned_turn)

text \<open>
  C30: A \<open>create_room\<close> that is abandoned between its two locks leaves a room that cannot be used. Once the
  client of a request for a new room has left after the room was made and before its state was, the
  room stays listed, and until somebody restores a snapshot into it: reading and setting its
  state is answered 404, and creating it again 409.
\<close>
theorem abandoned_room_unusable:
  assumes "get_room (nd_rooms (gw_node (sv_gw sv))) (crr_room_id body) = None"
    and "hm_get (sync_rooms (nd_state (gw_node (sv_gw sv)))) (crr_room_id body) = None"
    and "list_all (\<lambda>st. \<not> makes_state (crr_room_id body) st) (stages sv)"
    and "list_all (\<lambda>turn. \<not> restores (crr_room_id body) turn) turns"
    and "run_turns lib js ([Arrives d (RqCreateRoom body), Steps (length (sv_tasks sv)),
           Leaves (length (sv_tasks sv))] @ turns) (sv, l) = (sv', l')"
  shows "crr_room_id body \<in> ri_room_id ` set (gw_list_rooms (sv_gw sv'))
     \<and> (\<exists>e. gw_list_state (sv_gw sv') (crr_room_id body) = Err e \<and> fst e = NOT_FOUND)
     \<and> (\<exists>e. gw_set_state (sv_gw sv') (crr_room_id body) ssr now = (sv_gw sv', [], Err e) \<and> fst e = NOT_FOUND)
     \<and> (\<exists>e. gw_create_room (sv_gw sv') (body'\<lparr>crr_room_id := crr_room_id body\<rparr>) now =
              (sv_gw sv', Err e) \<and> fst e = CONFLICT)"
proof -
  let ?rid = "crr_room_id body" and ?gw = "sv_gw sv"
  let ?info = "\<lparr>ri_room_id = ?rid, ri_mesh_id = rm_mesh_id (nd_rooms (gw_node ?gw)), ri_name = crr_name body,
    ri_created_at = dr_clk d 0, ri_max_members = crr_max_members body\<rparr>"
  define sv1 where "sv1 = take_turn lib js (Steps (length (sv_tasks sv))) (arrive d (RqCreateRoom body) sv)"
  define sv2 where "sv2 = take_turn lib js (Leaves (length (sv_tasks sv))) sv1"
  have "sv_tasks (arrive d (RqCreateRoom body) sv) ! length (sv_tasks sv) = (d, Begun (RqCreateRoom body))"
    by (simp add: arrive_def)
  note sec = step_task_simps [OF this, of lib js]
  have new: "hm_get (rm_rooms (nd_rooms (gw_node ?gw))) ?rid = None"
    using assms(1) by (simp add: get_room_def)
  have "sv_gw sv1 = on_node (nd_rooms_update (\<lambda>_. fst (create_room (nd_rooms (gw_node ?gw)) ?rid (crr_name body)
      (crr_max_members body) (dr_clk d 0)))) ?gw"
    and st1: "stages sv1 = stages sv @ [RoomMade ?rid]"
    using new sec by (simp_all add: sv1_def create_room_def Let_def hm_contains_key_def length_stages [symmetric])
  moreover have "length (sv_tasks sv) < length (sv_tasks sv1)"
    using arg_cong [OF st1, of length] by (simp add: length_stages)
  moreover from this have "snd (sv_tasks sv1 ! length (sv_tasks sv)) = RoomMade ?rid"
    using arg_cong [OF st1, of "\<lambda>sts. sts ! length (stages sv)"] by (simp add: stages_def nth_append)
  ultimately have "sv_gw sv2 = sv_gw sv1" "stages sv2 = stages sv @ [Abandoned (RoomMade ?rid)]"
    by (simp_all add: sv2_def st1 length_stages [symmetric])
  moreover note \<open>sv_gw sv1 = _\<close>
  ultimately have "orphaned ?rid ?info sv2"
    using new assms(2,3) by (auto simp: orphaned_def create_room_def hm_contains_key_def list_all_iff Let_def)
  from orphaned_turns [OF this assms(4), of lib js] have "orphaned ?rid ?info sv'"
    using assms(5) by (simp add: sv1_def sv2_def) (metis fst_conv)
  then have room: "hm_get (rm_rooms (nd_rooms (gw_node (sv_gw sv')))) ?rid = Some ?info"
    and none: "hm_get (sync_rooms (nd_state (gw_node (sv_gw sv')))) ?rid = None"
    by (auto simp: orphaned_def)
  then have "?info \<in> set (gw_list_rooms (sv_gw sv'))"
    by (auto simp: gw_list_rooms_def list_rooms_def)
  then have "?rid \<in> ri_room_id ` set (gw_list_rooms (sv_gw sv'))"
    by force
  then show ?thesis
    using room none by (simp add: gw_list_state_def list_entries_def gw_set_state_def sync_set_def
        gw_create_room_def create_room_def hm_contains_key_def Let_def)
qed

text \<open>A room that is listed and has no set of members; no operation gives it one.\<close>
definition half_made :: "string \<Rightarrow> room_info \<Rightarrow> room_manager \<Rightarrow> bool" where
  "half_made rid info m \<longleftrightarrow> hm_get (rm_rooms m) rid = Some info \<and> hm_get (rm_members m) rid = None"

lemma half_made_step:
  assumes "room_step m m'" "half_made rid info m"
  shows "half_made rid info m'"
  using assms
  by (induction rule: room_step.induct)
    (auto simp: half_made_def create_room_def hm_contains_key_def join_room_def leave_room_def Let_def
      split: option.splits if_splits)

lemma half_made_turn:
  assumes "half_made rid info (nd_rooms (gw_node (sv_gw sv)))"
  shows "half_made rid info (nd_rooms (gw_node (sv_gw (take_turn lib js turn sv))))"
proof (cases turn)
  case (Steps i)
  obtain d st where t: "sv_tasks sv ! i = (d, st)" by (cases "sv_tasks sv ! i")
  from next_section_room_step [of "sv_gw sv" lib js d st] Steps assms half_made_step show ?thesis
    by (auto simp: step_task_simps [OF t])
next
  case (LeavesLocked i)
  have "rm_members (nd_rooms (gw_node (sv_gw (leave_locked i sv)))) = rm_members (nd_rooms (gw_node (sv_gw sv)))"
    by (auto simp: leave_locked_def abandon_task_def create_begin_def Let_def
        split: prod.split stage.split request.split)
  with LeavesLocked assms leave_locked_node(1) [of sv rid info i] show ?thesis
    by (auto simp: half_made_def)
qed (use assms in \<open>auto simp: arrive_def abandon_task_def\<close>)

lemma half_made_turns:
  "half_made rid info (nd_rooms (gw_node (sv_gw sv))) \<Longrightarrow>
     half_made rid info (nd_rooms (gw_node (sv_gw (fst (run_turns lib js turns (sv, l))))))"
  by (induction turns arbitrary: sv l) (simp_all add: half_made_turn)

text \<open>
  C9: A creation that is left between the locks of the room manager leaves a room nobody can enter, and nothing
  repairs it. Let any history run from what \<open>main\<close> starts with, and let a request for a new room then
  be abandoned where the room manager has written the room and waits for the members. From then on,
  whatever the requests do, the room is listed with the data of the request; to join it and to leave
  it is answered 400, to ask for its members 404, all for the reason that there is no such room, and
  to create it 409, for the reason that there is one.
\<close>
theorem half_made_room_unusable:
  assumes "gateway_main lib parses binds env rand = Serving gw"
    and "run_turns lib js before (fresh_service gw, []) = (sv, l)" and "length before < 2 ^ 64 - 1"
    and "get_room (nd_rooms (gw_node (sv_gw sv))) (crr_room_id body) = None"
    and "run_turns lib js ([Arrives d (RqCreateRoom body), LeavesLocked (length (sv_tasks sv))] @ after)
           (sv, l) = (sv', l')"
  shows "(\<exists>info \<in> set (gw_list_rooms (sv_gw sv')). ri_room_id info = crr_room_id body
            \<and> ri_name info = crr_name body \<and> ri_max_members info = crr_max_members body)
     \<and> gw_join_room (sv_gw sv') (crr_room_id body) agent =
         (sv_gw sv', [], Err (http_err BAD_REQUEST ''join_failed'' (room_error_msg RoomMissing)))
     \<and> gw_leave_room (sv_gw sv') (crr_room_id body) agent =
         (sv_gw sv', [], Err (http_err BAD_REQUEST ''leave_failed'' (room_error_msg RoomMissing)))
     \<and> gw_room_members (sv_gw sv') (crr_room_id body) =
         Err (http_err NOT_FOUND ''room_not_found'' (room_error_msg RoomMissing))
     \<and> (\<exists>e. gw_create_room (sv_gw sv') (body'\<lparr>crr_room_id := crr_room_id body\<rparr>) now =
              (sv_gw sv', Err e) \<and> fst e = CONFLICT)"
proof -
  let ?rid = "crr_room_id body" and ?mesh = "unwrap_or (env ''MESH_ID'') ''mesh:default''"
  let ?info = "\<lparr>ri_room_id = ?rid, ri_mesh_id = rm_mesh_id (nd_rooms (gw_node (sv_gw sv))), ri_name = crr_name body,
    ri_created_at = dr_clk d 0, ri_max_members = crr_max_members body\<rparr>"
  have "service_ok lib ?mesh sv l"
    using run_turns_ok [OF service_ok_start [OF assms(1)] _ assms(2)] assms(3) by (simp add: fresh_service_def)
  from service_okD(1) [OF this] have "rooms_part_ok ?mesh (nd_rooms (gw_node (sv_gw sv)))"
    by (simp add: parts_ok_def Let_def rooms_history_ok)
  with assms(4) have "hm_get (rm_members (nd_rooms (gw_node (sv_gw sv)))) ?rid = None"
    unfolding rooms_part_ok_def get_room_def by blast
  with assms(4) have "half_made ?rid ?info (nd_rooms (gw_node (sv_gw
      (take_turn lib js (LeavesLocked (length (sv_tasks sv))) (arrive d (RqCreateRoom body) sv)))))"
    by (simp add: half_made_def arrive_def leave_locked_def create_begin_def get_room_def hm_contains_key_def
        abandon_task_def Let_def)
  from half_made_turns [OF this, of lib js after l] have half: "half_made ?rid ?info (nd_rooms (gw_node (sv_gw sv')))"
    using assms(5) by simp
  then have "?info \<in> set (gw_list_rooms (sv_gw sv'))"
    by (auto simp: half_made_def gw_list_rooms_def list_rooms_def)
  then have "\<exists>info \<in> set (gw_list_rooms (sv_gw sv')). ri_room_id info = ?rid
      \<and> ri_name info = crr_name body \<and> ri_max_members info = crr_max_members body"
    by (rule bexI [rotated]) simp
  with half show ?thesis
    by (simp add: half_made_def gw_join_room_def join_room_def gw_leave_room_def leave_room_def
        gw_room_members_def room_members_def gw_create_room_def create_room_def hm_contains_key_def Let_def)
qed

section \<open>Witnesses\<close>

definition demo_draws :: draws where
  "demo_draws = \<lparr>dr_chan = 1, dr_uuid = ''u'', dr_clk = (\<lambda>_. 0), dr_rand = demo_random\<rparr>"

definition demo_room_request :: create_room_request where
  "demo_room_request = \<lparr>crr_room_id = ''room:r'', crr_name = ''R'', crr_max_members = None\<rparr>"

lemma demo_serving:
  "\<exists>gw :: (bytes, demo_json) app_state. nd_mesh_id (gw_node gw) = ''mesh:b'' \<and> gateway_main plain_crypto
     (\<lambda>_. True) (\<lambda>_. True) (\<lambda>k. if k = ''MESH_ID'' then Some ''mesh:b'' else None) (Some [7]) = Serving gw"
proof -
  have "identity_generate plain_crypto (Some [7]) = Ok (demo_identity 7)"
    by (simp add: identity_generate_def identity_from_der_def plain_crypto_def demo_identity_def)
  from node_new_starts [OF this] obtain n :: "(bytes, demo_json) mesh_node" where
    "node_new plain_crypto ''node:gateway-0'' ''mesh:b'' (Some [7]) = Some (Ok n)" "nd_mesh_id n = ''mesh:b''"
    by blast
  then show ?thesis
    by (auto simp: gateway_main_def main_config_def gateway_start_def)
qed

lemma gateway_main_rooms:
  assumes "gateway_main lib parses binds env rand = Serving gw"
  shows "nd_rooms (gw_node gw) = room_manager_new (unwrap_or (env ''MESH_ID'') ''mesh:default'')"
  using assms
  by (auto simp: gateway_main_def main_config_def node_new_def node_with_identity_def gateway_start_def
      split: if_splits option.splits sum.splits)

text \<open>The client that creates a room leaves when the room is written, while an account is looked up.\<close>
theorem concurrent_gateway_sound_witness:
  "\<exists>(gw :: (bytes, demo_json) app_state) sv l. run_turns plain_crypto demo_js
       [Arrives demo_draws (RqCreateRoom demo_room_request),
        Arrives demo_draws (RqGetUserByUsername ''alice''), Steps 1, LeavesLocked 0] (fresh_service gw, []) = (sv, l)
     \<and> get_room (nd_rooms (gw_node (sv_gw sv))) ''room:r'' \<noteq> None
     \<and> (\<exists>body. crr_room_id body = ''room:r'' \<and> Abandoned (Begun (RqCreateRoom body)) \<in> set (stages sv))
     \<and> Replied Crashed \<notin> set (stages sv)"
proof -
  let ?turns = "[Arrives demo_draws (RqCreateRoom demo_room_request),
        Arrives demo_draws (RqGetUserByUsername ''alice''), Steps 1, LeavesLocked 0]"
  obtain gw :: "(bytes, demo_json) app_state" where
    start: "gateway_main plain_crypto (\<lambda>_. True) (\<lambda>_. True)
      (\<lambda>k. if k = ''MESH_ID'' then Some ''mesh:b'' else None) (Some [7]) = Serving gw"
    using demo_serving by blast
  obtain sv l where run: "run_turns plain_crypto demo_js ?turns (fresh_service gw, []) = (sv, l)"
    by (metis surj_pair)
  have "hm_get (rm_rooms (nd_rooms (gw_node (sv_gw (fst (run_turns plain_crypto demo_js ?turns (fresh_service gw, []))))))) ''room:r'' \<noteq> None
    \<and> hm_get (rm_members (nd_rooms (gw_node (sv_gw (fst (run_turns plain_crypto demo_js ?turns (fresh_service gw, []))))))) ''room:r'' = None"
    using gateway_main_rooms [OF start]
    by (simp add: fresh_service_def arrive_def step_task_def leave_locked_def abandon_task_def create_begin_def
        room_manager_new_def demo_room_request_def demo_draws_def hm_contains_key_def case_prod_beta Let_def)
  then have "hm_get (rm_rooms (nd_rooms (gw_node (sv_gw sv)))) ''room:r'' \<noteq> None
    \<and> hm_get (rm_members (nd_rooms (gw_node (sv_gw sv)))) ''room:r'' = None"
    unfolding run fst_conv .
  then have "hm_get (rm_rooms (nd_rooms (gw_node (sv_gw sv)))) ''room:r'' \<noteq> None"
    "\<not> is_ok (room_members (nd_rooms (gw_node (sv_gw sv))) ''room:r'')"
    by (simp_all add: room_members_def)
  with concurrent_gateway_sound [OF start run, of undefined undefined "''room:r''"] run show ?thesis
    by (intro exI [of _ gw] exI [of _ sv] exI [of _ l]) (simp add: get_room_def)
qed

text \<open>An envelope for members of the mesh only has been admitted, and another request arrives.\<close>
theorem checks_stay_valid_witness:
  "\<exists>(gw :: (bytes, demo_json) app_state) sv l. run_turns plain_crypto demo_js
       [Arrives demo_draws (RqEnvelope (demo_envelope ''agent:a'' MeshOnly None None)), Steps 0,
        Arrives demo_draws RqListPeers, Steps 1] (fresh_service gw, []) = (sv, l)
     \<and> stages sv = [Admitted (demo_envelope ''agent:a'' MeshOnly None None), Replied Done]
     \<and> enforce_policy (sv_gw sv) (demo_envelope ''agent:a'' MeshOnly None None) = Ok ()"
proof -
  let ?env = "demo_envelope ''agent:a'' MeshOnly None None"
  let ?turns = "[Arrives demo_draws (RqEnvelope ?env), Steps 0, Arrives demo_draws RqListPeers, Steps 1]"
  obtain gw :: "(bytes, demo_json) app_state" where mesh: "nd_mesh_id (gw_node gw) = ''mesh:b''" and
    start: "gateway_main plain_crypto (\<lambda>_. True) (\<lambda>_. True)
      (\<lambda>k. if k = ''MESH_ID'' then Some ''mesh:b'' else None) (Some [7]) = Serving gw"
    using demo_serving by blast
  obtain sv l where run: "run_turns plain_crypto demo_js ?turns (fresh_service gw, []) = (sv, l)"
    by (metis surj_pair)
  have "stages (fst (run_turns plain_crypto demo_js ?turns (fresh_service gw, []))) = [Admitted ?env, Replied Done]"
    using mesh
    by (simp add: fresh_service_def arrive_def step_task_def stages_def demo_envelope_def check_version_def
        check_expiry_def enforce_policy_def PROTOCOL_VERSION_def)
  then have st: "stages sv = [Admitted ?env, Replied Done]"
    by (simp only: run fst_conv)
  have "enforce_policy (sv_gw sv) ?env = Ok ()"
    using checks_stay_valid [OF start run, of ?env] st by simp
  with run st show ?thesis by blast
qed

text \<open>The client that creates a room leaves, and another one tries to use the room.\<close>
theorem abandoned_room_unusable_witness:
  "\<exists>(sv' :: (bytes, demo_json) service) l'.
     run_turns plain_crypto demo_js [Arrives demo_draws (RqCreateRoom demo_room_request), Steps 0, Leaves 0,
       Arrives demo_draws (RqJoinRoom ''room:r'' ''agent:alice''), Steps 1] (fresh_service demo_gw, []) = (sv', l')
     \<and> ''room:r'' \<in> ri_room_id ` set (gw_list_rooms (sv_gw sv'))
     \<and> (\<exists>e. gw_list_state (sv_gw sv') ''room:r'' = Err e \<and> fst e = NOT_FOUND)"
proof -
  let ?turns = "[Arrives demo_draws (RqJoinRoom ''room:r'' ''agent:alice''), Steps 1]"
  have rid: "crr_room_id demo_room_request = ''room:r''"
    by (simp add: demo_room_request_def)
  obtain sv' :: "(bytes, demo_json) service" and l' where
    run: "run_turns plain_crypto demo_js ([Arrives demo_draws (RqCreateRoom demo_room_request),
      Steps (length (sv_tasks (fresh_service demo_gw))), Leaves (length (sv_tasks (fresh_service demo_gw)))] @ ?turns)
      (fresh_service demo_gw, []) = (sv', l')"
    by (metis surj_pair)
  have "get_room (nd_rooms (gw_node (sv_gw (fresh_service demo_gw)))) (crr_room_id demo_room_request) = None"
    "hm_get (sync_rooms (nd_state (gw_node (sv_gw (fresh_service demo_gw))))) (crr_room_id demo_room_request) = None"
    by (simp_all add: fresh_service_def demo_gw_federation room_manager_new_def get_room_def sync_new_def)
  moreover have "list_all (\<lambda>st. \<not> makes_state (crr_room_id demo_room_request) st) (stages (fresh_service demo_gw))"
    "list_all (\<lambda>turn. \<not> restores (crr_room_id demo_room_request) turn) ?turns"
    by (simp_all add: fresh_service_def)
  moreover have "length (sv_tasks (fresh_service demo_gw)) = 0"
    by (simp add: fresh_service_def)
  ultimately show ?thesis
    using abandoned_room_unusable [OF _ _ _ _ run] run unfolding rid
    by (intro exI [of _ sv'] exI [of _ l'] conjI) simp_all
qed

text \<open>The client that creates a room leaves when the room is written, and another one tries to join.\<close>
theorem half_made_room_unusable_witness:
  "\<exists>(gw :: (bytes, demo_json) app_state) sv' l'. run_turns plain_crypto demo_js
       [Arrives demo_draws (RqCreateRoom demo_room_request), LeavesLocked 0,
        Arrives demo_draws (RqJoinRoom ''room:r'' ''agent:alice''), Steps 1] (fresh_service gw, []) = (sv', l')
     \<and> ''room:r'' \<in> ri_room_id ` set (gw_list_rooms (sv_gw sv'))
     \<and> gw_join_room (sv_gw sv') ''room:r'' ''agent:alice'' =
         (sv_gw sv', [], Err (http_err BAD_REQUEST ''join_failed'' (room_error_msg RoomMissing)))"
proof -
  let ?after = "[Arrives demo_draws (RqJoinRoom ''room:r'' ''agent:alice''), Steps 1]"
  have rid: "crr_room_id demo_room_request = ''room:r''"
    by (simp add: demo_room_request_def)
  obtain gw :: "(bytes, demo_json) app_state" where
    start: "gateway_main plain_crypto (\<lambda>_. True) (\<lambda>_. True)
      (\<lambda>k. if k = ''MESH_ID'' then Some ''mesh:b'' else None) (Some [7]) = Serving gw"
    using demo_serving by blast
  have new: "get_room (nd_rooms (gw_node (sv_gw (fresh_service gw)))) (crr_room_id demo_room_request) = None"
    using gateway_main_rooms [OF start] by (simp add: fresh_service_def get_room_def room_manager_new_def)
  have len: "length (sv_tasks (fresh_service gw)) = 0"
    by (simp add: fresh_service_def)
  obtain sv' l' where run: "run_turns plain_crypto demo_js ([Arrives demo_draws (RqCreateRoom demo_room_request),
      LeavesLocked (length (sv_tasks (fresh_service gw)))] @ ?after) (fresh_service gw, []) = (sv', l')"
    by (metis surj_pair)
  have start_run: "run_turns plain_crypto demo_js [] (fresh_service gw, []) = (fresh_service gw, [])"
    and few: "length ([] :: demo_json turn list) < 2 ^ 64 - 1"
    by simp_all
  note half = half_made_room_unusable [OF start start_run few new run, of "''agent:alice''", unfolded rid]
  from half have "''room:r'' \<in> ri_room_id ` set (gw_list_rooms (sv_gw sv'))"
    by (metis image_eqI)
  with half run show ?thesis
    unfolding len append_Cons append_Nil by blast
qed

end
