(* ===== verification/Gateway_Process.thy ===== *)
theory Gateway_Process
  imports Gateway_Concurrency
begin

text \<open>
  The process around the router: \<open>init_tracing\<close>, \<open>shutdown_signal\<close> and the end of \<open>main\<close>. The
  environment, the OTLP exporter and the outcome of \<open>ctrl_c\<close> are arguments. What \<open>axum\<close> does between
  the signal and the end of \<open>serve\<close> (no new requests, the begun ones go on) is a history of
  turns, as in \<open>Gateway_Concurrency\<close>.
\<close>

section \<open>Tracing\<close>

text \<open>What the subscriber is set up with, and what is printed on the way.\<close>
record 'p tracing =
  tr_filter :: string
  tr_exporter :: "'p option"
  tr_stderr :: "string list"
  tr_info :: string

text \<open>
  \<open>rust_log\<close> is the filter of the environment, if it is set and parses; \<open>install\<close> makes the OTLP
  pipeline for an endpoint and a service name.
\<close>
definition init_tracing ::
    "(string \<Rightarrow> string option) \<Rightarrow> string option \<Rightarrow> (string \<Rightarrow> string \<Rightarrow> (string, 'p) result) \<Rightarrow> string
      \<Rightarrow> 'p tracing" where
  "init_tracing env rust_log install service_name =
     (let env_filter = unwrap_or rust_log ''gateway=info,tower_http=info'';
          stdout_only = (\<lambda>err. \<lparr>tr_filter = env_filter, tr_exporter = None, tr_stderr = err,
                            tr_info = ''tracing initialized (stdout only)''\<rparr>)
      in case env ''OTEL_EXPORTER_OTLP_ENDPOINT'' of
           None \<Rightarrow> stdout_only []
         | Some endpoint \<Rightarrow>
             (case install endpoint service_name of
                Inr provider \<Rightarrow>
                  \<lparr>tr_filter = env_filter, tr_exporter = Some provider, tr_stderr = [],
                   tr_info = ''tracing initialized with OpenTelemetry OTLP exporter''\<rparr>
              | Inl error \<Rightarrow> stdout_only [''failed to initialize OTLP exporter: '' @ error]))"

section \<open>The end of the process\<close>

text \<open>
  \<open>ctrl_c\<close>: \<open>None\<close> while neither the signal has come nor the handler failed to be installed, then
  whether it was the signal. The result is what is logged when the future is ready.
\<close>
definition shutdown_signal :: "bool option \<Rightarrow> string list option" where
  "shutdown_signal ctrl_c =
     map_option (\<lambda>ok. if ok then [''shutdown signal received''] else []) ctrl_c"

datatype exit = ExitOk | ExitError | ExitPanic

text \<open>\<open>serve\<close> ends when the future of the signal is ready and no request is under way.\<close>
definition drained :: "('kp, 'j) service \<Rightarrow> bool" where
  "drained sv \<longleftrightarrow> list_all (\<lambda>st. sections_left st = 0) (stages sv)"

text \<open>
  How \<open>main\<close> ends, and whether the tracer provider was shut down (which flushes the spans);
  \<open>None\<close> while it runs. \<open>served\<close> is the result of \<open>serve\<close>.
\<close>
definition main_end ::
    "('kp, 'j) main_outcome \<Rightarrow> bool option \<Rightarrow> (string, unit) result \<Rightarrow> ('kp, 'j) service
      \<Rightarrow> (exit \<times> bool) option" where
  "main_end outcome ctrl_c served sv =
     (case outcome of
        MainError \<Rightarrow> Some (ExitError, False)
      | MainPanic \<Rightarrow> Some (ExitPanic, False)
      | Serving gw \<Rightarrow>
          (case shutdown_signal ctrl_c of
             None \<Rightarrow> None
           | Some _ \<Rightarrow>
               if drained sv
               then (case served of Inl _ \<Rightarrow> Some (ExitError, False) | Inr _ \<Rightarrow> Some (ExitOk, True))
               else None))"

section \<open>Requests under way are answered\<close>

fun is_arrival :: "'j turn \<Rightarrow> bool" where
  "is_arrival (Arrives _ _) = True"
| "is_arrival _ = False"

fun is_abandoned :: "'j stage \<Rightarrow> bool" where
  "is_abandoned (Abandoned _) = True"
| "is_abandoned _ = False"

lemma next_section_stays:
  "is_abandoned (snd (snd (next_section lib js d gw st))) \<longleftrightarrow> is_abandoned st"
proof -
  have dispatch: "\<not> is_abandoned (snd (snd (dispatch_section js d gw env)))" for env
    by (cases "en_intent env") (simp_all add: dispatch_section_def case_prod_beta Let_def)
  have "\<not> is_abandoned (snd (snd (begin_section lib js d gw req)))" for req
    using dispatch
    by (cases "whole req"; cases req) (auto simp: begin_whole case_prod_beta Let_def split: sum.splits option.splits)
  with dispatch show ?thesis
    by (cases st) (auto simp: case_prod_beta Let_def split: sum.splits)
qed

lemma take_turn_stage:
  assumes "i < length (stages sv)"
  shows "i < length (stages (take_turn lib js turn sv))"
    and "sections_left (stages (take_turn lib js turn sv) ! i)
      \<le> sections_left (stages sv ! i) - (if turn = Steps i then 1 else 0)"
    and "turn \<noteq> Leaves i \<Longrightarrow> turn \<noteq> LeavesLocked i \<Longrightarrow>
      is_abandoned (stages (take_turn lib js turn sv) ! i) \<longleftrightarrow> is_abandoned (stages sv ! i)"
proof -
  have "i < length (stages (take_turn lib js turn sv))
    \<and> sections_left (stages (take_turn lib js turn sv) ! i)
      \<le> sections_left (stages sv ! i) - (if turn = Steps i then 1 else 0)
    \<and> (turn \<noteq> Leaves i \<and> turn \<noteq> LeavesLocked i \<longrightarrow>
      (is_abandoned (stages (take_turn lib js turn sv) ! i) \<longleftrightarrow> is_abandoned (stages sv ! i)))"
  proof (cases turn)
    case (Arrives d req)
    with assms show ?thesis by (simp add: nth_append)
  next
    case (Leaves j)
    with assms show ?thesis by (cases "i = j") auto
  next
    case (LeavesLocked j)
    then show ?thesis
      using assms leave_locked_stages [of j sv]
      by (cases "i = j") (auto simp: length_stages leave_locked_tasks)
  next
    case (Steps j)
    show ?thesis
    proof (cases "j < length (sv_tasks sv)")
      case True
      obtain d st where t: "sv_tasks sv ! j = (d, st)" by (cases "sv_tasks sv ! j")
      note at = stage_at [OF True t]
      have "sections_left (snd (snd (next_section lib js d (sv_gw sv) st))) \<le> sections_left st - 1"
        using next_section_progress [of st lib js d "sv_gw sv"] by (cases st) auto
      with Steps assms at True show ?thesis
        by (auto simp: step_task_simps [OF t] nth_list_update next_section_stays)
    next
      case False
      with Steps assms show ?thesis by (auto simp: length_stages)
    qed
  qed
  then show "i < length (stages (take_turn lib js turn sv))"
    and "sections_left (stages (take_turn lib js turn sv) ! i)
      \<le> sections_left (stages sv ! i) - (if turn = Steps i then 1 else 0)"
    and "turn \<noteq> Leaves i \<Longrightarrow> turn \<noteq> LeavesLocked i \<Longrightarrow>
      is_abandoned (stages (take_turn lib js turn sv) ! i) \<longleftrightarrow> is_abandoned (stages sv ! i)"
    by blast+
qed

lemma run_turns_stage:
  assumes "run_turns lib js turns (sv, l) = (sv', l')" "i < length (stages sv)"
  shows "i < length (stages sv')
    \<and> sections_left (stages sv' ! i) \<le> sections_left (stages sv ! i) - count_list turns (Steps i)
    \<and> (Leaves i \<notin> set turns \<and> LeavesLocked i \<notin> set turns \<longrightarrow>
      (is_abandoned (stages sv' ! i) \<longleftrightarrow> is_abandoned (stages sv ! i)))"
  using assms
proof (induction turns arbitrary: sv l)
  case Nil
  then show ?case by simp
next
  case (Cons turn turns)
  note one = take_turn_stage [OF Cons.prems(2), where lib = lib and js = js and turn = turn]
  have "run_turns lib js turns (take_turn lib js turn sv, l @ turn_log lib turn sv) = (sv', l')"
    using Cons.prems(1) by simp
  from Cons.IH [OF this one(1)] one(2,3) show ?case
    by (auto split: if_splits)
qed

lemma no_arrivals:
  assumes "run_turns lib js turns (sv, l) = (sv', l')" "list_all (\<lambda>t. \<not> is_arrival t) turns"
  shows "length (stages sv') = length (stages sv)"
  using assms
proof (induction turns arbitrary: sv l)
  case (Cons turn turns)
  have "length (stages (take_turn lib js turn sv)) = length (stages sv)"
    using Cons.prems(2)
    by (cases turn)
      (simp_all add: length_stages step_task_def abandon_task_def leave_locked_tasks case_prod_beta Let_def)
  with Cons.IH [of "take_turn lib js turn sv" "l @ turn_log lib turn sv"] Cons.prems show ?case by simp
qed simp

lemma run_turns_append:
  "run_turns lib js (ts @ us) (sv, l) = run_turns lib js us (run_turns lib js ts (sv, l))"
  by (induction ts arbitrary: sv l) simp_all

section \<open>Property\<close>

text \<open>
  C16: The gateway shuts down in an orderly way. Let any history run from what \<open>main\<close> starts with, and then
  let the shutdown be asked for: no request arrives any more, and each one under way gets five more
  turns, in any interleaving. Then every request has been answered without a panic, or its client
  had left; those of clients that stayed are answered; and \<open>main\<close> returns \<open>Ok\<close> with the
  tracer provider shut down. Before that it has not returned.
\<close>
theorem gateway_shuts_down:
  assumes "gateway_main lib parses binds env rand = Serving gw"
    and "run_turns lib js before (fresh_service gw, []) = (sv, l)"
    and "run_turns lib js after (sv, l) = (sv', l')"
    and "list_all (\<lambda>t. \<not> is_arrival t) after"
    and "\<forall>i < length (stages sv). 5 \<le> count_list after (Steps i)"
    and "length before + length after < 2 ^ 64 - 1"
  shows "main_end (gateway_main lib parses binds env rand) (Some c) (Ok ()) sv' = Some (ExitOk, True)
     \<and> main_end (gateway_main lib parses binds env rand) None (Ok ()) sv = None
     \<and> (\<forall>st \<in> set (stages sv'). is_abandoned st \<or> (\<exists>r. st = Replied r \<and> r \<noteq> Crashed))
     \<and> (\<forall>i < length (stages sv). \<not> is_abandoned (stages sv ! i) \<and> Leaves i \<notin> set after
          \<and> LeavesLocked i \<notin> set after \<longrightarrow>
          (\<exists>r. stages sv' ! i = Replied r \<and> r \<noteq> Crashed))"
proof -
  have len: "length (stages sv') = length (stages sv)"
    by (rule no_arrivals [OF assms(3,4)])
  have "sections_left (stages sv ! i) \<le> 5" for i
    by (cases "stages sv ! i") simp_all
  with run_turns_stage [OF assms(3)] assms(5) have ended: "sections_left (stages sv' ! i) = 0"
    if "i < length (stages sv)" for i
    using that by (metis diff_is_0_eq le_trans le_zero_eq)
  have "service_ok lib (unwrap_or (env ''MESH_ID'') ''mesh:default'') sv' l'"
    using run_turns_ok [OF service_ok_start [OF assms(1)], of "before @ after" js sv' l'] assms(2,3,6)
    by (simp add: fresh_service_def run_turns_append)
  from service_okD(3) [OF this] have fine: "Replied Crashed \<notin> set (stages sv')"
    by force
  have final: "is_abandoned st \<or> (\<exists>r. st = Replied r \<and> r \<noteq> Crashed)"
    if "st \<in> set (stages sv')" "sections_left st = 0" for st
    by (cases st) (use that fine in auto)
  have drained: "drained sv'"
    using ended len by (simp add: drained_def list_all_length)
  moreover have "is_abandoned st \<or> (\<exists>r. st = Replied r \<and> r \<noteq> Crashed)" if "st \<in> set (stages sv')" for st
    using final [OF that] drained that by (simp add: drained_def list_all_iff)
  moreover have "\<exists>r. stages sv' ! i = Replied r \<and> r \<noteq> Crashed"
    if "i < length (stages sv)" "\<not> is_abandoned (stages sv ! i)"
      "Leaves i \<notin> set after" "LeavesLocked i \<notin> set after" for i
    using final [of "stages sv' ! i"] run_turns_stage [OF assms(3) that(1)] ended [OF that(1)] that(2-4) by auto
  ultimately show ?thesis
    using assms(1) by (simp add: main_end_def shutdown_signal_def)
qed

theorem gateway_shuts_down_witness:
  "\<exists>(gw :: (bytes, demo_json) app_state) sv' l'. run_turns plain_crypto demo_js
       ([Arrives demo_draws (RqCreateRoom demo_room_request), Steps 0, Arrives demo_draws RqListPeers]
        @ concat (replicate 5 [Steps 1, Steps 0])) (fresh_service gw, []) = (sv', l')
     \<and> main_end (Serving gw) (Some True) (Ok ()) sv' = Some (ExitOk, True)"
proof -
  let ?before = "[Arrives demo_draws (RqCreateRoom demo_room_request), Steps 0, Arrives demo_draws RqListPeers]"
  let ?after = "concat (replicate 5 [Steps 1, Steps 0])"
  obtain gw :: "(bytes, demo_json) app_state" where
    start: "gateway_main plain_crypto (\<lambda>_. True) (\<lambda>_. True)
      (\<lambda>k. if k = ''MESH_ID'' then Some ''mesh:b'' else None) (Some [7]) = Serving gw"
    using demo_serving by blast
  obtain sv l where run: "run_turns plain_crypto demo_js ?before (fresh_service gw, []) = (sv, l)"
    by (metis surj_pair)
  obtain sv' l' where run': "run_turns plain_crypto demo_js ?after (sv, l) = (sv', l')"
    by (metis surj_pair)
  have "length (stages (fst (run_turns plain_crypto demo_js ?before (fresh_service gw, [])))) = 2"
    by (simp add: fresh_service_def arrive_def step_task_def stages_def case_prod_beta Let_def)
  then have len: "length (stages sv) = 2"
    by (simp only: run fst_conv)
  have arr: "list_all (\<lambda>t. \<not> is_arrival t) ?after"
    by (simp add: numeral_eq_Suc)
  have count: "\<forall>i < length (stages sv). 5 \<le> count_list ?after (Steps i)"
    by (simp add: len numeral_eq_Suc less_Suc_eq)
  have few: "length ?before + length ?after < 2 ^ 64 - 1"
    by (simp add: length_concat sum_list_replicate)
  have "main_end (Serving gw) (Some True) (Ok ()) sv' = Some (ExitOk, True)"
    using gateway_shuts_down [OF start run run' arr count few, THEN conjunct1] unfolding start .
  with run run' show ?thesis
    by (intro exI [of _ gw] exI [of _ sv'] exI [of _ l'] conjI) (simp_all only: run_turns_append)
qed

end
