(* ===== verification/Gateway_Signatures.thy ===== *)
theory Gateway_Signatures
  imports Gateway_Props
begin

text \<open>
  What a signature stands for, across the handshake and the envelopes. Both are made with one key and
  over bare bytes: the nonce of a challenge, the payload of an envelope. Nothing in the signed bytes says
  which of the two they are, nor to whom or for what they are signed.
\<close>

text \<open>
  C32: Whoever may pose a challenge can have envelopes signed. A challenge whose nonce is the serialized
  payload of an envelope is answered by any agent without question, and the signature of the answer
  is a valid signature of that envelope, and of every other one of the agent with this payload, whatever
  its intent, capability, policy and expiry: a gateway that knows the agent's key accepts it if it passes the
  other checks, although the agent has signed no envelope.
\<close>
theorem challenge_signature_forges_envelope:
  assumes "crypto_ok lib"
    and "get_authenticated (nd_auth (gw_node gw)) (sd_agent_id (en_sender env)) =
      Some \<lparr>ap_agent_id = ap, ap_public_key = identity_public_key lib (pa_identity victim)\<rparr>"
    and "j_to_vec js (en_payload env) = Some bytes"
    and "challenge = \<lparr>ac_agent_id = m, ac_public_key = pk, ac_nonce = b64_encode lib bytes\<rparr>"
  shows "\<exists>response. sign_challenge lib victim challenge = Some response
     \<and> (\<forall>env'. sd_agent_id (en_sender env') = sd_agent_id (en_sender env) \<and> en_payload env' = en_payload env
            \<and> en_signature env' = Some (sig_sig (ar_signature response))
            \<and> check_version env' = Ok () \<and> check_expiry js env' (clk 0) = Ok () \<and> enforce_policy gw env' = Ok ()
          \<longrightarrow> route_envelope lib js gw env' c uuid clk =
                (let (gw', evs, r) = dispatch_intent js gw env' c uuid clk in (gw', evs, Ok (ACCEPTED, r))))"
proof -
  let ?sg = "identity_sign lib (pa_identity victim) bytes"
  have "sign_challenge lib victim challenge = Some \<lparr>ar_agent_id = pa_agent_id victim, ar_signature = ?sg\<rparr>"
    by (simp add: sign_challenge_def assms(4) b64_roundtrip [OF assms(1)])
  moreover have "check_signature lib js gw env' = Ok ()"
    if "sd_agent_id (en_sender env') = sd_agent_id (en_sender env)" "en_payload env' = en_payload env"
      "en_signature env' = Some (sig_sig ?sg)" for env'
    using that assms(2,3) verify_own_signature [OF assms(1), of "pa_identity victim" bytes]
    by (simp add: check_signature_def identity_sign_def)
  ultimately show ?thesis
    by (auto simp: route_envelope_def split: sum.splits)
qed

text \<open>Alice is known to the gateway; a challenge made of a payload's bytes has her sign an announcement.\<close>
theorem challenge_signature_forges_envelope_witness:
  "\<exists>gw response gw' evs r. sign_challenge plain_crypto (demo_auth ''agent:alice'' 1)
       \<lparr>ac_agent_id = ''agent:eve'', ac_public_key = identity_public_key plain_crypto (demo_identity 66),
        ac_nonce = b64_encode plain_crypto [1, 2, 3]\<rparr> = Some response
     \<and> route_envelope plain_crypto demo_js gw
         (demo_envelope ''agent:alice'' Public None (Some (sig_sig (ar_signature response)))) 1 ''u'' (\<lambda>_. 10)
       = (gw', evs, Ok (ACCEPTED, r))"
proof -
  define alice where "alice = demo_auth ''agent:alice'' 1"
  define gw where "gw = on_node (nd_auth_update (\<lambda>_. fst (handle_response plain_crypto demo_challenged
     \<lparr>ar_agent_id = ''agent:alice'', ar_signature = identity_sign plain_crypto (demo_identity 1) demo_nonce\<rparr>
     (identity_public_key plain_crypto (demo_identity 1))))) demo_gw"
  let ?env = "demo_envelope ''agent:alice'' Public None"
  have "get_authenticated (nd_auth (gw_node gw)) ''agent:alice'' = Some
      \<lparr>ap_agent_id = ''agent:alice'', ap_public_key = identity_public_key plain_crypto (demo_identity 1)\<rparr>"
    unfolding gw_def by code_simp
  then have known: "get_authenticated (nd_auth (gw_node gw)) (sd_agent_id (en_sender (?env None))) = Some
      \<lparr>ap_agent_id = ''agent:alice'', ap_public_key = identity_public_key plain_crypto (pa_identity alice)\<rparr>"
    by (simp add: demo_envelope_def alice_def demo_auth_def authenticator_new_def)
  have payload: "j_to_vec demo_js (en_payload (?env None)) = Some [1, 2, 3]"
    by (simp add: demo_js_def)
  obtain response where response: "sign_challenge plain_crypto alice
       \<lparr>ac_agent_id = ''agent:eve'', ac_public_key = identity_public_key plain_crypto (demo_identity 66),
        ac_nonce = b64_encode plain_crypto [1, 2, 3]\<rparr> = Some response"
    and accepted: "\<forall>env'. sd_agent_id (en_sender env') = sd_agent_id (en_sender (?env None))
            \<and> en_payload env' = en_payload (?env None) \<and> en_signature env' = Some (sig_sig (ar_signature response))
            \<and> check_version env' = Ok () \<and> check_expiry demo_js env' 10 = Ok () \<and> enforce_policy gw env' = Ok ()
          \<longrightarrow> route_envelope plain_crypto demo_js gw env' 1 ''u'' (\<lambda>_. 10) =
                (let (gw', evs, r) = dispatch_intent demo_js gw env' 1 ''u'' (\<lambda>_. 10) in (gw', evs, Ok (ACCEPTED, r)))"
    using challenge_signature_forges_envelope [OF plain_crypto_ok known payload refl, where clk = "\<lambda>_. 10"] by blast
  let ?forged = "?env (Some (sig_sig (ar_signature response)))"
  obtain gw' evs r where d: "dispatch_intent demo_js gw ?forged 1 ''u'' (\<lambda>_. 10) = (gw', evs, r)"
    by (metis prod_cases3)
  have "check_version ?forged = Ok () \<and> check_expiry demo_js ?forged 10 = Ok () \<and> enforce_policy gw ?forged = Ok ()"
    by (simp add: demo_envelope_def check_version_def check_expiry_def enforce_policy_def PROTOCOL_VERSION_def)
  with accepted d have "route_envelope plain_crypto demo_js gw ?forged 1 ''u'' (\<lambda>_. 10) = (gw', evs, Ok (ACCEPTED, r))"
    by (simp add: demo_envelope_def)
  with response show ?thesis
    unfolding alice_def by blast
qed

end
