(* ===== verification/Test_Script.thy ===== *)
theory Test_Script
  imports Prelude
begin

text \<open>
  How a unit test of the repository is written down. A test is a boolean function: its
  statements are a chain of \<open>let\<close>s that thread the state of the component, its assertions the
  conjunction at the end, and an \<open>unwrap()\<close> or \<open>expect(..)\<close> that would panic makes it false. What
  the test takes from outside (the JSON values it stores, each reading of the wall clock, the key
  material) is an argument of the function, so that the lemma \<open><test>_passes\<close> shows the test
  passes on the model whatever these are; where a test needs two readings of the clock to be in
  order, its lemma says so.
\<close>

definition unwrap :: "('e, 'a) result \<Rightarrow> ('a \<Rightarrow> bool) \<Rightarrow> bool" where
  "unwrap r rest = (case r of Inl e \<Rightarrow> False | Inr x \<Rightarrow> rest x)"

definition unwrap_some :: "'a option \<Rightarrow> ('a \<Rightarrow> bool) \<Rightarrow> bool" where
  "unwrap_some m rest = (case m of None \<Rightarrow> False | Some x \<Rightarrow> rest x)"

definition is_err :: "('e, 'a) result \<Rightarrow> bool" where
  "is_err r \<longleftrightarrow> \<not> is_ok r"

lemma unwrap_simps [simp]: "unwrap (Err e) rest = False" "unwrap (Ok x) rest = rest x"
  by (simp_all add: unwrap_def)

lemma unwrap_some_simps [simp]: "unwrap_some None rest = False" "unwrap_some (Some x) rest = rest x"
  by (simp_all add: unwrap_some_def)

lemma is_err_simps [simp]: "is_err (Err e)" "\<not> is_err (Ok x)"
  by (simp_all add: is_err_def)

text \<open>\<open>str::contains\<close>.\<close>
definition str_contains :: "string \<Rightarrow> string \<Rightarrow> bool" where
  "str_contains s pat = list_ex (\<lambda>i. take (length pat) (drop i s) = pat) [0..<Suc (length s)]"

text \<open>
  The first message for the receiver \<open>rx\<close> among those an operation sent; \<open>rx.recv().await\<close>
  followed by \<open>unwrap()\<close>. The test keeps the receivers it was given, so their channels are open.
\<close>
definition recv :: "chan \<Rightarrow> (chan \<times> 'm) list \<Rightarrow> 'm option" where
  "recv rx sent = map_option snd (find (\<lambda>(c, _). c = rx) sent)"

definition held :: "chan list \<Rightarrow> chan \<Rightarrow> bool" where
  "held rxs c \<longleftrightarrow> c \<in> set rxs"

named_theorems test_eval \<open>evaluation of the operations the tests call\<close>

lemmas [test_eval] = Let_def recv_def held_def str_contains_def

end
