(* ===== verification/Room_State_Tests.thy ===== *)
theory Room_State_Tests
  imports Room_State Test_Script
begin

text \<open>
  The unit tests of \<open>p2p/src/room_state.rs\<close>, run on the model. The two tests of the serde
  round trip are in \<open>Library_Tests\<close>.
\<close>

section \<open>Vector clocks\<close>

definition test_clock_tick_and_get :: bool where
  "test_clock_tick_and_get =
     (let clock = vc_default;
          first = vc_get clock ''agent:alice'';
          (clock, second) = vc_tick clock ''agent:alice'';
          (clock, third) = vc_tick clock ''agent:alice''
      in first = 0 \<and> second = 1 \<and> third = 2 \<and> vc_get clock ''agent:alice'' = 2)"

definition test_clock_merge :: bool where
  "test_clock_merge =
     (let (a, _) = vc_tick vc_default ''agent:alice'';
          (a, _) = vc_tick a ''agent:alice'';
          (b, _) = vc_tick vc_default ''agent:bob'';
          (b, _) = vc_tick b ''agent:alice'';
          a = vc_merge a b
      in vc_get a ''agent:alice'' = 2 \<and> vc_get a ''agent:bob'' = 1)"

definition test_clock_ordering_before :: bool where
  "test_clock_ordering_before =
     (let (a, _) = vc_tick vc_default ''agent:alice'';
          (b, _) = vc_tick vc_default ''agent:alice'';
          (b, _) = vc_tick b ''agent:alice''
      in partial_cmp_clock a b = Before)"

definition test_clock_ordering_after :: bool where
  "test_clock_ordering_after =
     (let (a, _) = vc_tick vc_default ''agent:alice'';
          (a, _) = vc_tick a ''agent:alice'';
          (b, _) = vc_tick vc_default ''agent:alice''
      in partial_cmp_clock a b = After)"

definition test_clock_ordering_concurrent :: bool where
  "test_clock_ordering_concurrent =
     (let (a, _) = vc_tick vc_default ''agent:alice'';
          (b, _) = vc_tick vc_default ''agent:bob''
      in partial_cmp_clock a b = Concurrent)"

definition test_clock_ordering_equal :: bool where
  "test_clock_ordering_equal =
     (let (a, _) = vc_tick vc_default ''agent:alice'';
          (b, _) = vc_tick vc_default ''agent:alice''
      in partial_cmp_clock a b = Equal)"

definition test_clock_empty_equal :: bool where
  "test_clock_empty_equal = (partial_cmp_clock vc_default vc_default = Equal)"

lemmas clock_eval = vc_tick_def vc_default_def vc_get_def vc_merge_def partial_cmp_clock_def

lemmas [test_eval] = clock_eval hm_or_insert_def

lemma clock_tests_pass:
  test_clock_tick_and_get test_clock_merge test_clock_ordering_before test_clock_ordering_after
  test_clock_ordering_concurrent test_clock_ordering_equal test_clock_empty_equal
  by (simp_all add: test_clock_tick_and_get_def test_clock_merge_def test_clock_ordering_before_def
      test_clock_ordering_after_def test_clock_ordering_concurrent_def
      test_clock_ordering_equal_def test_clock_empty_equal_def test_eval hm_eval)

section \<open>Reading and writing\<close>

definition make_sync :: "'v room_state_sync" where
  "make_sync = sync_new ''mesh:test''"

definition test_set_and_get :: "'v \<Rightarrow> timestamp \<Rightarrow> bool" where
  "test_set_and_get v42 t =
     (let sync = init_room make_sync ''room:lobby'';
          (sync, _, r) = sync_set sync ''room:lobby'' ''agent:alice'' ''score'' v42 t
      in is_ok r
         \<and> unwrap (sync_get sync ''room:lobby'' ''score'') (\<lambda>entry.
             se_value entry = v42 \<and> se_author entry = ''agent:alice''
             \<and> vc_get (se_clock entry) ''agent:alice'' = 1))"

definition test_set_increments_clock :: "'v \<Rightarrow> 'v \<Rightarrow> timestamp \<Rightarrow> timestamp \<Rightarrow> bool" where
  "test_set_increments_clock v1 v2 t1 t2 =
     (let sync = init_room make_sync ''room:lobby'';
          (sync, _, r1) = sync_set sync ''room:lobby'' ''agent:alice'' ''a'' v1 t1;
          (sync, _, r2) = sync_set sync ''room:lobby'' ''agent:alice'' ''b'' v2 t2
      in is_ok r1 \<and> is_ok r2
         \<and> unwrap (sync_get sync ''room:lobby'' ''b'') (\<lambda>entry.
             vc_get (se_clock entry) ''agent:alice'' = 2))"

definition test_overwrite_same_key :: "'v \<Rightarrow> 'v \<Rightarrow> timestamp \<Rightarrow> timestamp \<Rightarrow> bool" where
  "test_overwrite_same_key old new t1 t2 =
     (let sync = init_room make_sync ''room:lobby'';
          (sync, _, r1) = sync_set sync ''room:lobby'' ''agent:alice'' ''x'' old t1;
          (sync, _, r2) = sync_set sync ''room:lobby'' ''agent:alice'' ''x'' new t2
      in is_ok r1 \<and> is_ok r2
         \<and> unwrap (sync_get sync ''room:lobby'' ''x'') (\<lambda>entry. se_value entry = new))"

fun is_key_not_found :: "(state_error, 'a) result \<Rightarrow> bool" where
  "is_key_not_found (Inl (KeyNotFound _)) = True"
| "is_key_not_found _ = False"

fun is_room_not_found :: "(state_error, 'a) result \<Rightarrow> bool" where
  "is_room_not_found (Inl (RoomNotFound _)) = True"
| "is_room_not_found _ = False"

definition test_get_nonexistent_key :: bool where
  "test_get_nonexistent_key =
     (let sync = init_room (make_sync :: unit room_state_sync) ''room:lobby''
      in is_key_not_found (sync_get sync ''room:lobby'' ''missing''))"

definition test_get_nonexistent_room :: bool where
  "test_get_nonexistent_room =
     is_room_not_found (sync_get (make_sync :: unit room_state_sync) ''room:ghost'' ''key'')"

lemmas [test_eval] = make_sync_def sync_new_def room_state_new_def init_room_def sync_set_def
  sync_get_def apply_entry_def merge_and_insert_def

lemma set_and_get_tests_pass:
  "test_set_and_get v42 t" "test_set_increments_clock v1 v2 t1 t2"
  "test_overwrite_same_key old new t1 t2" test_get_nonexistent_key test_get_nonexistent_room
  by (simp_all add: test_set_and_get_def test_set_increments_clock_def test_overwrite_same_key_def
      test_get_nonexistent_key_def test_get_nonexistent_room_def test_eval hm_eval)

section \<open>Deltas\<close>

definition test_delta_sync_between_peers :: "'v \<Rightarrow> 'v \<Rightarrow> timestamp \<Rightarrow> timestamp \<Rightarrow> bool" where
  "test_delta_sync_between_peers v100 v3 t1 t2 =
     (let sync_a = init_room make_sync ''room:game'';
          sync_b = init_room make_sync ''room:game'';
          (sync_a, _, r1) = sync_set sync_a ''room:game'' ''agent:alice'' ''score'' v100 t1;
          (sync_a, _, r2) = sync_set sync_a ''room:game'' ''agent:alice'' ''level'' v3 t2
      in is_ok r1 \<and> is_ok r2
         \<and> unwrap (build_delta sync_a ''room:game'' ''agent:alice'' vc_default) (\<lambda>delta.
             let (sync_b, _, updated) = apply_delta sync_b delta
             in length (sd_entries delta) = 2
                \<and> unwrap updated (\<lambda>updated. length updated = 2)
                \<and> unwrap (sync_get sync_b ''room:game'' ''score'') (\<lambda>entry.
                    se_value entry = v100)))"

definition test_delta_only_sends_newer_entries ::
    "'v \<Rightarrow> 'v \<Rightarrow> timestamp \<Rightarrow> timestamp \<Rightarrow> bool" where
  "test_delta_only_sends_newer_entries v1 v2 t1 t2 =
     (let sync = init_room make_sync ''room:game'';
          (sync, _, r1) = sync_set sync ''room:game'' ''agent:alice'' ''a'' v1 t1
      in is_ok r1
         \<and> unwrap (room_clock sync ''room:game'') (\<lambda>clock_after_a.
             let (sync, _, r2) = sync_set sync ''room:game'' ''agent:alice'' ''b'' v2 t2
             in is_ok r2
                \<and> unwrap (build_delta sync ''room:game'' ''agent:alice'' clock_after_a) (\<lambda>delta.
                    length (sd_entries delta) = 1 \<and> se_key (sd_entries delta ! 0) = ''b'')))"

definition test_stale_delta_rejected :: "'v \<Rightarrow> 'v \<Rightarrow> timestamp \<Rightarrow> timestamp \<Rightarrow> bool" where
  "test_stale_delta_rejected new stale t1 t2 =
     (let sync = init_room make_sync ''room:game'';
          (sync, _, r1) = sync_set sync ''room:game'' ''agent:alice'' ''x'' new t1;
          stale_entry = \<lparr>se_key = ''x'', se_value = stale, se_author = ''agent:bob'',
            se_clock = vc_default, se_updated_at = t2\<rparr>;
          delta = \<lparr>sd_room_id = ''room:game'', sd_from = ''agent:bob'',
            sd_entries = [stale_entry]\<rparr>;
          (sync, _, updated) = apply_delta sync delta
      in is_ok r1
         \<and> unwrap updated (\<lambda>updated. updated = [])
         \<and> unwrap (sync_get sync ''room:game'' ''x'') (\<lambda>entry. se_value entry = new))"

text \<open>\<open>2026-01-01T00:00:00Z\<close> and one second later, in nanoseconds since the epoch.\<close>
definition test_concurrent_updates_last_writer_wins :: "'v \<Rightarrow> 'v \<Rightarrow> bool" where
  "test_concurrent_updates_last_writer_wins alice_value bob_value =
     (let sync = init_room make_sync ''room:game'';
          (clock_a, _) = vc_tick vc_default ''agent:alice'';
          (clock_b, _) = vc_tick vc_default ''agent:bob'';
          entry_a = \<lparr>se_key = ''x'', se_value = alice_value, se_author = ''agent:alice'',
            se_clock = clock_a, se_updated_at = 1767225600000000000\<rparr>;
          entry_b = \<lparr>se_key = ''x'', se_value = bob_value, se_author = ''agent:bob'',
            se_clock = clock_b, se_updated_at = 1767225601000000000\<rparr>;
          delta_a = \<lparr>sd_room_id = ''room:game'', sd_from = ''agent:alice'',
            sd_entries = [entry_a]\<rparr>;
          delta_b = \<lparr>sd_room_id = ''room:game'', sd_from = ''agent:bob'', sd_entries = [entry_b]\<rparr>;
          (sync, _, r) = apply_delta sync delta_a;
          (sync, _, updated) = apply_delta sync delta_b
      in is_ok r
         \<and> unwrap updated (\<lambda>updated. updated = [''x''])
         \<and> unwrap (sync_get sync ''room:game'' ''x'') (\<lambda>entry. se_value entry = bob_value))"

lemmas [test_eval] = build_delta_def newer_than_def apply_delta_def room_clock_def

lemma delta_sync_between_peers_passes: "test_delta_sync_between_peers v100 v3 t1 t2"
  by (simp add: test_delta_sync_between_peers_def test_eval hm_eval)

lemma delta_only_sends_newer_entries_passes: "test_delta_only_sends_newer_entries v1 v2 t1 t2"
  by (simp add: test_delta_only_sends_newer_entries_def test_eval hm_eval)

lemma stale_delta_rejected_passes: "test_stale_delta_rejected new stale t1 t2"
  by (simp add: test_stale_delta_rejected_def test_eval hm_eval)

lemma concurrent_updates_last_writer_wins_passes:
  "test_concurrent_updates_last_writer_wins alice_value bob_value"
  by (simp add: test_concurrent_updates_last_writer_wins_def test_eval hm_eval)

section \<open>Snapshots\<close>

definition test_snapshot_and_restore ::
    "'v \<Rightarrow> 'v \<Rightarrow> timestamp \<Rightarrow> timestamp \<Rightarrow> timestamp \<Rightarrow> bool" where
  "test_snapshot_and_restore v100 v50 t1 t2 t3 =
     (let sync_a = init_room make_sync ''room:game'';
          (sync_a, _, r1) = sync_set sync_a ''room:game'' ''agent:alice'' ''hp'' v100 t1;
          (sync_a, _, r2) = sync_set sync_a ''room:game'' ''agent:alice'' ''mp'' v50 t2
      in is_ok r1 \<and> is_ok r2
         \<and> unwrap (snapshot sync_a ''room:game'' t3) (\<lambda>snap.
             let (sync_b, _, updated) = restore_snapshot make_sync snap
             in hm_len (sn_entries snap) = 2
                \<and> unwrap updated (\<lambda>updated. length updated = 2)
                \<and> unwrap (sync_get sync_b ''room:game'' ''hp'') (\<lambda>hp. se_value hp = v100)
                \<and> unwrap (sync_get sync_b ''room:game'' ''mp'') (\<lambda>mp. se_value mp = v50)))"

definition test_snapshot_restore_merges_with_existing ::
    "'v \<Rightarrow> 'v \<Rightarrow> timestamp \<Rightarrow> timestamp \<Rightarrow> timestamp \<Rightarrow> bool" where
  "test_snapshot_restore_merges_with_existing local_v remote_v t1 t2 t3 =
     (let sync = init_room make_sync ''room:game'';
          (sync, _, r1) = sync_set sync ''room:game'' ''agent:bob'' ''local_key'' local_v t1;
          (clock, _) = vc_tick vc_default ''agent:alice'';
          entries = hm_insert ''remote_key''
            \<lparr>se_key = ''remote_key'', se_value = remote_v, se_author = ''agent:alice'',
             se_clock = clock, se_updated_at = t2\<rparr> hm_new;
          snap = \<lparr>sn_room_id = ''room:game'', sn_clock = vc_default, sn_entries = entries,
            sn_created_at = t3\<rparr>;
          (sync, _, r2) = restore_snapshot sync snap
      in is_ok r1 \<and> is_ok r2
         \<and> is_ok (sync_get sync ''room:game'' ''local_key'')
         \<and> is_ok (sync_get sync ''room:game'' ''remote_key''))"

lemmas [test_eval] = snapshot_def restore_snapshot_def

lemma snapshot_and_restore_passes: "test_snapshot_and_restore v100 v50 t1 t2 t3"
  by (simp add: test_snapshot_and_restore_def test_eval hm_eval)

lemma snapshot_restore_merges_with_existing_passes:
  "test_snapshot_restore_merges_with_existing local_v remote_v t1 t2 t3"
  by (simp add: test_snapshot_restore_merges_with_existing_def test_eval hm_eval)

section \<open>Rooms, counts and events\<close>

definition test_list_entries :: "'v \<Rightarrow> 'v \<Rightarrow> timestamp \<Rightarrow> timestamp \<Rightarrow> bool" where
  "test_list_entries v1 v2 t1 t2 =
     (let sync = init_room make_sync ''room:game'';
          (sync, _, r1) = sync_set sync ''room:game'' ''agent:alice'' ''a'' v1 t1;
          (sync, _, r2) = sync_set sync ''room:game'' ''agent:bob'' ''b'' v2 t2
      in is_ok r1 \<and> is_ok r2
         \<and> unwrap (list_entries sync ''room:game'') (\<lambda>entries. length entries = 2))"

definition test_entry_count :: "'v \<Rightarrow> timestamp \<Rightarrow> bool" where
  "test_entry_count v1 t =
     (let sync = init_room make_sync ''room:game'';
          before = entry_count sync ''room:game'';
          (sync, _, r) = sync_set sync ''room:game'' ''agent:alice'' ''a'' v1 t
      in unwrap before (\<lambda>n. n = 0)
         \<and> is_ok r
         \<and> unwrap (entry_count sync ''room:game'') (\<lambda>n. n = 1))"

definition test_remove_room :: "'v \<Rightarrow> timestamp \<Rightarrow> bool" where
  "test_remove_room v1 t =
     (let sync = init_room make_sync ''room:temp'';
          (sync, _, r) = sync_set sync ''room:temp'' ''agent:alice'' ''x'' v1 t;
          (sync, first) = remove_room sync ''room:temp'';
          (sync, second) = remove_room sync ''room:temp''
      in is_ok r \<and> first \<and> \<not> second
         \<and> is_room_not_found (sync_get sync ''room:temp'' ''x''))"

definition test_init_room_idempotent :: "'v \<Rightarrow> timestamp \<Rightarrow> bool" where
  "test_init_room_idempotent v1 t =
     (let sync = init_room make_sync ''room:a'';
          (sync, _, r) = sync_set sync ''room:a'' ''agent:alice'' ''x'' v1 t;
          sync = init_room sync ''room:a''
      in is_ok r \<and> unwrap (sync_get sync ''room:a'' ''x'') (\<lambda>entry. se_value entry = v1))"

definition test_multi_agent_state ::
    "'v \<Rightarrow> 'v \<Rightarrow> 'v \<Rightarrow> timestamp \<Rightarrow> timestamp \<Rightarrow> timestamp \<Rightarrow> bool" where
  "test_multi_agent_state v100 v200 v150 t1 t2 t3 =
     (let sync = init_room make_sync ''room:game'';
          (sync, _, r1) = sync_set sync ''room:game'' ''agent:alice'' ''alice_score'' v100 t1;
          (sync, _, r2) = sync_set sync ''room:game'' ''agent:bob'' ''bob_score'' v200 t2;
          (sync, _, r3) = sync_set sync ''room:game'' ''agent:carol'' ''carol_score'' v150 t3
      in is_ok r1 \<and> is_ok r2 \<and> is_ok r3
         \<and> unwrap (entry_count sync ''room:game'') (\<lambda>n. n = 3)
         \<and> unwrap (room_clock sync ''room:game'') (\<lambda>clock.
             vc_get clock ''agent:alice'' = 1 \<and> vc_get clock ''agent:bob'' = 1
             \<and> vc_get clock ''agent:carol'' = 1))"

fun is_patch_ready :: "event \<Rightarrow> bool" where
  "is_patch_ready (PatchReady _ _) = True"
| "is_patch_ready _ = False"

text \<open>The receiver subscribed before the first call, so it sees every event from the first on.\<close>
definition test_events_emitted_on_set :: "'v \<Rightarrow> timestamp \<Rightarrow> bool" where
  "test_events_emitted_on_set v1 t =
     (let sync = init_room (sync_new ''mesh:test'') ''room:game'';
          (sync, events, r) = sync_set sync ''room:game'' ''agent:alice'' ''x'' v1 t
      in is_ok r \<and> events \<noteq> [] \<and> is_patch_ready (hd events))"

lemmas [test_eval] = list_entries_def entry_count_def remove_room_def

lemma list_entries_passes: "test_list_entries v1 v2 t1 t2"
  by (simp add: test_list_entries_def test_eval hm_eval)

lemma entry_count_passes: "test_entry_count v1 t"
  by (simp add: test_entry_count_def test_eval hm_eval)

lemma remove_room_passes: "test_remove_room v1 t"
  by (simp add: test_remove_room_def test_eval)

lemma init_room_idempotent_passes: "test_init_room_idempotent v1 t"
  by (simp add: test_init_room_idempotent_def test_eval hm_eval)

lemma multi_agent_state_passes: "test_multi_agent_state v100 v200 v150 t1 t2 t3"
  by (simp add: test_multi_agent_state_def test_eval hm_eval)

lemma events_emitted_on_set_passes: "test_events_emitted_on_set v1 t"
  by (simp add: test_events_emitted_on_set_def test_eval)

end
