(* ===== verification/Rooms_Tests.thy ===== *)
theory Rooms_Tests
  imports Rooms Test_Script
begin

text \<open>The unit tests of \<open>p2p/src/room.rs\<close>, run on the model.\<close>

fun is_room_err :: "room_error \<Rightarrow> (room_error, 'a) result \<Rightarrow> bool" where
  "is_room_err e (Inl e') = (e = e')"
| "is_room_err e (Inr _) = False"

definition make_manager :: room_manager where
  "make_manager = room_manager_new ''mesh:test''"

definition test_create_and_join :: "timestamp \<Rightarrow> bool" where
  "test_create_and_join t =
     (let mgr = make_manager;
          (mgr, room) = create_room mgr ''room:lobby'' ''Lobby'' None t;
          (mgr, _, r) = join_room mgr ''room:lobby'' ''agent:alice''
      in room \<noteq> None \<and> is_ok r
         \<and> unwrap (room_members mgr ''room:lobby'') (\<lambda>members.
             length members = 1 \<and> ''agent:alice'' \<in> set members))"

definition test_duplicate_room_returns_none :: "timestamp \<Rightarrow> timestamp \<Rightarrow> bool" where
  "test_duplicate_room_returns_none t1 t2 =
     (let mgr = make_manager;
          (mgr, first) = create_room mgr ''room:a'' ''A'' None t1;
          (mgr, second) = create_room mgr ''room:a'' ''A2'' None t2
      in first \<noteq> None \<and> second = None)"

definition test_join_nonexistent_room :: bool where
  "test_join_nonexistent_room =
     (let mgr = make_manager;
          (mgr, _, err) = join_room mgr ''room:missing'' ''agent:alice''
      in is_room_err RoomMissing err)"

definition test_double_join_rejected :: "timestamp \<Rightarrow> bool" where
  "test_double_join_rejected t =
     (let mgr = make_manager;
          (mgr, _) = create_room mgr ''room:a'' ''A'' None t;
          (mgr, _, r) = join_room mgr ''room:a'' ''agent:alice'';
          (mgr, _, err) = join_room mgr ''room:a'' ''agent:alice''
      in is_ok r \<and> is_room_err AlreadyJoined err)"

definition test_room_full :: "timestamp \<Rightarrow> bool" where
  "test_room_full t =
     (let mgr = make_manager;
          (mgr, _) = create_room mgr ''room:small'' ''Small'' (Some 1) t;
          (mgr, _, r) = join_room mgr ''room:small'' ''agent:alice'';
          (mgr, _, err) = join_room mgr ''room:small'' ''agent:bob''
      in is_ok r \<and> is_room_err RoomFull err)"

definition test_leave_and_rejoin :: "timestamp \<Rightarrow> bool" where
  "test_leave_and_rejoin t =
     (let mgr = make_manager;
          (mgr, _) = create_room mgr ''room:a'' ''A'' None t;
          (mgr, _, r1) = join_room mgr ''room:a'' ''agent:alice'';
          (mgr, _, r2) = leave_room mgr ''room:a'' ''agent:alice'';
          left = member_count mgr ''room:a'';
          (mgr, _, r3) = join_room mgr ''room:a'' ''agent:alice''
      in is_ok r1 \<and> is_ok r2
         \<and> unwrap left (\<lambda>n. n = 0)
         \<and> is_ok r3
         \<and> unwrap (member_count mgr ''room:a'') (\<lambda>n. n = 1))"

definition test_leave_nonmember :: "timestamp \<Rightarrow> bool" where
  "test_leave_nonmember t =
     (let mgr = make_manager;
          (mgr, _) = create_room mgr ''room:a'' ''A'' None t;
          (mgr, _, err) = leave_room mgr ''room:a'' ''agent:ghost''
      in is_room_err NotMember err)"

definition test_list_rooms :: "timestamp \<Rightarrow> timestamp \<Rightarrow> bool" where
  "test_list_rooms t1 t2 =
     (let mgr = make_manager;
          (mgr, _) = create_room mgr ''room:a'' ''Alpha'' None t1;
          (mgr, _) = create_room mgr ''room:b'' ''Beta'' None t2
      in length (list_rooms mgr) = 2)"

fun is_joined_then_patch :: "event list \<Rightarrow> bool" where
  "is_joined_then_patch (RoomJoined _ _ # PatchReady _ _ # _) = True"
| "is_joined_then_patch _ = False"

fun is_left_then_patch :: "event list \<Rightarrow> bool" where
  "is_left_then_patch (RoomLeft _ _ # PatchReady _ _ # _) = True"
| "is_left_then_patch _ = False"

text \<open>The receiver subscribed first: it sees the events of every call, in order.\<close>
definition test_events_emitted_on_join_and_leave :: "timestamp \<Rightarrow> bool" where
  "test_events_emitted_on_join_and_leave t =
     (let mgr = room_manager_new ''mesh:test'';
          (mgr, _) = create_room mgr ''room:a'' ''A'' None t;
          (mgr, joined, r1) = join_room mgr ''room:a'' ''agent:alice'';
          (mgr, left, r2) = leave_room mgr ''room:a'' ''agent:alice'';
          rx = joined @ left
      in is_ok r1 \<and> is_joined_then_patch rx \<and> is_ok r2 \<and> is_left_then_patch (drop 2 rx))"

lemmas [test_eval] = make_manager_def room_manager_new_def create_room_def join_room_def
  leave_room_def room_members_def member_count_def list_rooms_def room_is_full_def

lemma room_tests_pass:
  "test_create_and_join t" "test_duplicate_room_returns_none t t'" test_join_nonexistent_room
  "test_double_join_rejected t" "test_room_full t" "test_leave_and_rejoin t"
  "test_leave_nonmember t" "test_list_rooms t t'" "test_events_emitted_on_join_and_leave t"
  by (simp_all add: test_create_and_join_def test_duplicate_room_returns_none_def
      test_join_nonexistent_room_def test_double_join_rejected_def test_room_full_def
      test_leave_and_rejoin_def test_leave_nonmember_def test_list_rooms_def
      test_events_emitted_on_join_and_leave_def test_eval hm_eval)

end
