(* ===== verification/Matchmaking_Tests.thy ===== *)
theory Matchmaking_Tests
  imports Matchmaking Test_Script
begin

text \<open>
  The unit tests of \<open>p2p/src/matchmaking.rs\<close>, run on the model. The readings of the clock that a
  test takes are its arguments in the order it takes them, and so are the ids the matchmaker
  makes. A test that compares times passes when the readings are in order and the test takes less
  than an hour; one that stores several requests or slots passes when their ids differ.
\<close>

definition hours :: "int \<Rightarrow> int" where
  "hours n = n * 3600 * 1000000000"

definition make_matchmaker :: matchmaker where
  "make_matchmaker = matchmaker_new ''mesh:golf-sim''"

definition skill :: "f64 \<Rightarrow> f64 \<Rightarrow> skill_range" where
  "skill lo hi = \<lparr>skr_min = lo, skr_max = hi\<rparr>"

definition window_from_now :: "int \<Rightarrow> timestamp \<Rightarrow> time_window" where
  "window_from_now n now =
     (let start = now; end' = start + hours n in \<lparr>tw_start = start, tw_end = end'\<rparr>)"

section \<open>Requests\<close>

definition test_submit_and_find_match ::
    "string \<Rightarrow> string \<Rightarrow> timestamp \<Rightarrow> timestamp \<Rightarrow> timestamp \<Rightarrow> timestamp \<Rightarrow> bool" where
  "test_submit_and_find_match ida idb t1 t2 t3 t4 =
     (let mm = make_matchmaker;
          (mm, _, req_a) = submit_request mm ''agent:alice'' ''golf-18''
            (skill (Finite 50) (Finite 80)) (window_from_now 2 t1) ida t2;
          (mm, _, req_b) = submit_request mm ''agent:bob'' ''golf-18''
            (skill (Finite 60) (Finite 90)) (window_from_now 2 t3) idb t4
      in unwrap (find_matches mm (mr_request_id req_a)) (\<lambda>matches.
           length matches = 1 \<and> mr_agent_id (matches ! 0) = ''agent:bob''))"

definition test_no_match_different_game ::
    "string \<Rightarrow> string \<Rightarrow> timestamp \<Rightarrow> timestamp \<Rightarrow> timestamp \<Rightarrow> timestamp \<Rightarrow> bool" where
  "test_no_match_different_game ida idb t1 t2 t3 t4 =
     (let mm = make_matchmaker;
          (mm, _, req_a) = submit_request mm ''agent:alice'' ''golf-18''
            (skill (Finite 50) (Finite 80)) (window_from_now 2 t1) ida t2;
          (mm, _, req_b) = submit_request mm ''agent:bob'' ''golf-9''
            (skill (Finite 60) (Finite 90)) (window_from_now 2 t3) idb t4
      in unwrap (find_matches mm (mr_request_id req_a)) (\<lambda>matches. matches = []))"

definition test_no_match_non_overlapping_skill ::
    "string \<Rightarrow> string \<Rightarrow> timestamp \<Rightarrow> timestamp \<Rightarrow> timestamp \<Rightarrow> timestamp \<Rightarrow> bool" where
  "test_no_match_non_overlapping_skill ida idb t1 t2 t3 t4 =
     (let mm = make_matchmaker;
          (mm, _, req_a) = submit_request mm ''agent:alice'' ''golf-18''
            (skill (Finite 10) (Finite 30)) (window_from_now 2 t1) ida t2;
          (mm, _, req_b) = submit_request mm ''agent:bob'' ''golf-18''
            (skill (Finite 60) (Finite 90)) (window_from_now 2 t3) idb t4
      in unwrap (find_matches mm (mr_request_id req_a)) (\<lambda>matches. matches = []))"

definition test_no_match_non_overlapping_time ::
    "string \<Rightarrow> string \<Rightarrow> timestamp \<Rightarrow> timestamp \<Rightarrow> timestamp \<Rightarrow> timestamp \<Rightarrow> timestamp \<Rightarrow> bool" where
  "test_no_match_non_overlapping_time ida idb t1 t2 t3 t4 t5 =
     (let mm = make_matchmaker;
          window_now = window_from_now 1 t1;
          window_later = \<lparr>tw_start = t2 + hours 3, tw_end = t3 + hours 5\<rparr>;
          (mm, _, req_a) = submit_request mm ''agent:alice'' ''golf-18''
            (skill (Finite 50) (Finite 80)) window_now ida t4;
          (mm, _, req_b) = submit_request mm ''agent:bob'' ''golf-18''
            (skill (Finite 60) (Finite 90)) window_later idb t5
      in unwrap (find_matches mm (mr_request_id req_a)) (\<lambda>matches. matches = []))"

definition test_cancel_request :: "string \<Rightarrow> timestamp \<Rightarrow> timestamp \<Rightarrow> bool" where
  "test_cancel_request ida t1 t2 =
     (let mm = make_matchmaker;
          (mm, _, req) = submit_request mm ''agent:alice'' ''golf-18''
            (skill (Finite 50) (Finite 80)) (window_from_now 2 t1) ida t2;
          before = list_requests mm;
          (mm, r) = cancel_request mm (mr_request_id req)
      in length before = 1 \<and> is_ok r \<and> list_requests mm = [])"

definition test_requests_for_game ::
    "string \<Rightarrow> string \<Rightarrow> string \<Rightarrow> timestamp \<Rightarrow> timestamp \<Rightarrow> timestamp \<Rightarrow> timestamp \<Rightarrow> timestamp
      \<Rightarrow> timestamp \<Rightarrow> bool" where
  "test_requests_for_game ida idb idc t1 t2 t3 t4 t5 t6 =
     (let mm = make_matchmaker;
          (mm, _, _) = submit_request mm ''agent:alice'' ''golf-18''
            (skill (Finite 50) (Finite 80)) (window_from_now 2 t1) ida t2;
          (mm, _, _) = submit_request mm ''agent:bob'' ''golf-9''
            (skill (Finite 50) (Finite 80)) (window_from_now 2 t3) idb t4;
          (mm, _, _) = submit_request mm ''agent:carol'' ''golf-18''
            (skill (Finite 50) (Finite 80)) (window_from_now 2 t5) idc t6
      in length (requests_for_game mm ''golf-18'') = 2
         \<and> length (requests_for_game mm ''golf-9'') = 1)"

lemmas [test_eval] = hours_def make_matchmaker_def skill_def window_from_now_def
  matchmaker_new_def submit_request_def find_matches_def compatible_def ranges_overlap_def
  windows_overlap_def cancel_request_def list_requests_def requests_for_game_def

lemma submit_and_find_match_passes:
  assumes "ida \<noteq> idb" and "t1 \<le> t3" and "t3 < t1 + hours 1"
  shows "test_submit_and_find_match ida idb t1 t2 t3 t4"
  using assms by (simp add: test_submit_and_find_match_def test_eval hm_eval)

lemma no_match_tests_pass:
  assumes "ida \<noteq> idb"
  shows "test_no_match_different_game ida idb t1 t2 t3 t4"
    and "test_no_match_non_overlapping_skill ida idb t1 t2 t3 t4"
    and "t1 \<le> t2 \<Longrightarrow> test_no_match_non_overlapping_time ida idb t1 t2 t3 t4 t5"
  using assms by (simp_all add: test_no_match_different_game_def
      test_no_match_non_overlapping_skill_def test_no_match_non_overlapping_time_def
      test_eval hm_eval)

lemma cancel_request_passes: "test_cancel_request ida t1 t2"
  by (simp add: test_cancel_request_def test_eval hm_eval)

lemma requests_for_game_passes:
  assumes "distinct [ida, idb, idc]"
  shows "test_requests_for_game ida idb idc t1 t2 t3 t4 t5 t6"
  using assms by (simp add: test_requests_for_game_def test_eval hm_eval)

section \<open>Schedules\<close>

definition test_schedule_lifecycle :: "string \<Rightarrow> timestamp \<Rightarrow> timestamp \<Rightarrow> bool" where
  "test_schedule_lifecycle i t1 t2 =
     (let mm = make_matchmaker;
          start = t1 + hours 1;
          end' = start + hours 2;
          (mm, _, slot) = propose_slot mm ''agent:alice'' start end' i t2;
          (mm, _, r) = confirm_slot mm (sl_schedule_id slot)
      in sl_state slot = Proposed \<and> unwrap r (\<lambda>confirmed. sl_state confirmed = SlotConfirmed))"

definition test_decline_slot :: "string \<Rightarrow> timestamp \<Rightarrow> timestamp \<Rightarrow> bool" where
  "test_decline_slot i t1 t2 =
     (let mm = make_matchmaker;
          start = t1 + hours 1;
          end' = start + hours 2;
          (mm, _, slot) = propose_slot mm ''agent:alice'' start end' i t2;
          (mm, _, r) = decline_slot mm (sl_schedule_id slot)
      in unwrap r (\<lambda>declined. sl_state declined = SlotDeclined))"

definition test_slots_for_agent ::
    "string \<Rightarrow> string \<Rightarrow> string \<Rightarrow> timestamp \<Rightarrow> timestamp \<Rightarrow> timestamp \<Rightarrow> timestamp \<Rightarrow> bool" where
  "test_slots_for_agent i1 i2 i3 t1 t2 t3 t4 =
     (let mm = make_matchmaker;
          start = t1 + hours 1;
          end' = start + hours 2;
          (mm, _, _) = propose_slot mm ''agent:alice'' start end' i1 t2;
          (mm, _, _) = propose_slot mm ''agent:alice'' end' (end' + hours 1) i2 t3;
          (mm, _, _) = propose_slot mm ''agent:bob'' start end' i3 t4
      in length (slots_for_agent mm ''agent:alice'') = 2
         \<and> length (slots_for_agent mm ''agent:bob'') = 1)"

lemmas [test_eval] = propose_slot_def confirm_slot_def decline_slot_def slots_for_agent_def

lemma slot_tests_pass: "test_schedule_lifecycle i t1 t2" "test_decline_slot i t1 t2"
  by (simp_all add: test_schedule_lifecycle_def test_decline_slot_def test_eval hm_eval)

lemma slots_for_agent_passes:
  assumes "distinct [i1, i2, i3]"
  shows "test_slots_for_agent i1 i2 i3 t1 t2 t3 t4"
  using assms by (simp add: test_slots_for_agent_def test_eval hm_eval)

section \<open>Offers and purging\<close>

definition test_offer_lifecycle ::
    "timestamp \<Rightarrow> timestamp \<Rightarrow> timestamp \<Rightarrow> timestamp \<Rightarrow> timestamp \<Rightarrow> bool" where
  "test_offer_lifecycle t1 t2 t3 t4 t5 =
     (let mm = make_matchmaker;
          expires = t1 + hours 24;
          (mm, _, offer) = submit_offer mm ''agent:alice'' ''offer-1'' ''Join my golf round'' expires t2;
          retrieved = get_offer mm ''offer-1'' t3;
          active = active_offers mm t4;
          (mm, r) = withdraw_offer mm ''offer-1''
      in po_offer_id offer = ''offer-1''
         \<and> unwrap retrieved (\<lambda>p. po_summary p = ''Join my golf round'')
         \<and> length active = 1
         \<and> is_ok r
         \<and> active_offers mm t5 = [])"

fun is_offer_expired :: "(match_error, 'a) result \<Rightarrow> bool" where
  "is_offer_expired (Inl OfferExpired) = True"
| "is_offer_expired _ = False"

definition test_expired_offer_rejected :: "timestamp \<Rightarrow> timestamp \<Rightarrow> timestamp \<Rightarrow> bool" where
  "test_expired_offer_rejected t1 t2 t3 =
     (let mm = make_matchmaker;
          already_expired = t1 - hours 1;
          (mm, _, _) = submit_offer mm ''agent:alice'' ''offer-old'' ''Old offer'' already_expired t2
      in is_offer_expired (get_offer mm ''offer-old'' t3))"

definition test_purge_expired :: "string \<Rightarrow> string \<Rightarrow> (nat \<Rightarrow> timestamp) \<Rightarrow> bool" where
  "test_purge_expired ida idb t =
     (let mm = make_matchmaker;
          expired_window = \<lparr>tw_start = t 1 - hours 3, tw_end = t 2 - hours 1\<rparr>;
          (mm, _, _) = submit_request mm ''agent:alice'' ''golf-18''
            (skill (Finite 50) (Finite 80)) expired_window ida (t 3);
          (mm, _, _) = submit_request mm ''agent:bob'' ''golf-18''
            (skill (Finite 50) (Finite 80)) (window_from_now 2 (t 4)) idb (t 5);
          (mm, _, _) = submit_offer mm ''agent:alice'' ''old'' ''expired'' (t 6 - hours 1) (t 7);
          (mm, _, _) = submit_offer mm ''agent:bob'' ''new'' ''valid'' (t 8 + hours 24) (t 9);
          mm = purge_expired mm (t 10)
      in length (list_requests mm) = 1 \<and> length (active_offers mm (t 11)) = 1)"

lemmas [test_eval] = submit_offer_def get_offer_def active_offers_def withdraw_offer_def
  purge_expired_def

lemma offer_lifecycle_passes:
  assumes "t1 \<le> t3" "t3 \<le> t4" "t4 < t1 + hours 1"
  shows "test_offer_lifecycle t1 t2 t3 t4 t5"
  using assms by (simp add: test_offer_lifecycle_def test_eval hm_eval)

lemma expired_offer_rejected_passes:
  "t1 \<le> t3 \<Longrightarrow> test_expired_offer_rejected t1 t2 t3"
  by (simp add: test_expired_offer_rejected_def test_eval hm_eval)

lemma purge_expired_passes:
  assumes "ida \<noteq> idb" and "mono t" and "t 11 < t 1 + hours 1"
  shows "test_purge_expired ida idb t"
proof -
  have "t 1 \<le> t 2" "t 2 \<le> t 4" "t 4 \<le> t 6" "t 6 \<le> t 8" "t 8 \<le> t 10" "t 10 \<le> t 11"
    using \<open>mono t\<close> by (simp_all add: mono_def)
  with assms show ?thesis
    by (simp add: test_purge_expired_def test_eval hm_eval)
qed

end
