(* ===== verification/Discovery_Tests.thy ===== *)
theory Discovery_Tests
  imports Discovery Test_Script
begin

text \<open>
  The unit tests of \<open>p2p/src/discovery.rs\<close>, run on the model. The readings of the clock that the
  announcements take are arguments of a test.
\<close>

definition make_registry :: mesh_registry where
  "make_registry = registry_new ''mesh:test''"

definition announce :: "string \<Rightarrow> announce_message" where
  "announce i = \<lparr>am_agent_id = ''agent:'' @ i, am_mesh_id = ''mesh:test'', am_display_name = i,
     am_status = Available, am_capabilities = [''announce'']\<rparr>"

section \<open>Announcing, looking up and searching\<close>

definition test_announce_and_lookup :: "timestamp \<Rightarrow> bool" where
  "test_announce_and_lookup t =
     (let reg = make_registry;
          (reg, _, _) = handle_announce reg (announce ''alice'') t
      in unwrap_some (get_peer reg ''agent:alice'') (\<lambda>peer.
           pe_display_name peer = ''alice'' \<and> pe_status peer = Available)
         \<and> registry_peer_count reg = 1)"

definition test_remove_peer :: "timestamp \<Rightarrow> bool" where
  "test_remove_peer t =
     (let reg = make_registry;
          (reg, _, _) = handle_announce reg (announce ''alice'') t;
          before = registry_peer_count reg;
          (reg, _, removed) = registry_remove_peer reg ''agent:alice''
      in before = 1 \<and> removed \<noteq> None \<and> registry_peer_count reg = 0)"

definition test_remove_nonexistent :: bool where
  "test_remove_nonexistent =
     (let (reg, _, removed) = registry_remove_peer make_registry ''agent:ghost''
      in removed = None)"

definition test_list_and_filter :: "timestamp \<Rightarrow> timestamp \<Rightarrow> bool" where
  "test_list_and_filter t1 t2 =
     (let reg = make_registry;
          (reg, _, _) = handle_announce reg (announce ''alice'') t1;
          msg = (announce ''bob'')\<lparr>am_status := Busy\<rparr>;
          (reg, _, _) = handle_announce reg msg t2
      in length (list_peers reg) = 2
         \<and> length (peers_by_status reg Available) = 1
         \<and> length (peers_by_status reg Busy) = 1)"

definition test_peers_by_capability :: "timestamp \<Rightarrow> timestamp \<Rightarrow> timestamp \<Rightarrow> bool" where
  "test_peers_by_capability t1 t2 t3 =
     (let reg = make_registry;
          alice = (announce ''alice'')\<lparr>am_capabilities := [''matchmaking'', ''scheduling'']\<rparr>;
          (reg, _, _) = handle_announce reg alice t1;
          bob = (announce ''bob'')\<lparr>am_capabilities := [''matchmaking'']\<rparr>;
          (reg, _, _) = handle_announce reg bob t2;
          carol = (announce ''carol'')\<lparr>am_capabilities := [''scheduling'']\<rparr>;
          (reg, _, _) = handle_announce reg carol t3
      in length (peers_by_capability reg ''matchmaking'') = 2
         \<and> length (peers_by_capability reg ''scheduling'') = 2
         \<and> length (peers_by_capability reg ''unknown'') = 0)"

definition test_search_peers_combined :: "timestamp \<Rightarrow> timestamp \<Rightarrow> bool" where
  "test_search_peers_combined t1 t2 =
     (let reg = make_registry;
          alice = (announce ''alice'')\<lparr>am_capabilities := [''matchmaking'']\<rparr>;
          (reg, _, _) = handle_announce reg alice t1;
          bob = (announce ''bob'')\<lparr>am_status := Busy, am_capabilities := [''matchmaking'']\<rparr>;
          (reg, _, _) = handle_announce reg bob t2;
          query = \<lparr>pq_status = Some Available, pq_capability = Some ''matchmaking'',
            pq_mesh_id = None\<rparr>;
          results = search_peers reg query;
          everyone = search_peers reg \<lparr>pq_status = None, pq_capability = None, pq_mesh_id = None\<rparr>
      in length results = 1 \<and> pe_agent_id (results ! 0) = ''agent:alice'' \<and> length everyone = 2)"

fun is_announced_then_patch :: "event list \<Rightarrow> bool" where
  "is_announced_then_patch (PeerAnnounced _ _ # PatchReady _ _ # _) = True"
| "is_announced_then_patch _ = False"

definition test_events_emitted_on_announce :: "timestamp \<Rightarrow> bool" where
  "test_events_emitted_on_announce t =
     (let reg = registry_new ''mesh:test'';
          (reg, rx, _) = handle_announce reg (announce ''alice'') t
      in is_announced_then_patch rx)"

lemmas registry_eval [test_eval] = make_registry_def registry_new_def announce_def
  handle_announce_def get_peer_def registry_peer_count_def registry_remove_peer_def
  list_peers_def peers_by_status_def peers_by_capability_def has_capability_def
  search_peers_def query_matches_def

lemma registry_tests_pass:
  "test_announce_and_lookup t1" "test_remove_peer t1" test_remove_nonexistent
  "test_list_and_filter t1 t2" "test_peers_by_capability t1 t2 t3"
  "test_search_peers_combined t1 t2" "test_events_emitted_on_announce t1"
  by (simp_all add: test_announce_and_lookup_def test_remove_peer_def
      test_remove_nonexistent_def test_list_and_filter_def test_peers_by_capability_def
      test_search_peers_combined_def test_events_emitted_on_announce_def test_eval hm_eval)

section \<open>Gossip\<close>

definition test_gossip_digest_roundtrip :: "timestamp \<Rightarrow> timestamp \<Rightarrow> timestamp \<Rightarrow> bool" where
  "test_gossip_digest_roundtrip t1 t2 t3 =
     (let reg_a = make_registry;
          (reg_a, _, _) = handle_announce reg_a (announce ''alice'') t1;
          (reg_a, _, _) = handle_announce reg_a (announce ''bob'') t2;
          reg_b = make_registry;
          (reg_b, _, _) = handle_announce reg_b (announce ''alice'') t3;
          pull = \<lparr>gpull_from = ''node-b'', gpull_digests = build_digest reg_b\<rparr>;
          push = handle_gossip_pull reg_a pull;
          (reg_b, _) = merge_gossip_push reg_b push
      in length (gpush_entries push) = 1
         \<and> pe_agent_id (gpush_entries push ! 0) = ''agent:bob''
         \<and> registry_peer_count reg_b = 2
         \<and> get_peer reg_b ''agent:bob'' \<noteq> None)"

text \<open>\<open>2020-01-01T00:00:00Z\<close> in nanoseconds since the epoch.\<close>
definition test_gossip_merge_only_newer :: "timestamp \<Rightarrow> bool" where
  "test_gossip_merge_only_newer t =
     (let reg = make_registry;
          (reg, _, _) = handle_announce reg (announce ''alice'') t
      in unwrap_some (get_peer reg ''agent:alice'') (\<lambda>original.
           let stale = original\<lparr>pe_display_name := ''stale-alice'',
                 pe_last_seen := 1577836800000000000\<rparr>;
               (reg, _) = merge_gossip_push reg \<lparr>gpush_entries = [stale]\<rparr>
           in unwrap_some (get_peer reg ''agent:alice'') (\<lambda>current.
                pe_display_name current = ''alice'')))"

lemmas gossip_eval [test_eval] = build_digest_def handle_gossip_pull_def hm_collect_def
  pull_answers_def merge_gossip_push_def merge_gossip_entry_def

text \<open>\<open>reg_b\<close> sees alice after \<open>reg_a\<close> did, so \<open>reg_a\<close> has nothing newer about her.\<close>
lemma gossip_digest_roundtrip_passes:
  "t1 \<le> t3 \<Longrightarrow> test_gossip_digest_roundtrip t1 t2 t3"
  by (simp add: test_gossip_digest_roundtrip_def test_eval hm_eval)

text \<open>The clock of the machine shows a time after the beginning of 2020.\<close>
lemma gossip_merge_only_newer_passes:
  "1577836800000000000 \<le> t \<Longrightarrow> test_gossip_merge_only_newer t"
  by (simp add: test_gossip_merge_only_newer_def test_eval hm_eval)

end
