(* ===== verification/Relay_Tests.thy ===== *)
theory Relay_Tests
  imports Relay Test_Script
begin

text \<open>
  The unit tests of \<open>p2p/src/signal.rs\<close> and \<open>p2p/src/relay.rs\<close>, run on the model. Each \<open>mpsc\<close> channel is a handle; where a
  test has several, its lemma takes them distinct.
\<close>

section \<open>Signaling\<close>

definition starts_with :: "string \<Rightarrow> string \<Rightarrow> bool" where
  "starts_with s pat \<longleftrightarrow> take (length pat) s = pat"

text \<open>What \<open>signal_send\<close> put on a channel is what the other end's \<open>recv\<close> takes from it.\<close>
definition test_signaling_pair_roundtrip :: "chan \<Rightarrow> chan \<Rightarrow> bool" where
  "test_signaling_pair_roundtrip c d =
     (let (a, b) = signaling_pair c d;
          ok = held [c, d];
          offer = SigOffer \<lparr>so_from = ''agent:alice'', so_to = ''agent:bob'',
            so_sdp = ''v=0'' @ [CHR 0x0D, CHR 0x0A] @ ''...''\<rparr>;
          (sent1, r1) = signal_send ok a offer;
          answer = SigAnswer \<lparr>sa_from = ''agent:bob'', sa_to = ''agent:alice'',
            sa_sdp = ''v=0'' @ [CHR 0x0D, CHR 0x0A] @ ''answer''\<rparr>;
          (sent2, r2) = signal_send ok b answer
      in is_ok r1
         \<and> unwrap (signal_recv (\<lambda>rx. recv rx sent1) b) (\<lambda>received.
             case received of
               SigOffer m \<Rightarrow> so_from m = ''agent:alice'' \<and> so_to m = ''agent:bob''
             | _ \<Rightarrow> False)
         \<and> is_ok r2
         \<and> unwrap (signal_recv (\<lambda>rx. recv rx sent2) a) (\<lambda>received.
             case received of
               SigAnswer m \<Rightarrow> sa_from m = ''agent:bob'' \<and> sa_to m = ''agent:alice''
             | _ \<Rightarrow> False))"

definition test_ice_candidate_roundtrip :: "chan \<Rightarrow> chan \<Rightarrow> bool" where
  "test_ice_candidate_roundtrip c d =
     (let (a, b) = signaling_pair c d;
          candidate = SigIceCandidate \<lparr>ic_from = ''agent:alice'', ic_to = ''agent:bob'',
            ic_candidate = ''candidate:1 1 UDP 2122252543 192.168.1.1 50000 typ host'',
            ic_sdp_m_line_index = 0\<rparr>;
          (sent, r) = signal_send (held [c, d]) a candidate
      in is_ok r
         \<and> unwrap (signal_recv (\<lambda>rx. recv rx sent) b) (\<lambda>received.
             case received of
               SigIceCandidate m \<Rightarrow> ic_from m = ''agent:alice''
                 \<and> str_contains (ic_candidate m) ''typ host'' \<and> ic_sdp_m_line_index m = 0
             | _ \<Rightarrow> False))"

definition test_default_ice_servers_returns_stun :: bool where
  "test_default_ice_servers_returns_stun =
     (let servers = default_ice_servers
      in servers \<noteq> []
         \<and> list_all (\<lambda>s. starts_with (is_urls s ! 0) ''stun:'' \<and> is_username s = None) servers)"

definition test_build_ice_config_merges_turn :: bool where
  "test_build_ice_config_merges_turn =
     (let turn = [\<lparr>is_urls = [''turn:my-turn.example.com:3478''], is_username = Some ''user'',
            is_credential = Some ''pass''\<rparr>];
          config = build_ice_config turn
      in 3 \<le> length config \<and> starts_with (is_urls (last config) ! 0) ''turn:'')"

definition test_signal_target_and_source :: bool where
  "test_signal_target_and_source =
     (let msg = SigOffer \<lparr>so_from = ''agent:alice'', so_to = ''agent:bob'', so_sdp = ''sdp''\<rparr>
      in signal_target msg = ''agent:bob'' \<and> signal_source msg = ''agent:alice'')"

lemmas [test_eval] = starts_with_def signaling_pair_def signal_send_def signal_recv_def
  default_ice_servers_def build_ice_config_def

lemma signaling_tests_pass:
  "test_signaling_pair_roundtrip c d" "test_ice_candidate_roundtrip c d"
  test_default_ice_servers_returns_stun test_build_ice_config_merges_turn
  test_signal_target_and_source
  by (simp_all add: test_signaling_pair_roundtrip_def test_ice_candidate_roundtrip_def
      test_default_ice_servers_returns_stun_def test_build_ice_config_merges_turn_def
      test_signal_target_and_source_def test_eval)

section \<open>The relay\<close>

definition make_relay :: signal_relay where
  "make_relay = signal_relay_new"

definition offer :: "string \<Rightarrow> string \<Rightarrow> string \<Rightarrow> signal_message" where
  "offer src dst sdp = SigOffer \<lparr>so_from = src, so_to = dst, so_sdp = sdp\<rparr>"

fun is_offer :: "signal_message \<Rightarrow> bool" where
  "is_offer (SigOffer _) = True"
| "is_offer _ = False"

fun is_answer :: "signal_message \<Rightarrow> bool" where
  "is_answer (SigAnswer _) = True"
| "is_answer _ = False"

fun is_ice_candidate :: "signal_message \<Rightarrow> bool" where
  "is_ice_candidate (SigIceCandidate _) = True"
| "is_ice_candidate _ = False"

fun is_unknown_peer :: "(signal_error, 'a) result \<Rightarrow> bool" where
  "is_unknown_peer (Inl (SigUnknownPeer _)) = True"
| "is_unknown_peer _ = False"

text \<open>CR LF are the characters 13 and 10.\<close>
definition test_register_and_relay_offer :: "chan \<Rightarrow> bool" where
  "test_register_and_relay_offer c =
     (let relay = make_relay;
          (relay, rx_bob) = relay_register relay ''agent:bob'' c;
          sdp = ''v=0'' @ [CHR 0x0D, CHR 0x0A] @ ''offer-sdp'';
          (sent, _, r) = relay_send (held [rx_bob]) relay (offer ''agent:alice'' ''agent:bob'' sdp)
      in is_ok r
         \<and> unwrap_some (recv rx_bob sent) (\<lambda>received.
             case received of
               SigOffer o' \<Rightarrow> so_from o' = ''agent:alice'' \<and> so_to o' = ''agent:bob'' \<and> so_sdp o' = sdp
             | _ \<Rightarrow> False))"

definition test_full_offer_answer_ice_exchange :: "chan \<Rightarrow> chan \<Rightarrow> bool" where
  "test_full_offer_answer_ice_exchange c d =
     (let relay = make_relay;
          (relay, rx_alice) = relay_register relay ''agent:alice'' c;
          (relay, rx_bob) = relay_register relay ''agent:bob'' d;
          ok = held [rx_alice, rx_bob];
          (sent1, _, r1) = relay_send ok relay (offer ''agent:alice'' ''agent:bob'' ''offer-sdp'');
          (sent2, _, r2) = relay_send ok relay
            (SigAnswer \<lparr>sa_from = ''agent:bob'', sa_to = ''agent:alice'', sa_sdp = ''answer-sdp''\<rparr>);
          (sent3, _, r3) = relay_send ok relay
            (SigIceCandidate \<lparr>ic_from = ''agent:alice'', ic_to = ''agent:bob'',
               ic_candidate = ''candidate:1 1 UDP 2122252543 192.168.1.1 50000 typ host'',
               ic_sdp_m_line_index = 0\<rparr>)
      in is_ok r1 \<and> unwrap_some (recv rx_bob sent1) is_offer
         \<and> is_ok r2 \<and> unwrap_some (recv rx_alice sent2) is_answer
         \<and> is_ok r3 \<and> unwrap_some (recv rx_bob sent3) is_ice_candidate)"

definition test_relay_to_unknown_peer_fails :: bool where
  "test_relay_to_unknown_peer_fails =
     (let (_, _, err) = relay_send (held []) make_relay (offer ''agent:alice'' ''agent:nobody'' ''sdp'')
      in is_unknown_peer err)"

definition test_unregister_peer :: "chan \<Rightarrow> bool" where
  "test_unregister_peer c =
     (let relay = make_relay;
          (relay, rx) = relay_register relay ''agent:alice'' c;
          before = relay_is_registered relay ''agent:alice'' \<and> relay_peer_count relay = 1;
          (relay, removed) = relay_unregister relay ''agent:alice''
      in before \<and> removed \<and> \<not> relay_is_registered relay ''agent:alice''
         \<and> relay_peer_count relay = 0)"

definition test_unregister_nonexistent_returns_false :: bool where
  "test_unregister_nonexistent_returns_false =
     (let (_, removed) = relay_unregister make_relay ''agent:ghost'' in \<not> removed)"

definition test_reregister_replaces_channel :: "chan \<Rightarrow> chan \<Rightarrow> bool" where
  "test_reregister_replaces_channel c d =
     (let relay = make_relay;
          (relay, rx_old) = relay_register relay ''agent:alice'' c;
          (relay, rx_new) = relay_register relay ''agent:alice'' d;
          (sent, _, r) = relay_send (held [rx_old, rx_new]) relay
            (offer ''agent:bob'' ''agent:alice'' ''sdp'')
      in is_ok r \<and> unwrap_some (recv rx_new sent) is_offer \<and> relay_peer_count relay = 1)"

definition test_relay_after_unregister_fails :: "chan \<Rightarrow> bool" where
  "test_relay_after_unregister_fails c =
     (let relay = make_relay;
          (relay, rx) = relay_register relay ''agent:bob'' c;
          (relay, _) = relay_unregister relay ''agent:bob'';
          (_, _, err) = relay_send (held [rx]) relay (offer ''agent:alice'' ''agent:bob'' ''sdp'')
      in is_unknown_peer err)"

definition test_events_emitted_on_relay :: "chan \<Rightarrow> bool" where
  "test_events_emitted_on_relay c =
     (let relay = signal_relay_new;
          (relay, rx_bob) = relay_register relay ''agent:bob'' c;
          (_, rx_events, r) = relay_send (held [rx_bob]) relay
            (offer ''agent:alice'' ''agent:bob'' ''sdp'')
      in is_ok r
         \<and> (case rx_events of
              SignalReceived src dst # _ \<Rightarrow> src = ''agent:alice'' \<and> dst = ''agent:bob''
            | _ \<Rightarrow> False))"

definition test_registered_peers_listing :: "chan \<Rightarrow> chan \<Rightarrow> chan \<Rightarrow> bool" where
  "test_registered_peers_listing c d e =
     (let relay = make_relay;
          (relay, _) = relay_register relay ''agent:alice'' c;
          (relay, _) = relay_register relay ''agent:bob'' d;
          (relay, _) = relay_register relay ''agent:carol'' e;
          peers = sort (registered_peers relay)
      in peers = [''agent:alice'', ''agent:bob'', ''agent:carol''])"

lemmas [test_eval] = make_relay_def offer_def signal_relay_new_def relay_register_def
  relay_send_def relay_unregister_def relay_is_registered_def relay_peer_count_def
  registered_peers_def

lemma relay_tests_pass:
  "test_register_and_relay_offer c" "test_full_offer_answer_ice_exchange c d"
  test_relay_to_unknown_peer_fails "test_unregister_peer c"
  test_unregister_nonexistent_returns_false "test_reregister_replaces_channel c d"
  "test_relay_after_unregister_fails c" "test_events_emitted_on_relay c"
  "test_registered_peers_listing c d e"
  by (simp_all add: test_register_and_relay_offer_def test_full_offer_answer_ice_exchange_def
      test_relay_to_unknown_peer_fails_def test_unregister_peer_def
      test_unregister_nonexistent_returns_false_def test_reregister_replaces_channel_def
      test_relay_after_unregister_fails_def test_events_emitted_on_relay_def
      test_registered_peers_listing_def test_eval hm_eval)

end
