(* ===== verification/Auth_Tests.thy ===== *)
theory Auth_Tests
  imports Auth Test_Script
begin

text \<open>
  The unit tests of \<open>p2p/src/crypto.rs\<close> and \<open>p2p/src/auth.rs\<close>, run on the model for every
  cryptographic library \<open>lib\<close> that behaves as documented (\<open>crypto_ok\<close>). A test that expects a
  forgery to be refused needs what Ed25519 promises of it, which its lemma assumes: a signature
  made with another key, or of another message, does not verify. The tests of serde round trips
  and of the freshness of random bytes are in \<open>Library_Tests\<close>.
\<close>

section \<open>Signatures\<close>

text \<open>\<open>PeerIdentity::generate().unwrap()\<close>; \<open>rand\<close> is the document the generator returns.\<close>
definition generated ::
    "'kp crypto_lib \<Rightarrow> bytes option \<Rightarrow> ('kp peer_identity \<Rightarrow> bool) \<Rightarrow> bool" where
  "generated lib rand rest = unwrap (identity_generate lib rand) rest"

definition test_generate_and_sign_verify :: "'kp crypto_lib \<Rightarrow> bytes option \<Rightarrow> bytes \<Rightarrow> bool" where
  "test_generate_and_sign_verify lib rand msg =
     generated lib rand (\<lambda>i.
       let sg = identity_sign lib i msg;
           pk = identity_public_key lib i
       in is_ok (crypto_verify lib pk msg sg))"

definition test_verify_rejects_wrong_message ::
    "'kp crypto_lib \<Rightarrow> bytes option \<Rightarrow> bytes \<Rightarrow> bytes \<Rightarrow> bool" where
  "test_verify_rejects_wrong_message lib rand correct wrong =
     generated lib rand (\<lambda>i.
       let sg = identity_sign lib i correct;
           pk = identity_public_key lib i
       in is_err (crypto_verify lib pk wrong sg))"

definition test_verify_rejects_wrong_key ::
    "'kp crypto_lib \<Rightarrow> bytes option \<Rightarrow> bytes option \<Rightarrow> bytes \<Rightarrow> bool" where
  "test_verify_rejects_wrong_key lib rand_a rand_b msg =
     generated lib rand_a (\<lambda>id_a. generated lib rand_b (\<lambda>id_b.
       let sg = identity_sign lib id_a msg
       in is_err (crypto_verify lib (identity_public_key lib id_b) msg sg)))"

text \<open>The generator returns the document of a key pair.\<close>
definition generates :: "'kp crypto_lib \<Rightarrow> bytes option \<Rightarrow> 'kp \<Rightarrow> bool" where
  "generates lib rand kp \<longleftrightarrow> (\<exists>der. rand = Some der \<and> kp_from_pkcs8 lib der = Some kp)"

lemma generatesD:
  assumes "generates lib rand kp"
  shows "\<exists>der. generated lib rand =
      (\<lambda>rest. rest \<lparr>pi_key_pair = kp, pi_pkcs8_der = der\<rparr>)"
  using assms
  by (auto simp: generates_def generated_def identity_generate_def identity_from_der_def fun_eq_iff)

lemma verify_iff:
  assumes "crypto_ok lib"
  shows "crypto_verify lib \<lparr>pk_key = b64_encode lib k\<rparr> m \<lparr>sig_sig = b64_encode lib s\<rparr> =
     (if ed_verify lib k m s then Ok () else Err CryptoVerificationFailed)"
  using assms by (simp add: crypto_verify_def b64_roundtrip)

lemma ed_verify_own: "crypto_ok lib \<Longrightarrow> ed_verify lib (kp_public lib kp) m (kp_sign lib kp m)"
  by (simp add: crypto_ok_def)

lemmas crypto_eval = b64_roundtrip verify_iff ed_verify_own

lemmas signature_eval [test_eval] = identity_sign_def identity_public_key_def

lemma generate_and_sign_verify_passes:
  assumes "crypto_ok lib" "generates lib rand kp"
  shows "test_generate_and_sign_verify lib rand msg"
proof -
  obtain dkp where gkp: "generated lib rand =
      (\<lambda>rest. rest \<lparr>pi_key_pair = kp, pi_pkcs8_der = dkp\<rparr>)"
    using generatesD [OF assms(2)] by blast
  show ?thesis
    using assms
    by (simp add: test_generate_and_sign_verify_def gkp test_eval hm_eval crypto_eval)
qed

lemma verify_rejects_wrong_message_passes:
  assumes "crypto_ok lib" "generates lib rand kp"
    and "\<not> ed_verify lib (kp_public lib kp) wrong (kp_sign lib kp correct)"
  shows "test_verify_rejects_wrong_message lib rand correct wrong"
proof -
  obtain dkp where gkp: "generated lib rand =
      (\<lambda>rest. rest \<lparr>pi_key_pair = kp, pi_pkcs8_der = dkp\<rparr>)"
    using generatesD [OF assms(2)] by blast
  show ?thesis
    using assms
    by (simp add: test_verify_rejects_wrong_message_def gkp test_eval hm_eval crypto_eval)
qed

lemma verify_rejects_wrong_key_passes:
  assumes "crypto_ok lib" "generates lib rand_a a" "generates lib rand_b b"
    and "\<not> ed_verify lib (kp_public lib b) msg (kp_sign lib a msg)"
  shows "test_verify_rejects_wrong_key lib rand_a rand_b msg"
proof -
  obtain da where ga: "generated lib rand_a =
      (\<lambda>rest. rest \<lparr>pi_key_pair = a, pi_pkcs8_der = da\<rparr>)"
    using generatesD [OF assms(2)] by blast
  obtain db where gb: "generated lib rand_b =
      (\<lambda>rest. rest \<lparr>pi_key_pair = b, pi_pkcs8_der = db\<rparr>)"
    using generatesD [OF assms(3)] by blast
  show ?thesis
    using assms
    by (simp add: test_verify_rejects_wrong_key_def ga gb test_eval hm_eval crypto_eval)
qed

section \<open>The handshake\<close>

definition make_authenticator ::
    "'kp crypto_lib \<Rightarrow> string \<Rightarrow> bytes option \<Rightarrow> ('kp peer_authenticator \<Rightarrow> bool) \<Rightarrow> bool" where
  "make_authenticator lib name rand rest =
     generated lib rand (\<lambda>identity. rest (authenticator_new (''agent:'' @ name) identity))"

text \<open>
  \<open>n\<close> is what the system generator hands out to Bob.
\<close>
definition test_full_mutual_auth_handshake ::
    "'kp crypto_lib \<Rightarrow> bytes option \<Rightarrow> bytes option \<Rightarrow> (nat \<Rightarrow> u8) \<Rightarrow> bool" where
  "test_full_mutual_auth_handshake lib rand_a rand_b n =
     make_authenticator lib ''alice'' rand_a (\<lambda>alice. make_authenticator lib ''bob'' rand_b (\<lambda>bob.
       let hello = make_hello lib alice;
           (bob, challenge) = handle_hello lib bob hello (Some n)
       in ah_agent_id hello = ''agent:alice''
          \<and> unwrap challenge (\<lambda>challenge.
              ac_agent_id challenge = ''agent:bob''
              \<and> unwrap_some (sign_challenge lib alice challenge) (\<lambda>response.
                  ar_agent_id response = ''agent:alice''
                  \<and> (let (bob, confirm) = handle_response lib bob response (ah_public_key hello)
                     in unwrap confirm (\<lambda>confirm.
                          af_agent_id confirm = ''agent:bob''
                          \<and> is_authenticated bob ''agent:alice''
                          \<and> (let (alice, peer) = handle_confirm lib alice confirm
                                   (ac_nonce challenge) (ac_public_key challenge)
                             in unwrap peer (\<lambda>peer. ap_agent_id peer = ''agent:bob'')
                                \<and> is_authenticated alice ''agent:bob'')))))))"

definition test_wrong_signature_rejected ::
    "'kp crypto_lib \<Rightarrow> bytes option \<Rightarrow> bytes option \<Rightarrow> bytes option \<Rightarrow> (nat \<Rightarrow> u8) \<Rightarrow> bool" where
  "test_wrong_signature_rejected lib rand_a rand_b rand_m n =
     make_authenticator lib ''alice'' rand_a (\<lambda>alice.
     make_authenticator lib ''bob'' rand_b (\<lambda>bob.
     make_authenticator lib ''mallory'' rand_m (\<lambda>mallory.
       let hello = make_hello lib alice;
           (bob, challenge) = handle_hello lib bob hello (Some n)
       in unwrap challenge (\<lambda>challenge.
            unwrap_some (sign_challenge lib mallory challenge) (\<lambda>forged_response.
              let forged = \<lparr>ar_agent_id = ''agent:alice'',
                    ar_signature = ar_signature forged_response\<rparr>;
                  (bob, result) = handle_response lib bob forged (ah_public_key hello)
              in is_err result \<and> \<not> is_authenticated bob ''agent:alice'')))))"

fun is_no_pending_challenge :: "(auth_error, 'a) result \<Rightarrow> bool" where
  "is_no_pending_challenge (Inl (NoPendingChallenge _)) = True"
| "is_no_pending_challenge _ = False"

text \<open>The bytes of the two literals the test encodes are arguments.\<close>
definition test_no_pending_challenge_rejected ::
    "'kp crypto_lib \<Rightarrow> bytes option \<Rightarrow> bytes \<Rightarrow> bytes \<Rightarrow> bool" where
  "test_no_pending_challenge_rejected lib rand_b fake_sig fake_key =
     make_authenticator lib ''bob'' rand_b (\<lambda>bob.
       let fake_response = \<lparr>ar_agent_id = ''agent:ghost'',
             ar_signature = \<lparr>sig_sig = b64_encode lib fake_sig\<rparr>\<rparr>;
           pk = \<lparr>pk_key = b64_encode lib fake_key\<rparr>;
           (bob, result) = handle_response lib bob fake_response pk
       in is_no_pending_challenge result)"

text \<open>The three steps by which \<open>bob\<close> authenticates \<open>alice\<close>, each unwrapped.\<close>
definition authenticates ::
    "'kp crypto_lib \<Rightarrow> 'kp peer_authenticator \<Rightarrow> 'kp peer_authenticator \<Rightarrow> (nat \<Rightarrow> u8)
      \<Rightarrow> ('kp peer_authenticator \<Rightarrow> bool) \<Rightarrow> bool" where
  "authenticates lib bob alice n rest =
     (let hello = make_hello lib alice;
          (bob, challenge) = handle_hello lib bob hello (Some n)
      in unwrap challenge (\<lambda>challenge. unwrap_some (sign_challenge lib alice challenge) (\<lambda>response.
           let (bob, confirm) = handle_response lib bob response (ah_public_key hello)
           in is_ok confirm \<and> rest bob)))"

definition test_remove_authenticated_peer ::
    "'kp crypto_lib \<Rightarrow> bytes option \<Rightarrow> bytes option \<Rightarrow> (nat \<Rightarrow> u8) \<Rightarrow> bool" where
  "test_remove_authenticated_peer lib rand_a rand_b n =
     make_authenticator lib ''alice'' rand_a (\<lambda>alice. make_authenticator lib ''bob'' rand_b (\<lambda>bob.
       authenticates lib bob alice n (\<lambda>bob.
         is_authenticated bob ''agent:alice''
         \<and> (let (bob, _) = auth_remove_peer bob ''agent:alice''
            in \<not> is_authenticated bob ''agent:alice''))))"

definition test_authenticated_peers_list ::
    "'kp crypto_lib \<Rightarrow> bytes option \<Rightarrow> bytes option \<Rightarrow> bytes option
      \<Rightarrow> (nat \<Rightarrow> u8) \<Rightarrow> (nat \<Rightarrow> u8) \<Rightarrow> bool" where
  "test_authenticated_peers_list lib rand_a rand_b rand_c n1 n2 =
     make_authenticator lib ''alice'' rand_a (\<lambda>alice.
     make_authenticator lib ''bob'' rand_b (\<lambda>bob.
     make_authenticator lib ''carol'' rand_c (\<lambda>carol.
       authenticates lib bob alice n1 (\<lambda>bob.
       authenticates lib bob carol n2 (\<lambda>bob.
         length (authenticated_peers bob) = 2)))))"

lemmas handshake_eval [test_eval] = authenticator_new_def make_hello_def handle_hello_def
  random_bytes_def sign_challenge_def handle_response_def handle_confirm_def
  is_authenticated_def auth_remove_peer_def authenticated_peers_def authenticates_def
  make_authenticator_def

lemma full_mutual_auth_handshake_passes:
  assumes "crypto_ok lib" "generates lib rand_a a" "generates lib rand_b b"
  shows "test_full_mutual_auth_handshake lib rand_a rand_b n"
proof -
  obtain da where ga: "generated lib rand_a =
      (\<lambda>rest. rest \<lparr>pi_key_pair = a, pi_pkcs8_der = da\<rparr>)"
    using generatesD [OF assms(2)] by blast
  obtain db where gb: "generated lib rand_b =
      (\<lambda>rest. rest \<lparr>pi_key_pair = b, pi_pkcs8_der = db\<rparr>)"
    using generatesD [OF assms(3)] by blast
  show ?thesis
    using assms
    by (simp add: test_full_mutual_auth_handshake_def ga gb test_eval hm_eval crypto_eval)
qed

lemma wrong_signature_rejected_passes:
  assumes "crypto_ok lib" "generates lib rand_a a" "generates lib rand_b b" "generates lib rand_m m"
    and "random_bytes CHALLENGE_LEN (Some n) = Ok c" "\<not> ed_verify lib (kp_public lib a) c (kp_sign lib m c)"
  shows "test_wrong_signature_rejected lib rand_a rand_b rand_m n"
proof -
  obtain da where ga: "generated lib rand_a =
      (\<lambda>rest. rest \<lparr>pi_key_pair = a, pi_pkcs8_der = da\<rparr>)"
    using generatesD [OF assms(2)] by blast
  obtain db where gb: "generated lib rand_b =
      (\<lambda>rest. rest \<lparr>pi_key_pair = b, pi_pkcs8_der = db\<rparr>)"
    using generatesD [OF assms(3)] by blast
  obtain dm where gm: "generated lib rand_m =
      (\<lambda>rest. rest \<lparr>pi_key_pair = m, pi_pkcs8_der = dm\<rparr>)"
    using generatesD [OF assms(4)] by blast
  show ?thesis
    using assms
    by (simp add: test_wrong_signature_rejected_def ga gb gm test_eval hm_eval crypto_eval)
qed

lemma no_pending_challenge_rejected_passes:
  assumes "generates lib rand_b b"
  shows "test_no_pending_challenge_rejected lib rand_b fake_sig fake_key"
proof -
  obtain db where gb: "generated lib rand_b =
      (\<lambda>rest. rest \<lparr>pi_key_pair = b, pi_pkcs8_der = db\<rparr>)"
    using generatesD [OF assms] by blast
  show ?thesis
    using assms
    by (simp add: test_no_pending_challenge_rejected_def gb test_eval hm_eval)
qed

lemma remove_authenticated_peer_passes:
  assumes "crypto_ok lib" "generates lib rand_a a" "generates lib rand_b b"
  shows "test_remove_authenticated_peer lib rand_a rand_b n"
proof -
  obtain da where ga: "generated lib rand_a =
      (\<lambda>rest. rest \<lparr>pi_key_pair = a, pi_pkcs8_der = da\<rparr>)"
    using generatesD [OF assms(2)] by blast
  obtain db where gb: "generated lib rand_b =
      (\<lambda>rest. rest \<lparr>pi_key_pair = b, pi_pkcs8_der = db\<rparr>)"
    using generatesD [OF assms(3)] by blast
  show ?thesis
    using assms
    by (simp add: test_remove_authenticated_peer_def ga gb test_eval hm_eval crypto_eval)
qed

lemma authenticated_peers_list_passes:
  assumes "crypto_ok lib" "generates lib rand_a a" "generates lib rand_b b" "generates lib rand_c c"
  shows "test_authenticated_peers_list lib rand_a rand_b rand_c n1 n2"
proof -
  obtain da where ga: "generated lib rand_a =
      (\<lambda>rest. rest \<lparr>pi_key_pair = a, pi_pkcs8_der = da\<rparr>)"
    using generatesD [OF assms(2)] by blast
  obtain db where gb: "generated lib rand_b =
      (\<lambda>rest. rest \<lparr>pi_key_pair = b, pi_pkcs8_der = db\<rparr>)"
    using generatesD [OF assms(3)] by blast
  obtain dc where gc: "generated lib rand_c =
      (\<lambda>rest. rest \<lparr>pi_key_pair = c, pi_pkcs8_der = dc\<rparr>)"
    using generatesD [OF assms(4)] by blast
  show ?thesis
    using assms
    by (simp add: test_authenticated_peers_list_def ga gb gc test_eval hm_eval crypto_eval)
qed

end
