(* ===== verification/Node_Tests.thy ===== *)
theory Node_Tests
  imports Node Room_State_Tests Rooms_Tests Matchmaking_Tests Discovery_Tests Relay_Tests
    Auth_Tests
begin

text \<open>
  The unit tests of \<open>p2p/src/node.rs\<close> and of \<open>p2p/src/events.rs\<close>, run on the model.
\<close>

definition test_no_subscribers_does_not_panic :: bool where
  "test_no_subscribers_does_not_panic =
     (let count = emit (\<lambda>_. None) (PeerDeparted ''agent:bob'' ''mesh:test'') in count = 0)"

lemma no_subscribers_does_not_panic_passes: test_no_subscribers_does_not_panic
  by (simp add: test_no_subscribers_does_not_panic_def emit_def)

text \<open>
  Tests that read from the bus. \<open>send\<close> and \<open>receive\<close> stand for \<open>send\<close> and \<open>recv\<close> of the broadcast channel;
  \<open>delivers\<close> is what is documented of them: a receiver gets the value that is sent after it
  subscribed.
\<close>
definition delivers ::
    "('ch, 'rx) broadcast_lib \<Rightarrow> ('ch \<Rightarrow> event \<Rightarrow> 'ch \<times> nat option) \<Rightarrow> ('ch \<Rightarrow> 'rx \<Rightarrow> event option) \<Rightarrow> bool"
  where
  "delivers lib send receive \<longleftrightarrow>
     (\<forall>capacity ev. capacity \<noteq> 0 \<longrightarrow>
        (let (tx, rx) = bc_subscribe lib (bc_channel lib capacity) in receive (fst (send tx ev)) rx = Some ev))"

definition test_emit_and_receive ::
    "('ch, 'rx) broadcast_lib \<Rightarrow> ('ch \<Rightarrow> event \<Rightarrow> 'ch \<times> nat option) \<Rightarrow> ('ch \<Rightarrow> 'rx \<Rightarrow> event option) \<Rightarrow> bool"
  where
  "test_emit_and_receive lib send receive =
     (let bus = event_bus_default lib;
          (bus, rx) = event_bus_subscribe lib bus;
          ev = PeerAnnounced ''agent:alice'' ''mesh:test'';
          (tx, sent) = send (eb_tx bus) ev;
          count = emit (\<lambda>_. sent) ev
      in unwrap_some (receive tx rx) (\<lambda>event.
           case event of
             PeerAnnounced agent_id mesh_id \<Rightarrow> agent_id = ''agent:alice'' \<and> mesh_id = ''mesh:test''
           | _ \<Rightarrow> False))"

definition test_patch_ready_convenience ::
    "('ch, 'rx) broadcast_lib \<Rightarrow> ('ch \<Rightarrow> event \<Rightarrow> 'ch \<times> nat option) \<Rightarrow> ('ch \<Rightarrow> 'rx \<Rightarrow> event option) \<Rightarrow> bool"
  where
  "test_patch_ready_convenience lib send receive =
     (let bus = event_bus_default lib;
          (bus, rx) = event_bus_subscribe lib bus;
          (tx, sent) = send (eb_tx bus) (PatchReady ''mesh:golf'' ''peer joined'');
          count = emit_patch_ready (\<lambda>_. sent) ''mesh:golf'' ''peer joined''
      in unwrap_some (receive tx rx) (\<lambda>event.
           case event of
             PatchReady mesh_id description \<Rightarrow> mesh_id = ''mesh:golf'' \<and> description = ''peer joined''
           | _ \<Rightarrow> False))"

lemma bus_tests_pass:
  assumes "delivers lib send receive"
  shows "test_emit_and_receive lib send receive" "test_patch_ready_convenience lib send receive"
proof -
  obtain tx rx where bus: "bc_subscribe lib (bc_channel lib 256) = (tx, rx)"
    by fastforce
  have got: "receive (fst (send tx ev)) rx = Some ev" for ev
    using assms [unfolded delivers_def, rule_format, of 256 ev] by (simp add: bus)
  then have "receive tx' rx = Some ev" if "send tx ev = (tx', n)" for tx' n ev
    using that by (metis fst_conv)
  then show "test_emit_and_receive lib send receive" "test_patch_ready_convenience lib send receive"
    by (simp_all add: test_emit_and_receive_def test_patch_ready_convenience_def event_bus_default_def
        event_bus_new_def event_bus_subscribe_def DEFAULT_CAPACITY_def bus split: prod.split)
qed

text \<open>\<open>MeshNode::new(agent_id, mesh_id).unwrap()\<close>, where a panic fails the test too.\<close>
definition started ::
    "'kp crypto_lib \<Rightarrow> string \<Rightarrow> string \<Rightarrow> bytes option \<Rightarrow> (('kp, 'v) mesh_node \<Rightarrow> bool) \<Rightarrow> bool" where
  "started lib agent_id mesh_id rand rest =
     unwrap_some (node_new lib agent_id mesh_id rand) (\<lambda>r. unwrap r rest)"

text \<open>
  The test takes \<open>ready\<close>, the id \<open>u\<close> of the match request, a channel and the readings of the clock
  from outside.
\<close>
definition test_node_subsystem_integration ::
    "'kp crypto_lib \<Rightarrow> bytes option \<Rightarrow> 'v \<Rightarrow> string \<Rightarrow> chan \<Rightarrow> (nat \<Rightarrow> timestamp) \<Rightarrow> bool" where
  "test_node_subsystem_integration lib rand ready u c t =
     started lib ''agent:alice'' ''mesh:test'' rand (\<lambda>node.
       let (registry, _, _) = handle_announce (nd_registry node)
             \<lparr>am_agent_id = ''agent:bob'', am_mesh_id = ''mesh:test'', am_display_name = ''Bob'',
              am_status = Available, am_capabilities = [''matchmaking'']\<rparr> (t 1);
           (rooms, _) = create_room (nd_rooms node) ''room:lobby'' ''Lobby'' None (t 2);
           (rooms, _, joined) = join_room rooms ''room:lobby'' ''agent:alice'';
           state = init_room (nd_state node) ''room:lobby'';
           (state, _, r) = sync_set state ''room:lobby'' ''agent:alice'' ''status'' ready (t 3);
           (relay, _) = relay_register (nd_relay node) ''agent:alice'' c;
           (_, _, req) = submit_request (nd_matchmaker node) ''agent:alice'' ''golf-18''
             \<lparr>skr_min = Finite 50, skr_max = Finite 80\<rparr>
             \<lparr>tw_start = t 4, tw_end = t 5 + hours 2\<rparr> u (t 6)
       in registry_peer_count registry = 1
          \<and> is_ok joined
          \<and> unwrap (member_count rooms ''room:lobby'') (\<lambda>n. n = 1)
          \<and> is_ok r
          \<and> unwrap (sync_get state ''room:lobby'' ''status'') (\<lambda>entry. se_value entry = ready)
          \<and> relay_is_registered relay ''agent:alice''
          \<and> mr_request_id req \<noteq> [])"

definition test_node_accessors :: "'v itself \<Rightarrow> 'kp crypto_lib \<Rightarrow> bytes option \<Rightarrow> bool" where
  "test_node_accessors _ lib rand =
     started lib ''agent:alice'' ''mesh:golf-sim'' rand (\<lambda>node :: ('kp, 'v) mesh_node.
       nd_agent_id node = ''agent:alice'' \<and> nd_mesh_id node = ''mesh:golf-sim''
       \<and> pk_key (node_public_key lib node) \<noteq> [])"

definition test_node_sign :: "'v itself \<Rightarrow> 'kp crypto_lib \<Rightarrow> bytes option \<Rightarrow> bytes \<Rightarrow> bool" where
  "test_node_sign _ lib rand msg =
     started lib ''agent:alice'' ''mesh:test'' rand (\<lambda>node :: ('kp, 'v) mesh_node.
       let sg = node_sign lib node msg;
           pk = node_public_key lib node
       in sig_sig sg \<noteq> [] \<and> is_ok (crypto_verify lib pk msg sg))"

definition fresh_node :: "'kp \<Rightarrow> bytes \<Rightarrow> string \<Rightarrow> string \<Rightarrow> ('kp, 'v) mesh_node" where
  "fresh_node kp der a m =
     \<lparr>nd_agent_id = a, nd_mesh_id = m, nd_identity = \<lparr>pi_key_pair = kp, pi_pkcs8_der = der\<rparr>,
      nd_registry = registry_new m,
      nd_auth = authenticator_new a \<lparr>pi_key_pair = kp, pi_pkcs8_der = der\<rparr>,
      nd_rooms = room_manager_new m, nd_state = sync_new m, nd_gossip = gossip_router_new a,
      nd_relay = signal_relay_new, nd_matchmaker = matchmaker_new m,
      nd_federation = federation_router_new m\<rparr>"

lemma startedD:
  assumes "generates lib rand kp"
  shows "\<exists>der. \<forall>a m. started lib a m rand = (\<lambda>rest. rest (fresh_node kp der a m))"
  using assms
  by (auto simp: generates_def started_def node_new_def identity_generate_def
      identity_from_der_def node_with_identity_def clone_for_auth_def fresh_node_def fun_eq_iff)

lemma node_subsystem_integration_passes:
  fixes ready :: "'v" and lib :: "'kp crypto_lib"
  assumes "generates lib rand kp" "u \<noteq> []"
  shows "test_node_subsystem_integration lib rand ready u c t"
proof -
  obtain der where node: "\<forall>a m. started lib a m rand =
      (\<lambda>rest :: ('kp, 'v) mesh_node \<Rightarrow> bool. rest (fresh_node kp der a m))"
    using startedD [OF assms(1)] by blast
  show ?thesis
    using assms(2)
    by (simp add: test_node_subsystem_integration_def node fresh_node_def test_eval hm_eval)
qed

text \<open>Base64 of a byte string that is not empty is not empty.\<close>
lemma node_accessors_passes:
  fixes v :: "'v itself" and lib :: "'kp crypto_lib"
  assumes "generates lib rand kp" "b64_encode lib (kp_public lib kp) \<noteq> []"
  shows "test_node_accessors v lib rand"
proof -
  obtain der where node: "\<forall>a m. started lib a m rand =
      (\<lambda>rest :: ('kp, 'v) mesh_node \<Rightarrow> bool. rest (fresh_node kp der a m))"
    using startedD [OF assms(1)] by blast
  show ?thesis
    using assms(2)
    by (simp add: test_node_accessors_def node fresh_node_def node_public_key_def test_eval)
qed

lemma node_sign_passes:
  fixes v :: "'v itself" and lib :: "'kp crypto_lib"
  assumes "crypto_ok lib" "generates lib rand kp" "b64_encode lib (kp_sign lib kp msg) \<noteq> []"
  shows "test_node_sign v lib rand msg"
proof -
  obtain der where node: "\<forall>a m. started lib a m rand =
      (\<lambda>rest :: ('kp, 'v) mesh_node \<Rightarrow> bool. rest (fresh_node kp der a m))"
    using startedD [OF assms(2)] by blast
  show ?thesis
    using assms(1,3) by (simp add: test_node_sign_def node fresh_node_def node_sign_def
        node_public_key_def test_eval crypto_eval)
qed

end
