(* ===== verification/Gateway_Tests.thy ===== *)
theory Gateway_Tests
  imports Gateway_Routes Node_Tests
begin

text \<open>
  The unit tests of \<open>gateway/src/main.rs\<close>, run on the model: first the state they start from, the
  JSON values they build and the paths they request, then the tests of the envelope endpoint, the
  peers, the relay, gossip, federation and authentication. A request is the assertion \<open>reaches\<close>
  (its path leads to the handler) and the call of the handler on the decoded body; the decoding is
  axum's. The other endpoints are in \<open>Gateway_Api_Tests\<close>.
\<close>

section \<open>Set-up\<close>

text \<open>The accessors of \<open>serde_json::Value\<close> are those of the values \<open>serde_json::json!\<close> builds.\<close>
datatype json =
    JNull
  | JBool bool
  | JNum rat
  | JString string
  | JArray "json list"
  | JObject "(string \<times> json) list"

fun json_get :: "json \<Rightarrow> string \<Rightarrow> json option" where
  "json_get (JObject kvs) k = map_of kvs k"
| "json_get _ k = None"

fun json_as_str :: "json \<Rightarrow> string option" where
  "json_as_str (JString s) = Some s"
| "json_as_str _ = None"

fun json_as_array :: "json \<Rightarrow> json list option" where
  "json_as_array (JArray vs) = Some vs"
| "json_as_array _ = None"

fun json_as_f64 :: "json \<Rightarrow> f64 option" where
  "json_as_f64 (JNum x) = Some (Finite x)"
| "json_as_f64 _ = None"

text \<open>
  What a test takes from outside: the cryptographic library, the key pair the gateway generates
  (and its document), how JSON and times are parsed and printed, and for the \<open>i\<close>-th request the
  channel, the id and the random bytes its handler draws and its readings of the clock.
\<close>
record 'kp world =
  w_lib :: "'kp crypto_lib"
  w_kp :: 'kp
  w_der :: bytes
  w_to_vec :: "json \<Rightarrow> bytes option"
  w_from_value :: "json \<Rightarrow> (string, json envelope) result"
  w_parse_time :: "string \<Rightarrow> timestamp option"
  w_print_time :: "timestamp \<Rightarrow> string"
  w_chan :: "nat \<Rightarrow> chan"
  w_uuid :: "nat \<Rightarrow> string"
  w_rand :: "nat \<Rightarrow> nat \<Rightarrow> u8"
  w_clk :: "nat \<Rightarrow> nat \<Rightarrow> timestamp"

definition w_js :: "'kp world \<Rightarrow> json json_lib" where
  "w_js w = \<lparr>j_get = json_get, j_as_str = json_as_str, j_as_array = json_as_array,
     j_as_f64 = json_as_f64, j_to_vec = w_to_vec w, j_envelope = w_from_value w,
     parse_time = w_parse_time w, to_rfc3339 = w_print_time w\<rparr>"

text \<open>\<open>test_state()\<close>: the gateway over \<open>MeshNode::new("node-test", "mesh-test").unwrap()\<close>.\<close>
definition test_state :: "'kp world \<Rightarrow> ('kp, json) app_state" where
  "test_state w = gateway_start (fresh_node (w_kp w) (w_der w) ''node-test'' ''mesh-test'')"

lemma test_state_made:
  assumes "kp_from_pkcs8 (w_lib w) (w_der w) = Some (w_kp w)"
  shows "node_new (w_lib w) ''node-test'' ''mesh-test'' (Some (w_der w)) = Some (Ok (gw_node (test_state w)))"
  using assms by (simp add: test_state_def gateway_start_def fresh_node_def node_new_def
      identity_generate_def identity_from_der_def node_with_identity_def clone_for_auth_def)

text \<open>The timestamp is \<open>2026-02-20T12:00:00Z\<close>.\<close>
definition make_envelope :: "intent \<Rightarrow> policy \<Rightarrow> json \<Rightarrow> json envelope" where
  "make_envelope intent policy payload =
     \<lparr>en_schema_version = ''0.1'', en_intent = intent, en_capability = ''matchmaking'',
      en_policy = policy, en_timestamp = 1771588800000000000,
      en_sender = \<lparr>sd_agent_id = ''agent-alice'', sd_mesh_id = ''mesh-test''\<rparr>,
      en_payload = payload, en_signature = None, en_signing_key = None, en_expiry = None\<rparr>"

text \<open>The payload of an announcement.\<close>
definition peer_payload :: "string \<Rightarrow> string list \<Rightarrow> string \<Rightarrow> json" where
  "peer_payload name supports status =
     JObject [(''display_name'', JString name), (''supports'', JArray (map JString supports)),
       (''status'', JString status)]"

text \<open>A request for the path with these segments reaches the handler with these parameters.\<close>
definition reaches :: "http_method \<Rightarrow> string list \<Rightarrow> handler \<Rightarrow> string list \<Rightarrow> bool" where
  "reaches meth path h args \<longleftrightarrow> serve priority_router meth path = Handled h args"

text \<open>The response is an error with this status (and, for \<open>refused_as\<close>, this error code).\<close>
definition refused :: "status_code \<Rightarrow> (http_error, 'a) result \<Rightarrow> bool" where
  "refused status r = (case r of Inl e \<Rightarrow> fst e = status | Inr _ \<Rightarrow> False)"

definition refused_as :: "status_code \<Rightarrow> string \<Rightarrow> (http_error, 'a) result \<Rightarrow> bool" where
  "refused_as status error r =
     (case r of Inl e \<Rightarrow> fst e = status \<and> er_error (snd e) = error | Inr _ \<Rightarrow> False)"

lemma refused_simps [simp]:
  "refused st (Ok x) = False" "refused_as st er (Ok x) = False"
  "refused st (Err (http_err st' er' d)) \<longleftrightarrow> st' = st"
  "refused_as st er (Err (http_err st' er' d)) \<longleftrightarrow> st' = st \<and> er' = er"
  by (simp_all add: refused_def refused_as_def http_err_def)

text \<open>The response \<open>RouteResponse\<close> with this status and intent, under the HTTP status \<open>ACCEPTED\<close>.\<close>
definition accepted :: "string \<Rightarrow> intent \<Rightarrow> (http_error, status_code \<times> route_response) result \<Rightarrow> bool" where
  "accepted status intent r =
     (case r of Inl _ \<Rightarrow> False
      | Inr (st, body) \<Rightarrow> st = ACCEPTED \<and> rr_status body = status \<and> rr_intent body = intent)"

definition is_accepted :: "(http_error, status_code \<times> route_response) result \<Rightarrow> bool" where
  "is_accepted r = (case r of Inl _ \<Rightarrow> False | Inr (st, _) \<Rightarrow> st = ACCEPTED)"

definition is_created :: "(http_error, status_code \<times> 'a) result \<Rightarrow> bool" where
  "is_created r = (case r of Inl _ \<Rightarrow> False | Inr (st, _) \<Rightarrow> st = CREATED)"

text \<open>The \<open>i\<close>-th request of a test, a \<open>POST\<close> of an envelope.\<close>
definition post_envelope ::
    "'kp world \<Rightarrow> nat \<Rightarrow> ('kp, json) app_state \<Rightarrow> json envelope
      \<Rightarrow> ('kp, json) app_state \<times> event list \<times> (http_error, status_code \<times> route_response) result" where
  "post_envelope w i gw env =
     route_envelope (w_lib w) (w_js w) gw env (w_chan w i) (w_uuid w i) (w_clk w i)"

lemmas response_eval [test_eval] = refused_def refused_as_def http_err_def accepted_def
  is_accepted_def is_created_def

lemmas gateway_setup [test_eval] = test_state_def gateway_start_def fresh_node_def w_js_def
  make_envelope_def peer_payload_def post_envelope_def payload_str_def payload_time_def

lemmas route_eval = reaches_def serve_def priority_router_def patterns_def routes_def
  pattern_matches_def captures_def par_shape_def

lemma envelope_paths [test_eval]:
  "reaches Get [''healthz''] HHealth []"
  "reaches Post [''v0'', ''envelope''] HRouteEnvelope []"
  "reaches Get [''v0'', ''peers''] HListPeers []"
  "reaches Get [''v0'', ''peers'', ''search''] HSearchPeers []"
  by (simp_all add: route_eval)

lemma service_paths [test_eval]:
  "reaches Get [''v0'', ''signal'', ''status''] HRelayStatus []"
  "reaches Post [''v0'', ''signal'', ''relay''] HRelaySignal []"
  "reaches Get [''v0'', ''gossip'', ''status''] HGossipStatus []"
  "reaches Post [''v0'', ''gossip'', ''exchange''] HGossipExchange []"
  "reaches Post [''v0'', ''auth'', ''hello''] HAuthHello []"
  "reaches Post [''v0'', ''auth'', ''respond''] HAuthRespond []"
  "reaches Get [''v0'', ''auth'', ''peers''] HListAuthenticatedPeers []"
  "reaches Post [''v0'', ''maintenance'', ''purge''] HPurgeExpired []"
  by (simp_all add: route_eval)

lemma federation_paths [test_eval]:
  "reaches Get [''v0'', ''federation'', ''status''] HFederationStatus []"
  "reaches Get [''v0'', ''federation'', ''links''] HListFederationLinks []"
  "reaches Post [''v0'', ''federation'', ''links''] HCreateFederationLink []"
  "reaches Post [''v0'', ''federation'', ''relay''] HFederationRelay []"
  "m \<noteq> [] \<Longrightarrow> reaches Delete [''v0'', ''federation'', ''links'', m] HRemoveFederationLink [m]"
  by (simp_all add: route_eval)

section \<open>Health, envelopes\<close>

definition test_health_check :: bool where
  "test_health_check =
     (let (status, service) = health
      in reaches Get [''healthz''] HHealth [] \<and> status = ''ok'' \<and> service = ''clawmesh-gateway'')"

definition test_envelope_announce_accepted :: "'kp world \<Rightarrow> bool" where
  "test_envelope_announce_accepted w =
     (let gw = test_state w;
          envelope = make_envelope Announce Public
            (peer_payload ''Alice'' [''matchmaking''] ''available'');
          (gw, _, resp) = post_envelope w 1 gw envelope
      in reaches Post [''v0'', ''envelope''] HRouteEnvelope []
         \<and> accepted ''accepted'' Announce resp)"

definition test_envelope_registers_peer :: "'kp world \<Rightarrow> bool" where
  "test_envelope_registers_peer w =
     (let gw = test_state w;
          envelope = make_envelope Announce Public
            (peer_payload ''Bob'' [''matchmaking''] ''busy'');
          (gw, _, resp) = post_envelope w 1 gw envelope;
          peers = gw_list_peers gw
      in is_accepted resp
         \<and> reaches Get [''v0'', ''peers''] HListPeers []
         \<and> length peers = 1
         \<and> pe_agent_id (peers ! 0) = ''agent-alice''
         \<and> pe_display_name (peers ! 0) = ''Bob''
         \<and> pe_status (peers ! 0) = Busy)"

definition test_envelope_request_match_accepted :: "'kp world \<Rightarrow> bool" where
  "test_envelope_request_match_accepted w =
     (let gw = test_state w;
          envelope = make_envelope RequestMatch Public
            (JObject [(''game'', JString ''golf-18''),
               (''skill_range'', JObject [(''min'', JNum 50), (''max'', JNum 80)]),
               (''time_window'', JObject [(''start'', JString ''2026-02-20T14:00:00Z''),
                  (''end'', JString ''2026-02-20T16:00:00Z'')])]);
          (gw, _, resp) = post_envelope w 1 gw envelope
      in is_accepted resp \<and> unwrap resp (\<lambda>(_, body). rr_intent body = RequestMatch))"

definition test_envelope_schedule_accepted :: "'kp world \<Rightarrow> bool" where
  "test_envelope_schedule_accepted w =
     (let gw = test_state w;
          envelope = make_envelope Schedule Public
            (JObject [(''slot_start'', JString ''2026-02-20T14:00:00Z''),
               (''slot_end'', JString ''2026-02-20T16:00:00Z''), (''state'', JString ''proposed'')]);
          (gw, _, resp) = post_envelope w 1 gw envelope
      in is_accepted resp \<and> unwrap resp (\<lambda>(_, body). rr_intent body = Schedule))"

definition test_envelope_offer_accepted :: "'kp world \<Rightarrow> bool" where
  "test_envelope_offer_accepted w =
     (let gw = test_state w;
          envelope = make_envelope Offer Public
            (JObject [(''offer_id'', JString ''offer-1''),
               (''summary'', JString ''Join my golf round''),
               (''expires_at'', JString ''2026-02-21T00:00:00Z'')]);
          (gw, _, resp) = post_envelope w 1 gw envelope
      in is_accepted resp \<and> unwrap resp (\<lambda>(_, body). rr_intent body = Offer))"

definition test_envelope_rejects_bad_schema_version :: "'kp world \<Rightarrow> bool" where
  "test_envelope_rejects_bad_schema_version w =
     (let gw = test_state w;
          envelope = (make_envelope Announce Public (peer_payload ''X'' [] ''available''))
            \<lparr>en_schema_version := ''999.0''\<rparr>;
          (gw, _, resp) = post_envelope w 1 gw envelope
      in refused_as BAD_REQUEST ''invalid_schema_version'' resp)"

lemmas envelope_eval [test_eval] = health_def route_envelope_def check_version_def
  PROTOCOL_VERSION_def check_expiry_def enforce_policy_def check_signature_def
  dispatch_intent_def route_announce_def route_request_match_def route_schedule_def
  route_offer_def parse_status_def gw_list_peers_def gw_search_peers_def

lemma health_check_passes: test_health_check
  by (simp add: test_health_check_def test_eval)

lemma envelope_announce_accepted_passes: "test_envelope_announce_accepted w"
  by (simp add: test_envelope_announce_accepted_def test_eval hm_eval)

lemma envelope_registers_peer_passes: "test_envelope_registers_peer w"
  by (simp add: test_envelope_registers_peer_def test_eval hm_eval)

lemma envelope_request_match_accepted_passes: "test_envelope_request_match_accepted w"
  by (simp add: test_envelope_request_match_accepted_def test_eval hm_eval)

lemma envelope_schedule_accepted_passes: "test_envelope_schedule_accepted w"
  by (simp add: test_envelope_schedule_accepted_def test_eval hm_eval)

lemma envelope_offer_accepted_passes: "test_envelope_offer_accepted w"
  by (simp add: test_envelope_offer_accepted_def test_eval hm_eval)

lemma envelope_rejects_bad_schema_version_passes: "test_envelope_rejects_bad_schema_version w"
  by (simp add: test_envelope_rejects_bad_schema_version_def test_eval hm_eval)

section \<open>Policies and expiry\<close>

definition test_policy_mesh_only_wrong_mesh_rejected :: "'kp world \<Rightarrow> bool" where
  "test_policy_mesh_only_wrong_mesh_rejected w =
     (let gw = test_state w;
          envelope = make_envelope Announce MeshOnly (peer_payload ''X'' [] ''available'');
          envelope = envelope\<lparr>en_sender := (en_sender envelope)\<lparr>sd_mesh_id := ''mesh-other''\<rparr>\<rparr>;
          (gw, _, resp) = post_envelope w 1 gw envelope
      in refused_as FORBIDDEN ''policy_violation'' resp)"

definition test_policy_mesh_only_correct_mesh_accepted :: "'kp world \<Rightarrow> bool" where
  "test_policy_mesh_only_correct_mesh_accepted w =
     (let gw = test_state w;
          envelope = make_envelope Announce MeshOnly (peer_payload ''X'' [] ''available'');
          (gw, _, resp) = post_envelope w 1 gw envelope
      in is_accepted resp)"

definition test_policy_private_unregistered_peer_rejected :: "'kp world \<Rightarrow> bool" where
  "test_policy_private_unregistered_peer_rejected w =
     (let gw = test_state w;
          envelope = make_envelope Announce Private (peer_payload ''X'' [] ''available'');
          (gw, _, resp) = post_envelope w 1 gw envelope
      in refused_as FORBIDDEN ''policy_violation'' resp)"

definition test_policy_private_registered_peer_accepted :: "'kp world \<Rightarrow> bool" where
  "test_policy_private_registered_peer_accepted w =
     (let gw = test_state w;
          announce = make_envelope Announce Public (peer_payload ''Alice'' [] ''available'');
          (gw, _, _) = post_envelope w 1 gw announce;
          private_env = make_envelope Announce Private (peer_payload ''Alice v2'' [''chat''] ''busy'');
          (gw, _, resp) = post_envelope w 2 gw private_env
      in is_accepted resp)"

text \<open>The expiry is \<open>2020-01-01T00:00:00Z\<close>.\<close>
definition test_expired_envelope_rejected :: "'kp world \<Rightarrow> bool" where
  "test_expired_envelope_rejected w =
     (let gw = test_state w;
          envelope = (make_envelope Announce Public (peer_payload ''X'' [] ''available''))
            \<lparr>en_expiry := Some 1577836800000000000\<rparr>;
          (gw, _, resp) = post_envelope w 1 gw envelope
      in refused_as GONE ''envelope_expired'' resp)"

text \<open>The expiry is \<open>2030-12-31T23:59:59Z\<close>.\<close>
definition test_future_expiry_accepted :: "'kp world \<Rightarrow> bool" where
  "test_future_expiry_accepted w =
     (let gw = test_state w;
          envelope = (make_envelope Announce Public (peer_payload ''X'' [] ''available''))
            \<lparr>en_expiry := Some 1924991999000000000\<rparr>;
          (gw, _, resp) = post_envelope w 1 gw envelope
      in is_accepted resp)"

definition test_no_expiry_accepted :: "'kp world \<Rightarrow> bool" where
  "test_no_expiry_accepted w =
     (let gw = test_state w;
          envelope = make_envelope Announce Public (peer_payload ''X'' [] ''available'');
          (gw, _, resp) = post_envelope w 1 gw envelope
      in is_accepted resp)"

lemma policy_tests_pass:
  "test_policy_mesh_only_wrong_mesh_rejected w" "test_policy_mesh_only_correct_mesh_accepted w"
  "test_policy_private_unregistered_peer_rejected w" "test_no_expiry_accepted w"
  by (simp_all add: test_policy_mesh_only_wrong_mesh_rejected_def
      test_policy_mesh_only_correct_mesh_accepted_def
      test_policy_private_unregistered_peer_rejected_def test_no_expiry_accepted_def
      test_eval hm_eval)

lemma policy_private_registered_peer_accepted_passes:
  "test_policy_private_registered_peer_accepted w"
  by (simp add: test_policy_private_registered_peer_accepted_def test_eval hm_eval)

text \<open>The machine's clock shows a time after the expiry of the one and before that of the other.\<close>
lemma expired_envelope_rejected_passes:
  "1577836800000000000 < w_clk w 1 0 \<Longrightarrow> test_expired_envelope_rejected w"
  by (simp add: test_expired_envelope_rejected_def test_eval hm_eval)

lemma future_expiry_accepted_passes:
  "w_clk w 1 0 \<le> 1924991999000000000 \<Longrightarrow> test_future_expiry_accepted w"
  by (simp add: test_future_expiry_accepted_def test_eval hm_eval)

section \<open>Peers, signals, gossip\<close>

definition test_search_peers_by_status :: "'kp world \<Rightarrow> bool" where
  "test_search_peers_by_status w =
     (let gw = test_state w;
          env1 = make_envelope Announce Public (peer_payload ''Alice'' [] ''available'');
          (gw, _, _) = post_envelope w 1 gw env1;
          env2 = make_envelope Announce Public (peer_payload ''Bob'' [] ''busy'');
          env2 = env2\<lparr>en_sender := (en_sender env2)\<lparr>sd_agent_id := ''agent-bob''\<rparr>\<rparr>;
          (gw, _, _) = post_envelope w 2 gw env2;
          peers = gw_search_peers gw
            \<lparr>psq_capability = None, psq_status = Some ''busy'', psq_mesh_id = None\<rparr>
      in reaches Get [''v0'', ''peers'', ''search''] HSearchPeers []
         \<and> length peers = 1 \<and> pe_agent_id (peers ! 0) = ''agent-bob'')"

definition test_signal_relay_status :: "'kp world \<Rightarrow> bool" where
  "test_signal_relay_status w =
     (let (status, _) = relay_status (test_state w)
      in reaches Get [''v0'', ''signal'', ''status''] HRelayStatus [] \<and> status = ''ok'')"

definition test_signal_relay_to_unknown_peer :: "'kp world \<Rightarrow> bool" where
  "test_signal_relay_to_unknown_peer w =
     (let msg = SigOffer \<lparr>so_from = ''agent-alice'', so_to = ''agent-nobody'',
            so_sdp = ''v=0'' @ [CHR 0x0D, CHR 0x0A] @ ''...''\<rparr>;
          (_, _, resp) = gw_relay_signal (test_state w) msg
      in reaches Post [''v0'', ''signal'', ''relay''] HRelaySignal [] \<and> refused NOT_FOUND resp)"

text \<open>That \<open>node_id\<close> is a string is its type here.\<close>
definition test_gossip_status :: "'kp world \<Rightarrow> bool" where
  "test_gossip_status w =
     (let (node_id, _, _) = gossip_status (test_state w)
      in reaches Get [''v0'', ''gossip'', ''status''] HGossipStatus [] \<and> node_id = ''node-test'')"

definition test_gossip_pull_exchange :: "'kp world \<Rightarrow> bool" where
  "test_gossip_pull_exchange w =
     (let pull = Pull \<lparr>gpull_from = ''node-remote'', gpull_digests = []\<rparr>;
          (_, _, status, _) = gossip_exchange (test_state w) pull
      in reaches Post [''v0'', ''gossip'', ''exchange''] HGossipExchange [] \<and> status = ''ok'')"

lemmas [test_eval] = relay_status_def gw_relay_signal_def gossip_status_def
  gossip_router_new_def

lemma search_peers_by_status_passes: "test_search_peers_by_status w"
  by (simp add: test_search_peers_by_status_def test_eval hm_eval)

lemma signal_and_gossip_tests_pass:
  "test_signal_relay_status w" "test_signal_relay_to_unknown_peer w" "test_gossip_status w"
  "test_gossip_pull_exchange w"
  by (simp_all add: test_signal_relay_status_def test_signal_relay_to_unknown_peer_def
      test_gossip_status_def test_gossip_pull_exchange_def test_eval)

section \<open>Federation\<close>

text \<open>The \<open>i\<close>-th request, a \<open>POST\<close> of a link.\<close>
definition post_link ::
    "'kp world \<Rightarrow> nat \<Rightarrow> ('kp, json) app_state \<Rightarrow> string \<Rightarrow> string option
      \<Rightarrow> ('kp, json) app_state \<times> event list \<times> (http_error, status_code \<times> string \<times> string) result" where
  "post_link w i gw mesh_id label = create_federation_link gw mesh_id label (w_chan w i) (w_clk w i 0)"

definition test_federation_status_returns_local_mesh :: "'kp world \<Rightarrow> bool" where
  "test_federation_status_returns_local_mesh w =
     (let (local_mesh_id, linked) = federation_status (test_state w)
      in reaches Get [''v0'', ''federation'', ''status''] HFederationStatus []
         \<and> local_mesh_id = ''mesh-test'' \<and> linked = 0)"

definition test_create_and_list_federation_links :: "'kp world \<Rightarrow> bool" where
  "test_create_and_list_federation_links w =
     (let gw = test_state w;
          (gw, _, resp) = post_link w 1 gw ''mesh-remote'' (Some ''Remote Mesh'');
          links = list_federation_links gw;
          (_, linked) = federation_status gw
      in reaches Post [''v0'', ''federation'', ''links''] HCreateFederationLink []
         \<and> is_created resp
         \<and> unwrap resp (\<lambda>(_, status, mesh_id). status = ''linked'' \<and> mesh_id = ''mesh-remote'')
         \<and> reaches Get [''v0'', ''federation'', ''links''] HListFederationLinks []
         \<and> length links = 1 \<and> ml_mesh_id (links ! 0) = ''mesh-remote''
         \<and> linked = 1)"

definition test_remove_federation_link :: "'kp world \<Rightarrow> bool" where
  "test_remove_federation_link w =
     (let gw = test_state w;
          (gw, _, _) = post_link w 1 gw ''mesh-remote'' None;
          (gw, _, resp) = remove_federation_link gw ''mesh-remote''
      in reaches Delete [''v0'', ''federation'', ''links'', ''mesh-remote'']
           HRemoveFederationLink [''mesh-remote'']
         \<and> unwrap resp (\<lambda>(status, _). status = ''unlinked'')
         \<and> list_federation_links gw = [])"

definition test_duplicate_federation_link_returns_conflict :: "'kp world \<Rightarrow> bool" where
  "test_duplicate_federation_link_returns_conflict w =
     (let gw = test_state w;
          (gw, _, _) = post_link w 1 gw ''mesh-remote'' None;
          (gw, _, resp) = post_link w 2 gw ''mesh-remote'' None
      in refused_as CONFLICT ''federation_link_error'' resp)"

definition test_self_federation_link_returns_bad_request :: "'kp world \<Rightarrow> bool" where
  "test_self_federation_link_returns_bad_request w =
     (let (_, _, resp) = post_link w 1 (test_state w) ''mesh-test'' None
      in refused_as BAD_REQUEST ''federation_link_error'' resp)"

text \<open>The envelope's JSON is \<open>doc\<close>, which \<open>serde_json::from_value\<close> reads as the envelope.\<close>
definition test_federation_relay_accepts_envelope_for_local_mesh :: "'kp world \<Rightarrow> json \<Rightarrow> bool" where
  "test_federation_relay_accepts_envelope_for_local_mesh w doc =
     (let gw = test_state w;
          (gw, _, _) = post_link w 1 gw ''mesh-remote'' None;
          fed_envelope = \<lparr>fe_source_mesh = ''mesh-remote'', fe_target_mesh = ''mesh-test'',
            fe_envelope = doc, fe_relayed_at = 1771588800000000000, fe_ttl = 8\<rparr>;
          (gw, _, _, resp) = gw_federation_relay (w_js w) gw fed_envelope (w_chan w 2) (w_uuid w 2)
            (w_clk w 2);
          peers = gw_list_peers gw
      in reaches Post [''v0'', ''federation'', ''relay''] HFederationRelay []
         \<and> accepted ''accepted'' Announce resp
         \<and> length peers = 1 \<and> pe_display_name (peers ! 0) = ''RemoteAlice'')"

definition test_federation_relay_rejects_wrong_mesh :: "'kp world \<Rightarrow> json \<Rightarrow> bool" where
  "test_federation_relay_rejects_wrong_mesh w doc =
     (let gw = test_state w;
          fed_envelope = \<lparr>fe_source_mesh = ''mesh-remote'', fe_target_mesh = ''mesh-other'',
            fe_envelope = doc, fe_relayed_at = 1771588800000000000, fe_ttl = 8\<rparr>;
          (gw, _, _, resp) = gw_federation_relay (w_js w) gw fed_envelope (w_chan w 1) (w_uuid w 1)
            (w_clk w 1)
      in refused_as MISDIRECTED_REQUEST ''wrong_mesh'' resp)"

definition test_remove_nonexistent_federation_link_returns_not_found :: "'kp world \<Rightarrow> bool" where
  "test_remove_nonexistent_federation_link_returns_not_found w =
     (let (_, _, resp) = remove_federation_link (test_state w) ''mesh-nope''
      in refused_as NOT_FOUND ''federation_unlink_error'' resp)"

lemmas federation_eval [test_eval] = post_link_def federation_status_def
  list_federation_links_def create_federation_link_def remove_federation_link_def
  gw_federation_relay_def federation_router_new_def link_mesh_def unlink_mesh_def
  is_linked_def link_count_def linked_meshes_def should_accept_def

lemma federation_link_tests_pass:
  "test_federation_status_returns_local_mesh w" "test_create_and_list_federation_links w"
  "test_remove_federation_link w" "test_duplicate_federation_link_returns_conflict w"
  "test_self_federation_link_returns_bad_request w"
  "test_remove_nonexistent_federation_link_returns_not_found w"
  by (simp_all add: test_federation_status_returns_local_mesh_def
      test_create_and_list_federation_links_def test_remove_federation_link_def
      test_duplicate_federation_link_returns_conflict_def
      test_self_federation_link_returns_bad_request_def
      test_remove_nonexistent_federation_link_returns_not_found_def test_eval hm_eval)

lemma federation_relay_accepts_envelope_for_local_mesh_passes:
  assumes "w_from_value w doc =
    Ok (make_envelope Announce Public (peer_payload ''RemoteAlice'' [''matchmaking''] ''available''))"
  shows "test_federation_relay_accepts_envelope_for_local_mesh w doc"
  using assms
  by (simp add: test_federation_relay_accepts_envelope_for_local_mesh_def test_eval hm_eval)

lemma federation_relay_rejects_wrong_mesh_passes: "test_federation_relay_rejects_wrong_mesh w doc"
  by (simp add: test_federation_relay_rejects_wrong_mesh_def test_eval hm_eval)

section \<open>Authentication and maintenance\<close>

text \<open>\<open>identity\<close> is what \<open>PeerIdentity::generate().unwrap()\<close> returns.\<close>
definition test_auth_hello_returns_challenge :: "'kp world \<Rightarrow> 'kp peer_identity \<Rightarrow> bool" where
  "test_auth_hello_returns_challenge w identity =
     (let gw = test_state w;
          hello = \<lparr>ah_agent_id = ''agent:carol'', ah_public_key = identity_public_key (w_lib w) identity\<rparr>;
          (gw, resp) = auth_hello_handler (w_lib w) gw hello (Some (w_rand w 1))
      in reaches Post [''v0'', ''auth'', ''hello''] HAuthHello []
         \<and> unwrap resp (\<lambda>body. ac_nonce body \<noteq> []))"

definition test_auth_full_handshake :: "'kp world \<Rightarrow> 'kp peer_identity \<Rightarrow> bool" where
  "test_auth_full_handshake w identity =
     (let lib = w_lib w;
          gw = test_state w;
          public_key = identity_public_key lib identity;
          hello = \<lparr>ah_agent_id = ''agent:dave'', ah_public_key = public_key\<rparr>;
          (gw, resp) = auth_hello_handler lib gw hello (Some (w_rand w 1))
      in unwrap resp (\<lambda>challenge.
         unwrap (b64_decode lib (ac_nonce challenge)) (\<lambda>nonce_bytes.
           let sg = identity_sign lib identity nonce_bytes;
               respond = \<lparr>arr_response = \<lparr>ar_agent_id = ''agent:dave'', ar_signature = sg\<rparr>,
                 arr_public_key = public_key\<rparr>;
               (gw, resp) = auth_respond lib gw respond
           in reaches Post [''v0'', ''auth'', ''respond''] HAuthRespond []
              \<and> unwrap resp (\<lambda>(status, agent_id).
                  status = ''authenticated'' \<and> agent_id = ''agent:dave'')
              \<and> reaches Get [''v0'', ''auth'', ''peers''] HListAuthenticatedPeers []
              \<and> list_ex (\<lambda>p. p = ''agent:dave'') (list_authenticated_peers gw))))"

definition test_purge_expired_returns_ok :: "'kp world \<Rightarrow> bool" where
  "test_purge_expired_returns_ok w =
     (let (_, status) = gw_purge_expired (test_state w) (w_clk w 1 0)
      in reaches Post [''v0'', ''maintenance'', ''purge''] HPurgeExpired [] \<and> status = ''ok'')"

lemmas auth_eval [test_eval] = auth_hello_handler_def auth_respond_def
  list_authenticated_peers_def gw_purge_expired_def

text \<open>The base64 form of the nonce is not empty.\<close>
lemma auth_hello_returns_challenge_passes:
  assumes "random_bytes CHALLENGE_LEN (Some (w_rand w 1)) = Ok nonce" and "b64_encode (w_lib w) nonce \<noteq> []"
  shows "test_auth_hello_returns_challenge w identity"
  using assms by (simp add: test_auth_hello_returns_challenge_def test_eval)

lemma auth_full_handshake_passes:
  assumes "crypto_ok (w_lib w)"
  shows "test_auth_full_handshake w identity"
  using assms
  by (simp add: test_auth_full_handshake_def test_eval hm_eval crypto_eval)

lemma purge_expired_returns_ok_passes: "test_purge_expired_returns_ok w"
  by (simp add: test_purge_expired_returns_ok_def test_eval)

end
