(* ===== verification/Gateway_Api_Tests.thy ===== *)
theory Gateway_Api_Tests
  imports Gateway_Tests
begin

text \<open>
  The unit tests of \<open>gateway/src/main.rs\<close> for rooms, room state and matchmaking, and its end-to-end
  scenario, run on the model.
\<close>

section \<open>Paths\<close>

lemma room_paths [test_eval]:
  "reaches Get [''v0'', ''rooms''] HListRooms []"
  "reaches Post [''v0'', ''rooms''] HCreateRoom []"
  "r \<noteq> [] \<Longrightarrow> reaches Post [''v0'', ''rooms'', r, ''join''] HJoinRoom [r]"
  "r \<noteq> [] \<Longrightarrow> reaches Post [''v0'', ''rooms'', r, ''leave''] HLeaveRoom [r]"
  "r \<noteq> [] \<Longrightarrow> reaches Get [''v0'', ''rooms'', r, ''members''] HRoomMembers [r]"
  "r \<noteq> [] \<Longrightarrow> reaches Get [''v0'', ''rooms'', r, ''state''] HListState [r]"
  "r \<noteq> [] \<Longrightarrow> reaches Post [''v0'', ''rooms'', r, ''state''] HSetState [r]"
  by (simp_all add: route_eval)

lemma state_paths [test_eval]:
  "reaches Get [''v0'', ''rooms'', ''state-room'', ''state'', ''score''] HGetState [''state-room'', ''score'']"
  "r \<noteq> [] \<Longrightarrow> reaches Get [''v0'', ''rooms'', r, ''state'', ''snapshot''] HGetSnapshot [r]"
  by (simp_all add: route_eval)

lemma matchmaking_paths [test_eval]:
  "reaches Get [''v0'', ''matchmaking'', ''requests''] HListMatchRequests []"
  "reaches Post [''v0'', ''matchmaking'', ''requests''] HSubmitMatchRequest []"
  "i \<noteq> [] \<Longrightarrow> reaches Get [''v0'', ''matchmaking'', ''requests'', i] HGetMatchRequest [i]"
  "i \<noteq> [] \<Longrightarrow> reaches Get [''v0'', ''matchmaking'', ''requests'', i, ''matches''] HFindMatches [i]"
  "i \<noteq> [] \<Longrightarrow> reaches Post [''v0'', ''matchmaking'', ''requests'', i, ''cancel''] HCancelMatchRequest [i]"
  by (simp_all add: route_eval)

lemma schedule_paths [test_eval]:
  "reaches Get [''v0'', ''matchmaking'', ''schedules''] HListSchedules []"
  "reaches Post [''v0'', ''matchmaking'', ''schedules''] HProposeSchedule []"
  "i \<noteq> [] \<Longrightarrow> reaches Post [''v0'', ''matchmaking'', ''schedules'', i, ''confirm''] HConfirmSchedule [i]"
  "i \<noteq> [] \<Longrightarrow> reaches Post [''v0'', ''matchmaking'', ''schedules'', i, ''decline''] HDeclineSchedule [i]"
  by (simp_all add: route_eval)

lemma offer_paths [test_eval]:
  "reaches Get [''v0'', ''matchmaking'', ''offers''] HListOffers []"
  "reaches Post [''v0'', ''matchmaking'', ''offers''] HSubmitOffer []"
  "i \<noteq> [] \<Longrightarrow> reaches Get [''v0'', ''matchmaking'', ''offers'', i] HGetOffer [i]"
  "i \<noteq> [] \<Longrightarrow> reaches Post [''v0'', ''matchmaking'', ''offers'', i, ''withdraw''] HWithdrawOffer [i]"
  by (simp_all add: route_eval)

section \<open>Rooms\<close>

definition room_body :: "string \<Rightarrow> string \<Rightarrow> create_room_request" where
  "room_body room_id name = \<lparr>crr_room_id = room_id, crr_name = name, crr_max_members = None\<rparr>"

definition test_create_and_list_rooms :: "'kp world \<Rightarrow> bool" where
  "test_create_and_list_rooms w =
     (let gw = test_state w;
          (gw, resp) = gw_create_room gw (room_body ''lobby'' ''Lobby'') (w_clk w 1 0);
          rooms = gw_list_rooms gw
      in reaches Post [''v0'', ''rooms''] HCreateRoom []
         \<and> is_created resp
         \<and> reaches Get [''v0'', ''rooms''] HListRooms []
         \<and> length rooms = 1 \<and> ri_room_id (rooms ! 0) = ''lobby'')"

definition test_duplicate_room_returns_conflict :: "'kp world \<Rightarrow> bool" where
  "test_duplicate_room_returns_conflict w =
     (let gw = test_state w;
          body = room_body ''lobby'' ''Lobby'';
          (gw, _) = gw_create_room gw body (w_clk w 1 0);
          (gw, resp) = gw_create_room gw body (w_clk w 2 0)
      in refused CONFLICT resp)"

definition test_join_and_list_members :: "'kp world \<Rightarrow> bool" where
  "test_join_and_list_members w =
     (let gw = test_state w;
          (gw, _) = gw_create_room gw (room_body ''test-room'' ''Test'') (w_clk w 1 0);
          (gw, _, resp) = gw_join_room gw ''test-room'' ''agent-alice''
      in reaches Post [''v0'', ''rooms'', ''test-room'', ''join''] HJoinRoom [''test-room'']
         \<and> unwrap resp (\<lambda>status. status = OK)
         \<and> reaches Get [''v0'', ''rooms'', ''test-room'', ''members''] HRoomMembers [''test-room'']
         \<and> unwrap (gw_room_members gw ''test-room'') (\<lambda>members.
             length members = 1 \<and> members ! 0 = ''agent-alice''))"

definition test_leave_room :: "'kp world \<Rightarrow> bool" where
  "test_leave_room w =
     (let gw = test_state w;
          (gw, _) = gw_create_room gw (room_body ''test-room'' ''Test'') (w_clk w 1 0);
          (gw, _, _) = gw_join_room gw ''test-room'' ''agent-alice'';
          (gw, _, resp) = gw_leave_room gw ''test-room'' ''agent-alice''
      in reaches Post [''v0'', ''rooms'', ''test-room'', ''leave''] HLeaveRoom [''test-room'']
         \<and> unwrap resp (\<lambda>status. status = OK)
         \<and> unwrap (gw_room_members gw ''test-room'') (\<lambda>members. members = []))"

definition test_gw_join_nonexistent_room :: "'kp world \<Rightarrow> bool" where
  "test_gw_join_nonexistent_room w =
     (let (_, _, resp) = gw_join_room (test_state w) ''no-such-room'' ''agent-alice''
      in refused BAD_REQUEST resp)"

lemmas gw_room_eval [test_eval] = room_body_def gw_create_room_def gw_list_rooms_def
  gw_join_room_def gw_leave_room_def gw_room_members_def

lemma gw_room_tests_pass:
  "test_create_and_list_rooms w" "test_duplicate_room_returns_conflict w"
  "test_join_and_list_members w" "test_leave_room w" "test_gw_join_nonexistent_room w"
  by (simp_all add: test_create_and_list_rooms_def test_duplicate_room_returns_conflict_def
      test_join_and_list_members_def test_leave_room_def test_gw_join_nonexistent_room_def
      test_eval hm_eval)

section \<open>Room state\<close>

definition state_body :: "string \<Rightarrow> json \<Rightarrow> json set_state_request" where
  "state_body key v = \<lparr>ssr_agent_id = ''agent-alice'', ssr_key = key, ssr_value = v\<rparr>"

definition test_set_and_get_state :: "'kp world \<Rightarrow> bool" where
  "test_set_and_get_state w =
     (let gw = test_state w;
          (gw, _) = gw_create_room gw (room_body ''state-room'' ''S'') (w_clk w 1 0);
          (gw, _, resp) = gw_set_state gw ''state-room'' (state_body ''score'' (JNum 42)) (w_clk w 2 0)
      in reaches Post [''v0'', ''rooms'', ''state-room'', ''state''] HSetState [''state-room'']
         \<and> unwrap resp (\<lambda>(status, _). status = OK)
         \<and> reaches Get [''v0'', ''rooms'', ''state-room'', ''state'', ''score''] HGetState
             [''state-room'', ''score'']
         \<and> unwrap (gw_get_state gw ''state-room'' ''score'') (\<lambda>body.
             se_key body = ''score'' \<and> se_value body = JNum 42))"

definition test_list_state_entries :: "'kp world \<Rightarrow> bool" where
  "test_list_state_entries w =
     (let gw = test_state w;
          (gw, _) = gw_create_room gw (room_body ''state-room'' ''S'') (w_clk w 1 0);
          (gw, _, _) = gw_set_state gw ''state-room'' (state_body ''a'' (JString ''a'')) (w_clk w 2 0);
          (gw, _, _) = gw_set_state gw ''state-room'' (state_body ''b'' (JString ''b'')) (w_clk w 3 0)
      in reaches Get [''v0'', ''rooms'', ''state-room'', ''state''] HListState [''state-room'']
         \<and> unwrap (gw_list_state gw ''state-room'') (\<lambda>body. length body = 2))"

definition test_state_snapshot_roundtrip :: "'kp world \<Rightarrow> bool" where
  "test_state_snapshot_roundtrip w =
     (let gw = test_state w;
          (gw, _) = gw_create_room gw (room_body ''snap-room'' ''Snap'') (w_clk w 1 0);
          (gw, _, _) = gw_set_state gw ''snap-room'' (state_body ''x'' (JNum 1)) (w_clk w 2 0)
      in reaches Get [''v0'', ''rooms'', ''snap-room'', ''state'', ''snapshot''] HGetSnapshot
           [''snap-room'']
         \<and> unwrap (gw_get_snapshot gw ''snap-room'' (w_clk w 3 0)) (\<lambda>snap.
             sn_room_id snap = ''snap-room'' \<and> hm_contains_key (sn_entries snap) ''x''))"

lemmas gw_state_eval [test_eval] = state_body_def gw_set_state_def gw_get_state_def
  gw_list_state_def gw_get_snapshot_def

lemma set_and_get_state_passes: "test_set_and_get_state w"
  by (simp add: test_set_and_get_state_def test_eval hm_eval)

lemma list_state_entries_passes: "test_list_state_entries w"
  by (simp add: test_list_state_entries_def test_eval hm_eval)

lemma state_snapshot_roundtrip_passes: "test_state_snapshot_roundtrip w"
  by (simp add: test_state_snapshot_roundtrip_def test_eval hm_eval)

section \<open>Matchmaking\<close>

text \<open>From \<open>2026-02-20T14:00:00Z\<close> to \<open>2026-02-20T16:00:00Z\<close>.\<close>
definition match_body :: "string \<Rightarrow> submit_match_body" where
  "match_body agent = \<lparr>smb_agent_id = agent, smb_game = ''golf-18'',
     smb_skill_range = \<lparr>skr_min = Finite 50, skr_max = Finite 80\<rparr>,
     smb_time_window = \<lparr>tw_start = 1771596000000000000, tw_end = 1771603200000000000\<rparr>\<rparr>"

definition schedule_body :: propose_schedule_body where
  "schedule_body = \<lparr>psb_agent_id = ''agent-alice'', psb_slot_start = 1771596000000000000,
     psb_slot_end = 1771603200000000000\<rparr>"

definition test_submit_and_list_match_requests :: "'kp world \<Rightarrow> bool" where
  "test_submit_and_list_match_requests w =
     (let gw = test_state w;
          (gw, _, status, created) = submit_match_request gw (match_body ''agent-alice'')
            (w_uuid w 1) (w_clk w 1 0)
      in reaches Post [''v0'', ''matchmaking'', ''requests''] HSubmitMatchRequest []
         \<and> status = CREATED
         \<and> mr_request_id created \<noteq> []
         \<and> reaches Get [''v0'', ''matchmaking'', ''requests''] HListMatchRequests []
         \<and> length (list_match_requests gw) = 1)"

definition test_get_match_request_not_found :: "'kp world \<Rightarrow> bool" where
  "test_get_match_request_not_found w =
     (reaches Get [''v0'', ''matchmaking'', ''requests'', ''nonexistent''] HGetMatchRequest
        [''nonexistent'']
      \<and> refused NOT_FOUND (get_match_request (test_state w) ''nonexistent''))"

definition test_cancel_match_request :: "'kp world \<Rightarrow> bool" where
  "test_cancel_match_request w =
     (let gw = test_state w;
          (gw, _, _, created) = submit_match_request gw (match_body ''agent-alice'')
            (w_uuid w 1) (w_clk w 1 0);
          request_id = mr_request_id created;
          (gw, resp) = cancel_match_request gw request_id
      in reaches Post [''v0'', ''matchmaking'', ''requests'', request_id, ''cancel'']
           HCancelMatchRequest [request_id]
         \<and> is_ok resp
         \<and> list_match_requests gw = [])"

definition test_find_matches_between_compatible_requests :: "'kp world \<Rightarrow> bool" where
  "test_find_matches_between_compatible_requests w =
     (let gw = test_state w;
          (gw, _, _, _) = submit_match_request gw (match_body ''agent-alice'') (w_uuid w 1) (w_clk w 1 0);
          (gw, _, _, _) = submit_match_request gw (match_body ''agent-bob'') (w_uuid w 2) (w_clk w 2 0);
          reqs = list_match_requests gw
      in unwrap_some (find (\<lambda>r. mr_agent_id r = ''agent-alice'') reqs) (\<lambda>alice_req.
           let request_id = mr_request_id alice_req
           in reaches Get [''v0'', ''matchmaking'', ''requests'', request_id, ''matches'']
                HFindMatches [request_id]
              \<and> unwrap (gw_find_matches gw request_id) (\<lambda>matches. matches \<noteq> [])))"

definition test_propose_confirm_decline_schedule :: "'kp world \<Rightarrow> bool" where
  "test_propose_confirm_decline_schedule w =
     (let gw = test_state w;
          (gw, _, status, slot) = propose_schedule gw schedule_body (w_uuid w 1) (w_clk w 1 0);
          schedule_id = sl_schedule_id slot;
          (gw, _, confirmed) = confirm_schedule gw schedule_id;
          (gw, _, _, slot2) = propose_schedule gw schedule_body (w_uuid w 2) (w_clk w 2 0);
          schedule_id2 = sl_schedule_id slot2;
          (gw, _, declined) = decline_schedule gw schedule_id2
      in reaches Post [''v0'', ''matchmaking'', ''schedules''] HProposeSchedule []
         \<and> status = CREATED \<and> sl_state slot = Proposed
         \<and> reaches Post [''v0'', ''matchmaking'', ''schedules'', schedule_id, ''confirm'']
             HConfirmSchedule [schedule_id]
         \<and> unwrap confirmed (\<lambda>slot. sl_state slot = SlotConfirmed)
         \<and> reaches Post [''v0'', ''matchmaking'', ''schedules'', schedule_id2, ''decline'']
             HDeclineSchedule [schedule_id2]
         \<and> unwrap declined (\<lambda>slot. sl_state slot = SlotDeclined))"

definition test_list_schedules_with_agent_filter :: "'kp world \<Rightarrow> bool" where
  "test_list_schedules_with_agent_filter w =
     (let gw = test_state w;
          (gw, _, _, _) = propose_schedule gw schedule_body (w_uuid w 1) (w_clk w 1 0)
      in reaches Get [''v0'', ''matchmaking'', ''schedules''] HListSchedules []
         \<and> length (gw_list_schedules gw None) = 1
         \<and> length (gw_list_schedules gw (Some ''agent-alice'')) = 1
         \<and> gw_list_schedules gw (Some ''agent-nobody'') = [])"

text \<open>The offer expires at \<open>2030-12-31T23:59:59Z\<close>.\<close>
definition test_submit_list_get_withdraw_offer :: "'kp world \<Rightarrow> bool" where
  "test_submit_list_get_withdraw_offer w =
     (let gw = test_state w;
          body = \<lparr>sob_from_agent = ''agent-alice'', sob_offer_id = ''offer-1'',
            sob_summary = ''Join my golf round'', sob_expires_at = 1924991999000000000\<rparr>;
          (gw, _, status, offer) = gw_submit_offer gw body (w_clk w 1 0);
          listed = list_offers gw (w_clk w 2 0);
          got = gw_get_offer gw ''offer-1'' (w_clk w 3 0);
          (gw, withdrawn) = gw_withdraw_offer gw ''offer-1''
      in reaches Post [''v0'', ''matchmaking'', ''offers''] HSubmitOffer []
         \<and> status = CREATED \<and> po_offer_id offer = ''offer-1''
         \<and> po_summary offer = ''Join my golf round''
         \<and> reaches Get [''v0'', ''matchmaking'', ''offers''] HListOffers []
         \<and> length listed = 1
         \<and> reaches Get [''v0'', ''matchmaking'', ''offers'', ''offer-1''] HGetOffer [''offer-1'']
         \<and> unwrap got (\<lambda>body. po_offer_id body = ''offer-1'')
         \<and> reaches Post [''v0'', ''matchmaking'', ''offers'', ''offer-1'', ''withdraw'']
             HWithdrawOffer [''offer-1'']
         \<and> is_ok withdrawn
         \<and> list_offers gw (w_clk w 4 0) = [])"

definition test_get_nonexistent_offer :: "'kp world \<Rightarrow> bool" where
  "test_get_nonexistent_offer w =
     refused NOT_FOUND (gw_get_offer (test_state w) ''nope'' (w_clk w 1 0))"

lemmas gw_match_eval [test_eval] = match_body_def schedule_body_def submit_match_request_def
  list_match_requests_def get_match_request_def cancel_match_request_def gw_find_matches_def
  propose_schedule_def confirm_schedule_def decline_schedule_def gw_list_schedules_def
  list_schedules_def gw_submit_offer_def list_offers_def gw_get_offer_def gw_withdraw_offer_def

lemma match_request_tests_pass:
  assumes "w_uuid w 1 \<noteq> []"
  shows "test_submit_and_list_match_requests w" "test_get_match_request_not_found w"
    "test_cancel_match_request w"
  using assms by (simp_all add: test_submit_and_list_match_requests_def
      test_get_match_request_not_found_def test_cancel_match_request_def test_eval hm_eval)

lemma find_matches_between_compatible_requests_passes:
  assumes "w_uuid w 1 \<noteq> []" "w_uuid w 1 \<noteq> w_uuid w 2"
  shows "test_find_matches_between_compatible_requests w"
  using assms
  by (simp add: test_find_matches_between_compatible_requests_def test_eval hm_eval)

lemma schedule_tests_pass:
  assumes "w_uuid w 1 \<noteq> []" "w_uuid w 2 \<noteq> []"
  shows "test_propose_confirm_decline_schedule w" "test_list_schedules_with_agent_filter w"
  using assms by (simp_all add: test_propose_confirm_decline_schedule_def
      test_list_schedules_with_agent_filter_def test_eval hm_eval)

lemma submit_list_get_withdraw_offer_passes:
  assumes "\<And>i. w_clk w i 0 \<le> 1924991999000000000"
  shows "test_submit_list_get_withdraw_offer w"
  using assms
  by (simp add: test_submit_list_get_withdraw_offer_def test_eval hm_eval not_less)

lemma get_nonexistent_offer_passes: "test_get_nonexistent_offer w"
  by (simp add: test_get_nonexistent_offer_def test_eval hm_eval)

section \<open>The end-to-end scenario\<close>

definition test_e2e_golf_sim_workflow :: "'kp world \<Rightarrow> bool" where
  "test_e2e_golf_sim_workflow w =
     (let gw = test_state w;
          announce = make_envelope Announce Public
            (peer_payload ''Alice'' [''matchmaking''] ''available'');
          (gw, _, r1) = post_envelope w 1 gw announce;
          (gw, r2) = gw_create_room gw \<lparr>crr_room_id = ''golf-lobby'', crr_name = ''Golf Sim Lobby'',
            crr_max_members = Some 4\<rparr> (w_clk w 2 0);
          (gw, _, r3) = gw_join_room gw ''golf-lobby'' ''agent-alice'';
          (gw, _, r4) = gw_set_state gw ''golf-lobby'' (state_body ''ready'' (JBool True)) (w_clk w 4 0);
          (gw, _, r5, _) = submit_match_request gw (match_body ''agent-alice'') (w_uuid w 5) (w_clk w 5 0);
          (gw, _, r6, slot) = propose_schedule gw schedule_body (w_uuid w 6) (w_clk w 6 0);
          (gw, _, r7) = confirm_schedule gw (sl_schedule_id slot);
          (gw, _, r8, _) = gw_submit_offer gw \<lparr>sob_from_agent = ''agent-alice'',
            sob_offer_id = ''offer-golf-1'', sob_summary = ''18-hole round at Pebble Beach'',
            sob_expires_at = 1924991999000000000\<rparr> (w_clk w 8 0);
          peers = gw_list_peers gw;
          rooms = gw_list_rooms gw;
          offers = list_offers gw (w_clk w 9 0)
      in is_accepted r1
         \<and> is_created r2
         \<and> unwrap r3 (\<lambda>status. status = OK)
         \<and> unwrap r4 (\<lambda>(status, _). status = OK)
         \<and> r5 = CREATED
         \<and> r6 = CREATED
         \<and> is_ok r7
         \<and> r8 = CREATED
         \<and> length peers = 1 \<and> length rooms = 1 \<and> length offers = 1
         \<and> po_summary (offers ! 0) = ''18-hole round at Pebble Beach'')"

lemma e2e_golf_sim_workflow_passes:
  assumes "w_clk w 9 0 \<le> 1924991999000000000"
  shows "test_e2e_golf_sim_workflow w"
  using assms by (simp add: test_e2e_golf_sim_workflow_def test_eval hm_eval)

end
