(* ===== verification/Gossip_Tests.thy ===== *)
theory Gossip_Tests
  imports Gossip Discovery_Tests
begin

text \<open>
  The unit tests of \<open>p2p/src/gossip.rs\<close>, run on the model. Each \<open>mpsc\<close> channel a test makes is a
  handle, distinct from the others; a test keeps the receivers, so their channels are open.
\<close>

fun is_pull :: "gossip_message \<Rightarrow> bool" where
  "is_pull (Pull _) = True"
| "is_pull (Push _) = False"

text \<open>\<open>initiate_pull(to).await.unwrap()\<close>, then \<open>rx.recv().await.unwrap()\<close>.\<close>
definition pulled ::
    "(chan \<Rightarrow> bool) \<Rightarrow> gossip_router \<Rightarrow> mesh_registry \<Rightarrow> string \<Rightarrow> chan \<Rightarrow> (gossip_message \<Rightarrow> bool) \<Rightarrow> bool" where
  "pulled ok router reg to rx rest =
     (let (sent, r) = initiate_pull ok router reg to in is_ok r \<and> unwrap_some (recv rx sent) rest)"

text \<open>\<open>handle_message(from, msg).await.unwrap()\<close>.\<close>
definition handled ::
    "(chan \<Rightarrow> bool) \<Rightarrow> gossip_router \<Rightarrow> mesh_registry \<Rightarrow> string \<Rightarrow> gossip_message
      \<Rightarrow> (mesh_registry \<Rightarrow> gossip_sent \<Rightarrow> bool) \<Rightarrow> bool" where
  "handled ok router reg from_peer msg rest =
     (let (reg, _, sent, r) = gossip_handle_message ok router reg from_peer msg
      in is_ok r \<and> rest reg sent)"

section \<open>Two nodes\<close>

definition test_gossip_pair_sync ::
    "chan \<Rightarrow> chan \<Rightarrow> timestamp \<Rightarrow> timestamp \<Rightarrow> timestamp \<Rightarrow> bool" where
  "test_gossip_pair_sync c d t1 t2 t3 =
     (let reg_a = make_registry;
          reg_b = make_registry;
          (reg_a, _, _) = handle_announce reg_a (announce ''alice'') t1;
          (reg_a, _, _) = handle_announce reg_a (announce ''bob'') t2;
          (reg_b, _, _) = handle_announce reg_b (announce ''alice'') t3;
          (router_a, rx_from_b, router_b, rx_from_a) = gossip_pair ''node-a'' ''node-b'' c d;
          ok = held [rx_from_a, rx_from_b]
      in pulled ok router_b reg_b ''node-a'' rx_from_a (\<lambda>msg.
           is_pull msg
           \<and> handled ok router_a reg_a ''node-b'' msg (\<lambda>reg_a sent.
               unwrap_some (recv rx_from_b sent) (\<lambda>msg.
                 \<not> is_pull msg
                 \<and> handled ok router_b reg_b ''node-a'' msg (\<lambda>reg_b _.
                     registry_peer_count reg_b = 2 \<and> get_peer reg_b ''agent:bob'' \<noteq> None)))))"

definition test_bidirectional_gossip_sync :: "chan \<Rightarrow> chan \<Rightarrow> timestamp \<Rightarrow> timestamp \<Rightarrow> bool" where
  "test_bidirectional_gossip_sync c d t1 t2 =
     (let reg_a = make_registry;
          reg_b = make_registry;
          (reg_a, _, _) = handle_announce reg_a (announce ''alice'') t1;
          (reg_b, _, _) = handle_announce reg_b (announce ''bob'') t2;
          (router_a, rx_from_b, router_b, rx_from_a) = gossip_pair ''node-a'' ''node-b'' c d;
          ok = held [rx_from_a, rx_from_b]
      in pulled ok router_b reg_b ''node-a'' rx_from_a (\<lambda>msg.
         handled ok router_a reg_a ''node-b'' msg (\<lambda>reg_a sent.
         unwrap_some (recv rx_from_b sent) (\<lambda>msg.
         handled ok router_b reg_b ''node-a'' msg (\<lambda>reg_b _.
           registry_peer_count reg_b = 2
           \<and> pulled ok router_a reg_a ''node-b'' rx_from_b (\<lambda>msg.
             handled ok router_b reg_b ''node-a'' msg (\<lambda>reg_b sent.
             unwrap_some (recv rx_from_a sent) (\<lambda>msg.
             handled ok router_a reg_a ''node-b'' msg (\<lambda>reg_a _.
               registry_peer_count reg_a = 2
               \<and> get_peer reg_a ''agent:bob'' \<noteq> None
               \<and> get_peer reg_b ''agent:alice'' \<noteq> None)))))))))"

fun is_empty_pull :: "gossip_message \<Rightarrow> bool" where
  "is_empty_pull (Pull p) = (gpull_digests p = [])"
| "is_empty_pull (Push _) = False"

fun is_empty_push :: "gossip_message \<Rightarrow> bool" where
  "is_empty_push (Push p) = (gpush_entries p = [])"
| "is_empty_push (Pull _) = False"

definition test_empty_registries_gossip_noop :: "chan \<Rightarrow> chan \<Rightarrow> bool" where
  "test_empty_registries_gossip_noop c d =
     (let reg_a = make_registry;
          reg_b = make_registry;
          (router_a, rx_from_b, router_b, rx_from_a) = gossip_pair ''node-a'' ''node-b'' c d;
          ok = held [rx_from_a, rx_from_b]
      in pulled ok router_a reg_a ''node-b'' rx_from_b (\<lambda>msg.
           is_empty_pull msg
           \<and> handled ok router_b reg_b ''node-a'' msg (\<lambda>reg_b sent.
               unwrap_some (recv rx_from_a sent) is_empty_push)))"

lemmas gossip_router_eval [test_eval] = pulled_def handled_def gossip_pair_def
  gossip_router_new_def gossip_add_peer_def initiate_pull_def

lemma gossip_pair_sync_passes:
  assumes "c \<noteq> d" "t1 \<le> t3"
  shows "test_gossip_pair_sync c d t1 t2 t3"
  using assms by (simp add: test_gossip_pair_sync_def test_eval hm_eval)

lemma bidirectional_gossip_sync_passes:
  assumes "c \<noteq> d"
  shows "test_bidirectional_gossip_sync c d t1 t2"
  using assms by (simp add: test_bidirectional_gossip_sync_def test_eval hm_eval)

lemma empty_registries_gossip_noop_passes:
  assumes "c \<noteq> d"
  shows "test_empty_registries_gossip_noop c d"
  using assms by (simp add: test_empty_registries_gossip_noop_def test_eval hm_eval)

section \<open>One router\<close>

definition test_initiate_pull_all :: "chan \<Rightarrow> chan \<Rightarrow> bool" where
  "test_initiate_pull_all c d =
     (let reg = make_registry;
          router = gossip_router_new ''node-a'';
          (router, rx1) = gossip_add_peer router ''node-b'' c;
          (router, rx2) = gossip_add_peer router ''node-c'' d;
          (_, results) = initiate_pull_all (held [rx1, rx2]) router reg
      in length results = 2 \<and> list_all (\<lambda>(_, result). is_ok result) results)"

fun is_peer_not_connected :: "(gossip_error, 'a) result \<Rightarrow> bool" where
  "is_peer_not_connected (Inl (PeerNotConnected _)) = True"
| "is_peer_not_connected _ = False"

definition test_pull_to_unknown_peer_fails :: bool where
  "test_pull_to_unknown_peer_fails =
     (let reg = make_registry;
          router = gossip_router_new ''node-a'';
          (_, r) = initiate_pull (held []) router reg ''node-unknown''
      in is_peer_not_connected r)"

definition test_add_and_remove_peer :: "chan \<Rightarrow> bool" where
  "test_add_and_remove_peer c =
     (let router = gossip_router_new ''node-a'';
          (router, rx) = gossip_add_peer router ''node-b'' c;
          before = gossip_peer_count router;
          (router, first) = gossip_remove_peer router ''node-b'';
          after = gossip_peer_count router;
          (router, second) = gossip_remove_peer router ''node-b''
      in before = 1 \<and> first \<and> after = 0 \<and> \<not> second)"

text \<open>
  The test waits 200 ms for a tick of the 50 ms timer; here it is the first tick itself.
\<close>
definition test_periodic_gossip_runs :: "chan \<Rightarrow> bool" where
  "test_periodic_gossip_runs c =
     (let reg = make_registry;
          router = gossip_router_new ''node-a'';
          (router, rx) = gossip_add_peer router ''node-b'' c;
          (sent, _) = periodic_gossip_tick (held [rx]) router reg
      in unwrap_some (recv rx sent) is_pull)"

lemmas [test_eval] = initiate_pull_all_def gossip_peer_count_def gossip_remove_peer_def
  periodic_gossip_tick_def

lemma router_tests_pass:
  "test_initiate_pull_all c d" test_pull_to_unknown_peer_fails "test_add_and_remove_peer c"
  "test_periodic_gossip_runs c"
  by (simp_all add: test_initiate_pull_all_def test_pull_to_unknown_peer_fails_def
      test_add_and_remove_peer_def test_periodic_gossip_runs_def test_eval hm_eval)

end
