(* ===== verification/Federation_Tests.thy ===== *)
theory Federation_Tests
  imports Federation Test_Script
begin

text \<open>
  The unit tests of \<open>p2p/src/federation.rs\<close>, run on the model. The JSON documents a test relays are
  arguments (the router does not look into them), and so are the channel handles and the readings
  of the clock.
\<close>

definition make_router :: "string \<Rightarrow> federation_router" where
  "make_router mesh_id = federation_router_new mesh_id"

fun is_link_not_found :: "(federation_error, 'a) result \<Rightarrow> bool" where
  "is_link_not_found (Inl (LinkNotFound _)) = True"
| "is_link_not_found _ = False"

fun is_link_exists :: "(federation_error, 'a) result \<Rightarrow> bool" where
  "is_link_exists (Inl (LinkExists _)) = True"
| "is_link_exists _ = False"

section \<open>Links\<close>

definition test_link_and_relay_envelope :: "chan \<Rightarrow> 'j \<Rightarrow> timestamp \<Rightarrow> timestamp \<Rightarrow> bool" where
  "test_link_and_relay_envelope c envelope t1 t2 =
     (let router_a = make_router ''mesh:alpha'';
          (router_a, _, rx) = link_mesh router_a ''mesh:beta'' (Some ''Beta Mesh'') c t1
      in unwrap rx (\<lambda>rx.
           let (sent, r) = federation_relay (held [rx]) router_a ''mesh:beta'' envelope t2
           in is_ok r
              \<and> unwrap_some (recv rx sent) (\<lambda>received.
                  fe_source_mesh received = ''mesh:alpha''
                  \<and> fe_target_mesh received = ''mesh:beta''
                  \<and> fe_envelope received = envelope
                  \<and> fe_ttl received = DEFAULT_TTL)))"

definition test_unlink_mesh :: "chan \<Rightarrow> timestamp \<Rightarrow> bool" where
  "test_unlink_mesh c t =
     (let router = make_router ''mesh:alpha'';
          (router, _, r) = link_mesh router ''mesh:beta'' None c t;
          before = is_linked router ''mesh:beta'' \<and> link_count router = 1;
          (router, _, info) = unlink_mesh router ''mesh:beta''
      in is_ok r \<and> before
         \<and> unwrap info (\<lambda>info. ml_mesh_id info = ''mesh:beta'')
         \<and> \<not> is_linked router ''mesh:beta'' \<and> link_count router = 0)"

definition test_unlink_nonexistent_returns_error :: bool where
  "test_unlink_nonexistent_returns_error =
     (let (_, _, err) = unlink_mesh (make_router ''mesh:alpha'') ''mesh:nowhere''
      in is_link_not_found err)"

definition test_self_relay_rejected :: "'j \<Rightarrow> timestamp \<Rightarrow> bool" where
  "test_self_relay_rejected j t =
     (let (_, err) = federation_relay (held []) (make_router ''mesh:alpha'') ''mesh:alpha'' j t
      in err = Err SelfRelay)"

definition test_self_link_rejected :: "chan \<Rightarrow> timestamp \<Rightarrow> bool" where
  "test_self_link_rejected c t =
     (let (_, _, err) = link_mesh (make_router ''mesh:alpha'') ''mesh:alpha'' None c t
      in err = Err SelfRelay)"

definition test_duplicate_link_rejected :: "chan \<Rightarrow> chan \<Rightarrow> timestamp \<Rightarrow> timestamp \<Rightarrow> bool" where
  "test_duplicate_link_rejected c d t1 t2 =
     (let router = make_router ''mesh:alpha'';
          (router, _, r) = link_mesh router ''mesh:beta'' None c t1;
          (router, _, err) = link_mesh router ''mesh:beta'' None d t2
      in is_ok r \<and> is_link_exists err)"

definition test_list_linked_meshes :: "chan \<Rightarrow> chan \<Rightarrow> timestamp \<Rightarrow> timestamp \<Rightarrow> bool" where
  "test_list_linked_meshes c d t1 t2 =
     (let router = make_router ''mesh:alpha'';
          (router, _, r1) = link_mesh router ''mesh:beta'' (Some ''Beta'') c t1;
          (router, _, r2) = link_mesh router ''mesh:gamma'' (Some ''Gamma'') d t2;
          links = sort_key ml_mesh_id (linked_meshes router)
      in is_ok r1 \<and> is_ok r2
         \<and> length links = 2
         \<and> ml_mesh_id (links ! 0) = ''mesh:beta''
         \<and> ml_label (links ! 0) = Some ''Beta''
         \<and> ml_mesh_id (links ! 1) = ''mesh:gamma'')"

definition test_events_emitted_on_link_and_unlink :: "chan \<Rightarrow> timestamp \<Rightarrow> bool" where
  "test_events_emitted_on_link_and_unlink c t =
     (let router = federation_router_new ''mesh:alpha'';
          (router, events1, r1) = link_mesh router ''mesh:beta'' None c t;
          (router, events2, r2) = unlink_mesh router ''mesh:beta''
      in is_ok r1
         \<and> (case events1 of
              PatchReady mesh_id description # _ \<Rightarrow>
                mesh_id = ''mesh:alpha'' \<and> str_contains description ''mesh:beta''
                \<and> str_contains description ''established''
            | _ \<Rightarrow> False)
         \<and> is_ok r2
         \<and> (case events2 of
              PatchReady mesh_id description # _ \<Rightarrow>
                mesh_id = ''mesh:alpha'' \<and> str_contains description ''removed''
            | _ \<Rightarrow> False))"

lemmas [test_eval] = make_router_def federation_router_new_def link_mesh_def unlink_mesh_def
  is_linked_def link_count_def linked_meshes_def federation_relay_def
  send_federation_envelope_def

lemma link_tests_pass:
  "test_link_and_relay_envelope c j t1 t2" "test_unlink_mesh c t1"
  test_unlink_nonexistent_returns_error "test_self_relay_rejected j t1"
  "test_self_link_rejected c t1" "test_duplicate_link_rejected c d t1 t2"
  "test_list_linked_meshes c d t1 t2"
  by (simp_all add: test_link_and_relay_envelope_def test_unlink_mesh_def
      test_unlink_nonexistent_returns_error_def test_self_relay_rejected_def
      test_self_link_rejected_def test_duplicate_link_rejected_def test_list_linked_meshes_def
      test_eval hm_eval)

lemma events_emitted_on_link_and_unlink_passes: "test_events_emitted_on_link_and_unlink c t"
  by (simp add: test_events_emitted_on_link_and_unlink_def test_eval hm_eval)

section \<open>Relaying and forwarding\<close>

definition test_relay_to_unlinked_mesh_fails :: "'j \<Rightarrow> timestamp \<Rightarrow> bool" where
  "test_relay_to_unlinked_mesh_fails j t =
     (let (_, err) = federation_relay (held []) (make_router ''mesh:alpha'') ''mesh:beta'' j t
      in is_link_not_found err)"

definition test_forward_decrements_ttl ::
    "chan \<Rightarrow> 'j \<Rightarrow> timestamp \<Rightarrow> timestamp \<Rightarrow> timestamp \<Rightarrow> bool" where
  "test_forward_decrements_ttl c j t1 t2 t3 =
     (let router = make_router ''mesh:alpha'';
          (router, _, rx) = link_mesh router ''mesh:gamma'' None c t1;
          fed_env = \<lparr>fe_source_mesh = ''mesh:beta'', fe_target_mesh = ''mesh:gamma'',
            fe_envelope = j, fe_relayed_at = t2, fe_ttl = 5\<rparr>
      in unwrap rx (\<lambda>rx.
           let (sent, r) = federation_forward (held [rx]) router ''mesh:gamma'' fed_env t3
           in is_ok r \<and> unwrap_some (recv rx sent) (\<lambda>received. fe_ttl received = 4)))"

definition test_forward_ttl_zero_rejected ::
    "chan \<Rightarrow> 'j \<Rightarrow> timestamp \<Rightarrow> timestamp \<Rightarrow> timestamp \<Rightarrow> bool" where
  "test_forward_ttl_zero_rejected c j t1 t2 t3 =
     (let router = make_router ''mesh:alpha'';
          (router, _, r) = link_mesh router ''mesh:gamma'' None c t1;
          fed_env = \<lparr>fe_source_mesh = ''mesh:beta'', fe_target_mesh = ''mesh:gamma'',
            fe_envelope = j, fe_relayed_at = t2, fe_ttl = 0\<rparr>;
          (_, err) = federation_forward (held []) router ''mesh:gamma'' fed_env t3
      in is_ok r \<and> err = Err TtlExpired)"

definition test_should_accept_checks_target_mesh ::
    "'j \<Rightarrow> timestamp \<Rightarrow> timestamp \<Rightarrow> timestamp \<Rightarrow> bool" where
  "test_should_accept_checks_target_mesh j t1 t2 t3 =
     (let router = make_router ''mesh:alpha'';
          local_env = \<lparr>fe_source_mesh = ''mesh:beta'', fe_target_mesh = ''mesh:alpha'',
            fe_envelope = j, fe_relayed_at = t1, fe_ttl = 5\<rparr>;
          remote_env = \<lparr>fe_source_mesh = ''mesh:beta'', fe_target_mesh = ''mesh:gamma'',
            fe_envelope = j, fe_relayed_at = t2, fe_ttl = 5\<rparr>;
          expired_env = \<lparr>fe_source_mesh = ''mesh:beta'', fe_target_mesh = ''mesh:alpha'',
            fe_envelope = j, fe_relayed_at = t3, fe_ttl = 0\<rparr>
      in should_accept router local_env \<and> \<not> should_accept router remote_env
         \<and> \<not> should_accept router expired_env)"

definition test_bidirectional_federation_pair ::
    "chan \<Rightarrow> chan \<Rightarrow> 'j \<Rightarrow> 'j \<Rightarrow> (nat \<Rightarrow> timestamp) \<Rightarrow> bool" where
  "test_bidirectional_federation_pair c d env1 env2 t =
     (let router_a = make_router ''mesh:alpha'';
          router_b = make_router ''mesh:beta'';
          (router_a, router_b, rxs) = federation_pair router_a router_b c d (t 1) (t 2)
      in unwrap rxs (\<lambda>(rx_a, rx_b).
           let ok = held [rx_a, rx_b];
               (sent1, r1) = federation_relay ok router_a ''mesh:beta'' env1 (t 3);
               (sent2, r2) = federation_relay ok router_b ''mesh:alpha'' env2 (t 4)
           in is_ok r1
              \<and> unwrap_some (recv rx_b sent1) (\<lambda>received.
                  fe_source_mesh received = ''mesh:alpha'' \<and> fe_envelope received = env1)
              \<and> is_ok r2
              \<and> unwrap_some (recv rx_a sent2) (\<lambda>received.
                  fe_source_mesh received = ''mesh:beta'' \<and> fe_envelope received = env2)))"

definition test_multi_hop_relay :: "(nat \<Rightarrow> chan) \<Rightarrow> 'j \<Rightarrow> (nat \<Rightarrow> timestamp) \<Rightarrow> bool" where
  "test_multi_hop_relay c env t =
     (let router_a = make_router ''mesh:alpha'';
          router_b = make_router ''mesh:beta'';
          router_c = make_router ''mesh:gamma'';
          (router_a, _, rx_ab) = link_mesh router_a ''mesh:beta'' None (c 1) (t 1);
          (router_b, _, rx_ba) = link_mesh router_b ''mesh:alpha'' None (c 2) (t 2);
          (router_b, _, rx_bc) = link_mesh router_b ''mesh:gamma'' None (c 3) (t 3);
          (router_c, _, rx_cb) = link_mesh router_c ''mesh:beta'' None (c 4) (t 4);
          ok = held [c 1, c 2, c 3, c 4];
          (sent, r1) = federation_relay ok router_a ''mesh:beta'' env (t 5)
      in is_ok rx_ba \<and> is_ok rx_cb \<and> is_ok r1
         \<and> unwrap rx_ab (\<lambda>rx_ab. unwrap_some (recv rx_ab sent) (\<lambda>received.
             fe_source_mesh received = ''mesh:alpha'' \<and> fe_ttl received = DEFAULT_TTL
             \<and> (let forwarded = received\<lparr>fe_target_mesh := ''mesh:gamma''\<rparr>;
                    (sent, r2) = federation_forward ok router_b ''mesh:gamma'' forwarded (t 6)
                in is_ok r2
                   \<and> unwrap rx_bc (\<lambda>rx_bc. unwrap_some (recv rx_bc sent) (\<lambda>received.
                       fe_source_mesh received = ''mesh:alpha''
                       \<and> fe_ttl received = DEFAULT_TTL - 1
                       \<and> should_accept router_c received))))))"

lemmas [test_eval] = federation_forward_def should_accept_def federation_pair_def DEFAULT_TTL_def

lemma forward_tests_pass:
  "test_relay_to_unlinked_mesh_fails j t1" "test_forward_decrements_ttl c j t1 t2 t3"
  "test_forward_ttl_zero_rejected c j t1 t2 t3" "test_should_accept_checks_target_mesh j t1 t2 t3"
  by (simp_all add: test_relay_to_unlinked_mesh_fails_def test_forward_decrements_ttl_def
      test_forward_ttl_zero_rejected_def test_should_accept_checks_target_mesh_def
      test_eval hm_eval)

lemma bidirectional_federation_pair_passes: "test_bidirectional_federation_pair c d env1 env2 t"
  by (simp add: test_bidirectional_federation_pair_def test_eval hm_eval)

lemma multi_hop_relay_passes: "test_multi_hop_relay c env t"
  by (simp add: test_multi_hop_relay_def test_eval hm_eval)

end
