(* ===== verification/Channel.thy ===== *)
theory Channel
  imports Prelude
begin

text \<open>
  The encrypted channel (\<open>p2p/src/channel.rs\<close>): X25519 key agreement, and ChaCha20-Poly1305 with a
  counter nonce for each direction. The primitives of \<open>ring\<close> are the fields of \<open>channel_lib\<close>, with
  the type variables \<open>'p\<close> for private keys and \<open>'k\<close> for cipher keys: \<open>None\<close> is ring's
  \<open>Unspecified\<close> error. A ring \<open>SealingKey\<close> or \<open>OpeningKey\<close> owns a key and a nonce sequence, asks the
  sequence for one nonce per operation, and then encrypts or decrypts under it.
\<close>

section \<open>Parameters\<close>

record ('p, 'k) channel_lib =
  ka_public :: "'p \<Rightarrow> bytes option"
  ka_agree :: "'p \<Rightarrow> bytes \<Rightarrow> bytes option"
  aead_key :: "bytes \<Rightarrow> 'k option"
  aead_seal :: "'k \<Rightarrow> bytes \<Rightarrow> bytes \<Rightarrow> bytes option"
  aead_open :: "'k \<Rightarrow> bytes \<Rightarrow> bytes \<Rightarrow> bytes option"

text \<open>Both sides of a key agreement compute the same secret.\<close>
definition agreement_ok :: "('p, 'k) channel_lib \<Rightarrow> bool" where
  "agreement_ok lib \<longleftrightarrow> (\<forall>a b pa pb. ka_public lib a = Some pa \<longrightarrow> ka_public lib b = Some pb \<longrightarrow>
     ka_agree lib a pb = ka_agree lib b pa)"

text \<open>Sealing succeeds (the messages are far below the cipher's length limit).\<close>
definition aead_total :: "('p, 'k) channel_lib \<Rightarrow> bool" where
  "aead_total lib \<longleftrightarrow> (\<forall>k n p. \<exists>c. aead_seal lib k n p = Some c)"

text \<open>What was sealed opens, under the same key and nonce, to the plaintext.\<close>
definition aead_ok :: "('p, 'k) channel_lib \<Rightarrow> bool" where
  "aead_ok lib \<longleftrightarrow> (\<forall>k n p c. aead_seal lib k n p = Some c \<longrightarrow> aead_open lib k n c = Some p)"

text \<open>What was sealed does not open under another nonce.\<close>
definition aead_nonce_bound :: "('p, 'k) channel_lib \<Rightarrow> bool" where
  "aead_nonce_bound lib \<longleftrightarrow>
     (\<forall>k n n' p c. aead_seal lib k n p = Some c \<longrightarrow> n \<noteq> n' \<longrightarrow> aead_open lib k n' c = None)"

section \<open>Data\<close>

datatype channel_error = KeyAgreement | SealFailed | OpenFailed | NonceOverflow | ChannelInvalidKey

fun channel_error_msg :: "channel_error \<Rightarrow> string" where
  "channel_error_msg KeyAgreement = ''key agreement failed''"
| "channel_error_msg SealFailed = ''encryption failed''"
| "channel_error_msg OpenFailed = ''decryption failed''"
| "channel_error_msg NonceOverflow = ''nonce overflow''"
| "channel_error_msg ChannelInvalidKey = ''invalid key material''"

record counter_nonce =
  cn_prefix :: bytes
  cn_counter :: u64

record 'k bound_key =
  bk_key :: 'k
  bk_nonces :: counter_nonce

record 'k encrypted_channel =
  ec_sealing_key :: "'k bound_key"
  ec_opening_key :: "'k bound_key"

section \<open>Operations\<close>

definition counter_nonce_new :: "bytes \<Rightarrow> counter_nonce" where
  "counter_nonce_new prefix = \<lparr>cn_prefix = prefix, cn_counter = 0\<rparr>"

text \<open>\<open>u64::to_le_bytes\<close>.\<close>
definition to_le_bytes :: "u64 \<Rightarrow> bytes" where
  "to_le_bytes c = map (\<lambda>i. ucast (drop_bit (8 * i) c)) [0..<8]"

text \<open>\<open>checked_add\<close> fails at the maximum, before the counter is assigned.\<close>
definition advance :: "counter_nonce \<Rightarrow> counter_nonce \<times> bytes option" where
  "advance self =
     (let c = cn_counter self
      in if c = - 1 then (self, None)
         else (self\<lparr>cn_counter := c + 1\<rparr>, Some (cn_prefix self @ to_le_bytes c)))"

definition generate_ephemeral_key ::
    "('p, 'k) channel_lib \<Rightarrow> 'p option \<Rightarrow> (channel_error, 'p \<times> bytes) result" where
  "generate_ephemeral_key lib rand =
     (case rand of
        None \<Rightarrow> Err KeyAgreement
      | Some private_key \<Rightarrow>
          map_ok (Pair private_key) (ok_or (ka_public lib private_key) KeyAgreement))"

definition agree :: "('p, 'k) channel_lib \<Rightarrow> 'p \<Rightarrow> bytes \<Rightarrow> (channel_error, bytes) result" where
  "agree lib our_private remote_public_bytes =
     ok_or (ka_agree lib our_private remote_public_bytes) KeyAgreement"

definition encrypted_channel_new ::
    "('p, 'k) channel_lib \<Rightarrow> bytes \<Rightarrow> bool \<Rightarrow> (channel_error, 'k encrypted_channel) result" where
  "encrypted_channel_new lib shared_secret is_initiator =
     (let (seal_prefix, open_prefix) =
            (if is_initiator then ([0, 0, 0, 1], [0, 0, 0, 2]) else ([0, 0, 0, 2], [0, 0, 0, 1]))
      in case aead_key lib shared_secret of
           None \<Rightarrow> Err ChannelInvalidKey
         | Some seal_key \<Rightarrow>
             (case aead_key lib shared_secret of
                None \<Rightarrow> Err ChannelInvalidKey
              | Some open_key \<Rightarrow>
                  Ok \<lparr>ec_sealing_key = \<lparr>bk_key = seal_key, bk_nonces = counter_nonce_new seal_prefix\<rparr>,
                      ec_opening_key = \<lparr>bk_key = open_key, bk_nonces = counter_nonce_new open_prefix\<rparr>\<rparr>))"

definition channel_seal ::
    "('p, 'k) channel_lib \<Rightarrow> 'k encrypted_channel \<Rightarrow> bytes
      \<Rightarrow> 'k encrypted_channel \<times> (channel_error, bytes) result" where
  "channel_seal lib self plaintext =
     (let (nonces, nonce) = advance (bk_nonces (ec_sealing_key self));
          self' = self\<lparr>ec_sealing_key := (ec_sealing_key self)\<lparr>bk_nonces := nonces\<rparr>\<rparr>
      in case nonce of
           None \<Rightarrow> (self', Err SealFailed)
         | Some n \<Rightarrow>
             (self', ok_or (aead_seal lib (bk_key (ec_sealing_key self)) n plaintext) SealFailed))"

definition channel_open ::
    "('p, 'k) channel_lib \<Rightarrow> 'k encrypted_channel \<Rightarrow> bytes
      \<Rightarrow> 'k encrypted_channel \<times> (channel_error, bytes) result" where
  "channel_open lib self ciphertext =
     (let (nonces, nonce) = advance (bk_nonces (ec_opening_key self));
          self' = self\<lparr>ec_opening_key := (ec_opening_key self)\<lparr>bk_nonces := nonces\<rparr>\<rparr>
      in case nonce of
           None \<Rightarrow> (self', Err OpenFailed)
         | Some n \<Rightarrow>
             (self', ok_or (aead_open lib (bk_key (ec_opening_key self)) n ciphertext) OpenFailed))"

section \<open>Nonces\<close>

lemma length_to_le_bytes [simp]: "length (to_le_bytes c) = 8"
  by (simp add: to_le_bytes_def)

text \<open>Different counters have different byte forms.\<close>
lemma to_le_bytes_inj: "to_le_bytes c = to_le_bytes d \<longleftrightarrow> c = d"
proof
  assume eq: "to_le_bytes c = to_le_bytes d"
  show "c = d"
  proof (rule bit_word_eqI)
    fix n assume n: "n < LENGTH(64)"
    have "to_le_bytes c ! (n div 8) = to_le_bytes d ! (n div 8)"
      by (simp add: eq)
    moreover have "n div 8 < 8"
      using n by simp
    ultimately have "(ucast (drop_bit (8 * (n div 8)) c) :: u8) = ucast (drop_bit (8 * (n div 8)) d)"
      unfolding to_le_bytes_def by (simp only: nth_map length_upt nth_upt diff_zero add_0)
    then have "bit (ucast (drop_bit (8 * (n div 8)) c) :: u8) (n mod 8)
        = bit (ucast (drop_bit (8 * (n div 8)) d) :: u8) (n mod 8)"
      by simp
    then show "bit c n = bit d n"
      by (simp add: bit_ucast_iff bit_drop_bit_eq)
  qed
qed simp

lemma unat_u64_less: "unat (c :: u64) < 2 ^ 64"
  by (rule order.strict_trans2 [OF unsigned_less]) simp

lemma unat_rest:
  fixes c :: u64
  assumes "c \<noteq> - 1"
  shows "unat (- 1 - c) = Suc (unat (- 1 - (c + 1)))"
proof -
  have "- 1 - (c + 1) \<noteq> - 1"
  proof
    assume "- 1 - (c + 1) = - 1"
    then have "c + 1 = 0"
      by (metis diff_0_right diff_left_imp_eq)
    with assms show False
      by (simp add: eq_neg_iff_add_eq_0)
  qed
  then have "unat (- 1 - (c + 1) + 1) = Suc (unat (- 1 - (c + 1)))"
    by (rule unat_Suc)
  then show ?thesis by simp
qed

text \<open>
  The nonce of the \<open>i\<close>-th operation in the direction of a prefix: the first \<open>2 ^ 64 - 1\<close> operations
  get one, the later ones fail.
\<close>
definition nonce_at :: "bytes \<Rightarrow> nat \<Rightarrow> bytes option" where
  "nonce_at prefix i = (if i < 2 ^ 64 - 1 then Some (prefix @ to_le_bytes (of_nat i)) else None)"

definition counter_at :: "nat \<Rightarrow> u64" where
  "counter_at i = of_nat (min i (2 ^ 64 - 1))"

lemma counter_at_0 [simp]: "counter_at 0 = 0"
  by (simp add: counter_at_def)

lemma counter_at_max: "counter_at i = - 1 \<longleftrightarrow> 2 ^ 64 - 1 \<le> i"
proof
  assume "counter_at i = - 1"
  then have "unat (counter_at i) = 2 ^ 64 - 1"
    by (simp only: unat_max_u64)
  moreover have "unat (counter_at i) = min i (2 ^ 64 - 1)"
    unfolding counter_at_def by (rule unat_of_nat_u64) simp
  ultimately show "2 ^ 64 - 1 \<le> i" by simp
next
  assume "2 ^ 64 - 1 \<le> i"
  then show "counter_at i = - 1"
    unfolding counter_at_def by (simp only: min_absorb2 max_u64)
qed

lemma advance_at:
  "advance \<lparr>cn_prefix = p, cn_counter = counter_at i\<rparr> =
     (\<lparr>cn_prefix = p, cn_counter = counter_at (Suc i)\<rparr>, nonce_at p i)"
proof (cases "i < 2 ^ 64 - 1")
  case True
  then have "counter_at i = of_nat i" "counter_at (Suc i) = of_nat i + 1"
    by (simp_all add: counter_at_def min_absorb1)
  moreover have "counter_at i \<noteq> - 1"
    using True counter_at_max [of i] by linarith
  ultimately show ?thesis
    using True by (simp add: advance_def Let_def nonce_at_def)
next
  case False
  then have "counter_at i = - 1" "counter_at (Suc i) = - 1"
    unfolding counter_at_max by simp_all
  with False show ?thesis
    by (simp add: advance_def Let_def nonce_at_def)
qed

lemma nonce_at_inj:
  assumes "length p = length q" "nonce_at p i = Some n" "nonce_at q j = Some n"
  shows "p = q \<and> i = j"
proof -
  have "p = q" and "(of_nat i :: u64) = of_nat j" and "i < 2 ^ 64" "j < 2 ^ 64"
    using assms by (auto simp: nonce_at_def to_le_bytes_inj split: if_splits)
  then show ?thesis
    by (metis unat_of_nat_u64)
qed

lemma map_filter_mem: "n \<in> set (List.map_filter f xs) \<longleftrightarrow> (\<exists>x\<in>set xs. f x = Some n)"
  by (force simp: List.map_filter_def)

lemma nonces_distinct:
  assumes "distinct xs" "\<forall>x\<in>set xs. length (fst x) = 4"
  shows "distinct (List.map_filter (\<lambda>(pre, i). nonce_at pre i) xs)"
  using assms
proof (induction xs)
  case Nil
  then show ?case by (simp add: map_filter_simps)
next
  case (Cons x xs)
  obtain pre i where x: "x = (pre, i)" by (cases x)
  have "n \<notin> set (List.map_filter (\<lambda>(pre, i). nonce_at pre i) xs)" if n: "nonce_at pre i = Some n" for n
  proof
    assume "n \<in> set (List.map_filter (\<lambda>(pre, i). nonce_at pre i) xs)"
    then obtain q j where q: "(q, j) \<in> set xs" "nonce_at q j = Some n"
      by (auto simp: map_filter_mem)
    then have "length pre = length q"
      using Cons.prems x by fastforce
    then have "pre = q \<and> i = j"
      using n q(2) by (rule nonce_at_inj)
    then show False
      using Cons.prems q x by auto
  qed
  with Cons show ?case
    by (simp add: x map_filter_simps split: option.splits)
qed

text \<open>The results of sealing a sequence of messages.\<close>
fun seal_each ::
    "('p, 'k) channel_lib \<Rightarrow> 'k encrypted_channel \<Rightarrow> bytes list \<Rightarrow> (channel_error, bytes) result list" where
  "seal_each lib ch [] = []"
| "seal_each lib ch (p # ps) =
     (let (ch', r) = channel_seal lib ch p in r # seal_each lib ch' ps)"

definition seal_under ::
    "('p, 'k) channel_lib \<Rightarrow> 'k \<Rightarrow> bytes option \<Rightarrow> bytes \<Rightarrow> (channel_error, bytes) result" where
  "seal_under lib k nonce p =
     (case nonce of None \<Rightarrow> Err SealFailed | Some n \<Rightarrow> ok_or (aead_seal lib k n p) SealFailed)"

lemma seal_each_at:
  assumes "ec_sealing_key ch = \<lparr>bk_key = k, bk_nonces = \<lparr>cn_prefix = pre, cn_counter = counter_at i\<rparr>\<rparr>"
  shows "seal_each lib ch ps =
    map (\<lambda>(j, p). seal_under lib k (nonce_at pre j) p) (enumerate i ps)"
  using assms
proof (induction ps arbitrary: ch i)
  case Nil
  then show ?case by simp
next
  case (Cons p ps)
  let ?ch = "ch\<lparr>ec_sealing_key :=
    \<lparr>bk_key = k, bk_nonces = \<lparr>cn_prefix = pre, cn_counter = counter_at (Suc i)\<rparr>\<rparr>\<rparr>"
  have "channel_seal lib ch p = (?ch, seal_under lib k (nonce_at pre i) p)"
    using Cons.prems
    by (simp add: channel_seal_def advance_at seal_under_def Let_def split: option.splits)
  moreover have "seal_each lib ?ch ps =
      map (\<lambda>(j, p). seal_under lib k (nonce_at pre j) p) (enumerate (Suc i) ps)"
    by (rule Cons.IH) simp
  ultimately show ?case by simp
qed

section \<open>Two ends of a channel\<close>

text \<open>What one end seals next is what the other end expects next, in both directions.\<close>
definition in_step :: "'k encrypted_channel \<Rightarrow> 'k encrypted_channel \<Rightarrow> bool" where
  "in_step a b \<longleftrightarrow> ec_sealing_key a = ec_opening_key b \<and> ec_sealing_key b = ec_opening_key a"

lemma in_step_new:
  "encrypted_channel_new lib secret True = Ok a \<Longrightarrow> encrypted_channel_new lib secret False = Ok b
     \<Longrightarrow> in_step a b"
  by (auto simp: encrypted_channel_new_def in_step_def split: option.splits)

lemma seal_open_step:
  assumes "aead_ok lib" "in_step a b" "channel_seal lib a p = (a', Ok c)"
  shows "\<exists>b'. channel_open lib b c = (b', Ok p) \<and> in_step a' b'"
  using assms
  by (auto simp: channel_seal_def channel_open_def in_step_def aead_ok_def advance_def Let_def
      split: if_splits)

text \<open>A conversation: \<open>True\<close> messages go from the first end to the second, the others back.\<close>
fun converse ::
    "('p, 'k) channel_lib \<Rightarrow> 'k encrypted_channel \<Rightarrow> 'k encrypted_channel \<Rightarrow> (bool \<times> bytes) list
      \<Rightarrow> (channel_error, bytes list) result" where
  "converse lib a b [] = Ok []"
| "converse lib a b ((True, p) # ps) =
     (case channel_seal lib a p of
        (_, Inl e) \<Rightarrow> Err e
      | (a', Inr c) \<Rightarrow>
          (case channel_open lib b c of
             (_, Inl e) \<Rightarrow> Err e
           | (b', Inr q) \<Rightarrow> map_ok (Cons q) (converse lib a' b' ps)))"
| "converse lib a b ((False, p) # ps) =
     (case channel_seal lib b p of
        (_, Inl e) \<Rightarrow> Err e
      | (b', Inr c) \<Rightarrow>
          (case channel_open lib a c of
             (_, Inl e) \<Rightarrow> Err e
           | (a', Inr q) \<Rightarrow> map_ok (Cons q) (converse lib a' b' ps)))"

definition sends_left :: "'k encrypted_channel \<Rightarrow> nat" where
  "sends_left ch = unat (- 1 - cn_counter (bk_nonces (ec_sealing_key ch)))"

lemma sends_left_pos: "0 < sends_left ch \<longleftrightarrow> cn_counter (bk_nonces (ec_sealing_key ch)) \<noteq> - 1"
  by (auto simp: sends_left_def unat_gt_0)

lemma sends_left_new:
  assumes "encrypted_channel_new lib secret ini = Ok ch"
  shows "sends_left ch = 2 ^ 64 - 1"
proof -
  have "cn_counter (bk_nonces (ec_sealing_key ch)) = 0"
    using assms by (auto simp: encrypted_channel_new_def counter_nonce_new_def
        split: option.splits if_splits)
  then show ?thesis
    by (simp only: sends_left_def diff_zero unat_max_u64)
qed

lemma channel_seal_ok:
  assumes "0 < sends_left a" "aead_total lib"
  shows "\<exists>a' c. channel_seal lib a p = (a', Ok c) \<and> sends_left a' = sends_left a - 1
    \<and> ec_opening_key a' = ec_opening_key a"
proof -
  let ?c = "cn_counter (bk_nonces (ec_sealing_key a))"
  have nm: "?c \<noteq> - 1"
    using assms(1) by (simp add: sends_left_pos)
  obtain c where "aead_seal lib (bk_key (ec_sealing_key a))
      (cn_prefix (bk_nonces (ec_sealing_key a)) @ to_le_bytes ?c) p = Some c"
    using assms(2) unfolding aead_total_def by blast
  moreover have "unat (- 1 - (?c + 1)) = unat (- 1 - ?c) - 1"
    using unat_rest [OF nm] by simp
  ultimately show ?thesis
    using nm by (simp add: channel_seal_def advance_def Let_def sends_left_def)
qed

lemma channel_open_sends: "ec_sealing_key (fst (channel_open lib b c)) = ec_sealing_key b"
  by (simp add: channel_open_def Let_def case_prod_beta split: option.splits)

lemma in_step_sym: "in_step a b \<longleftrightarrow> in_step b a"
  by (auto simp: in_step_def)

lemma converse_ok:
  assumes "aead_ok lib" "aead_total lib" "in_step a b"
    and "length ps \<le> sends_left a" "length ps \<le> sends_left b"
  shows "converse lib a b ps = Ok (map snd ps)"
  using assms(3-)
proof (induction ps arbitrary: a b)
  case Nil
  then show ?case by simp
next
  case (Cons d ps)
  have one: "\<exists>x' y' c. channel_seal lib x p = (x', Ok c) \<and> channel_open lib y c = (y', Ok p)
      \<and> in_step x' y' \<and> sends_left x' = sends_left x - 1 \<and> sends_left y' = sends_left y"
    if xy: "in_step x y" "0 < sends_left x" for x y :: "'b encrypted_channel" and p
  proof -
    obtain x' c where s: "channel_seal lib x p = (x', Ok c)" "sends_left x' = sends_left x - 1"
      using channel_seal_ok [OF xy(2) assms(2)] by blast
    with seal_open_step [OF assms(1) xy(1) s(1)] channel_open_sends [of lib y c] show ?thesis
      by (auto simp: sends_left_def)
  qed
  obtain dir p where d: "d = (dir, p)" by (cases d)
  show ?case
  proof (cases dir)
    case True
    obtain a' b' c where "channel_seal lib a p = (a', Ok c)" "channel_open lib b c = (b', Ok p)"
        "in_step a' b'" "sends_left a' = sends_left a - 1" "sends_left b' = sends_left b"
      using one [of a b p] Cons.prems by auto
    with Cons d True show ?thesis by simp
  next
    case False
    obtain b' a' c where "channel_seal lib b p = (b', Ok c)" "channel_open lib a c = (a', Ok p)"
        "in_step b' a'" "sends_left b' = sends_left b - 1" "sends_left a' = sends_left a"
      using one [of b a p] Cons.prems in_step_sym [of a b] by auto
    with Cons d False in_step_sym [of a' b'] show ?thesis by simp
  qed
qed

section \<open>Ends that have lost step\<close>

text \<open>The results of opening, in order, what the first end seals.\<close>
fun deliver ::
    "('p, 'k) channel_lib \<Rightarrow> 'k encrypted_channel \<Rightarrow> 'k encrypted_channel \<Rightarrow> bytes list
      \<Rightarrow> (channel_error, bytes) result list" where
  "deliver lib a b [] = []"
| "deliver lib a b (p # ps) =
     (case channel_seal lib a p of
        (a', Inl e) \<Rightarrow> Err e # deliver lib a' b ps
      | (a', Inr c) \<Rightarrow> (let (b', r) = channel_open lib b c in r # deliver lib a' b' ps))"

definition out_of_step :: "'k encrypted_channel \<Rightarrow> 'k encrypted_channel \<Rightarrow> bool" where
  "out_of_step a b \<longleftrightarrow>
     bk_key (ec_sealing_key a) = bk_key (ec_opening_key b)
     \<and> cn_prefix (bk_nonces (ec_sealing_key a)) = cn_prefix (bk_nonces (ec_opening_key b))
     \<and> (cn_counter (bk_nonces (ec_sealing_key a)) \<noteq> cn_counter (bk_nonces (ec_opening_key b))
        \<or> cn_counter (bk_nonces (ec_sealing_key a)) = - 1)"

lemma out_of_step_deliver:
  assumes "aead_nonce_bound lib" "aead_total lib"
  shows "out_of_step a b \<Longrightarrow> list_all (\<lambda>r. \<not> is_ok r) (deliver lib a b ps)"
proof (induction ps arbitrary: a b)
  case Nil
  then show ?case by simp
next
  case (Cons p ps)
  let ?na = "bk_nonces (ec_sealing_key a)" and ?nb = "bk_nonces (ec_opening_key b)"
  show ?case
  proof (cases "cn_counter ?na = - 1")
    case True
    then have "channel_seal lib a p = (a, Err SealFailed)"
      by (simp add: channel_seal_def advance_def Let_def)
    with Cons show ?thesis by simp
  next
    case False
    define n where "n = cn_prefix ?na @ to_le_bytes (cn_counter ?na)"
    obtain c where c: "aead_seal lib (bk_key (ec_sealing_key a)) n p = Some c"
      using assms(2) unfolding aead_total_def by blast
    let ?a = "a\<lparr>ec_sealing_key := (ec_sealing_key a)\<lparr>bk_nonces := ?na\<lparr>cn_counter := cn_counter ?na + 1\<rparr>\<rparr>\<rparr>"
    have seal: "channel_seal lib a p = (?a, Ok c)"
      using False c by (simp add: channel_seal_def advance_def Let_def n_def)
    have closed: "aead_open lib (bk_key (ec_opening_key b)) (cn_prefix ?nb @ to_le_bytes (cn_counter ?nb)) c
        = None"
      using assms(1) c False Cons.prems unfolding aead_nonce_bound_def n_def
      by (metis (no_types, lifting) out_of_step_def same_append_eq to_le_bytes_inj)
    have "snd (channel_open lib b c) = Err OpenFailed"
      using closed by (simp add: channel_open_def advance_def Let_def split: option.splits)
    moreover have "out_of_step ?a (fst (channel_open lib b c))"
      using Cons.prems False
      by (auto simp: out_of_step_def channel_open_def advance_def Let_def split: option.splits)
    ultimately show ?thesis
      using Cons.IH seal by (simp add: case_prod_beta Let_def)
  qed
qed

section \<open>Properties\<close>

text \<open>
  C10: A nonce is never used twice under a channel's key. The \<open>i\<close>-th message an end seals is
  encrypted under its direction's prefix followed by the little-endian counter \<open>i\<close>; from message
  \<open>2 ^ 64 - 1\<close> on sealing fails instead of starting over; and the nonces of both ends together,
  which share the key, are all different.
\<close>
theorem channel_nonces_unique:
  assumes "encrypted_channel_new lib secret True = Ok a"
    and "encrypted_channel_new lib secret False = Ok b"
  shows "\<exists>k. seal_each lib a ps =
         map (\<lambda>(i, p). seal_under lib k (nonce_at [0, 0, 0, 1] i) p) (enumerate 0 ps)
     \<and> seal_each lib b qs =
         map (\<lambda>(i, q). seal_under lib k (nonce_at [0, 0, 0, 2] i) q) (enumerate 0 qs)
     \<and> distinct (List.map_filter (\<lambda>(pre, i). nonce_at pre i)
         (map (Pair [0, 0, 0, 1]) [0..<length ps] @ map (Pair [0, 0, 0, 2]) [0..<length qs]))"
proof -
  obtain k where k: "aead_key lib secret = Some k"
    using assms(1) by (auto simp: encrypted_channel_new_def split: option.splits)
  have "ec_sealing_key a = \<lparr>bk_key = k, bk_nonces = \<lparr>cn_prefix = [0, 0, 0, 1], cn_counter = counter_at 0\<rparr>\<rparr>"
    and "ec_sealing_key b = \<lparr>bk_key = k, bk_nonces = \<lparr>cn_prefix = [0, 0, 0, 2], cn_counter = counter_at 0\<rparr>\<rparr>"
    using assms k by (auto simp: encrypted_channel_new_def counter_nonce_new_def)
  note seals = this [THEN seal_each_at]
  have "distinct (List.map_filter (\<lambda>(pre, i). nonce_at pre i)
      (map (Pair [0, 0, 0, 1]) [0..<length ps] @ map (Pair [0, 0, 0, 2]) [0..<length qs]))"
    by (rule nonces_distinct) (auto simp: distinct_map inj_on_def)
  with seals show ?thesis by blast
qed

text \<open>
  C24: Two agents that exchange ephemeral public keys can talk. Both derive the same secret, both
  make a channel, and a conversation of fewer than \<open>2 ^ 64\<close> messages, in both directions in any
  alternation, delivered in order, yields every plaintext unchanged.
\<close>
theorem channel_conversation:
  assumes "agreement_ok lib" and "aead_ok lib" and "aead_total lib"
    and "generate_ephemeral_key lib r = Ok (x, px)" and "generate_ephemeral_key lib r' = Ok (y, py)"
    and "agree lib x py = Ok secret" and "encrypted_channel_new lib secret True = Ok a"
    and "length ps < 2 ^ 64"
  shows "agree lib y px = Ok secret
     \<and> (\<exists>b. encrypted_channel_new lib secret False = Ok b \<and> converse lib a b ps = Ok (map snd ps))"
proof -
  have pub: "ka_public lib x = Some px" "ka_public lib y = Some py"
    using assms(4,5) by (auto simp: generate_ephemeral_key_def split: option.splits)
  then have "ka_agree lib x py = ka_agree lib y px"
    using assms(1) unfolding agreement_ok_def by blast
  then have "agree lib y px = Ok secret"
    using assms(6) by (simp add: agree_def)
  moreover obtain b where b: "encrypted_channel_new lib secret False = Ok b"
    using assms(7) by (auto simp: encrypted_channel_new_def split: option.splits)
  moreover have "sends_left a = 2 ^ 64 - 1" "sends_left b = 2 ^ 64 - 1"
    using assms(7) b by (auto simp only: sends_left_new)
  then have "converse lib a b ps = Ok (map snd ps)"
    using assms(8) by (intro converse_ok [OF assms(2,3) in_step_new [OF assms(7) b]]) simp_all
  ultimately show ?thesis by blast
qed

text \<open>
  C39: A channel does not recover from one lost or injected message. After the receiver has opened
  one extra ciphertext (a forged one is refused but still uses up a nonce), or has missed one, no
  later message of the sender opens: every delivery fails, for ever.
\<close>
theorem one_stray_message_kills_channel:
  assumes "aead_nonce_bound lib" and "aead_total lib" and "in_step a b"
    and "cn_counter (bk_nonces (ec_sealing_key a)) \<noteq> - 1"
    and "(a', b') \<in> {(a, fst (channel_open lib b junk)), (fst (channel_seal lib a lost), b)}"
  shows "list_all (\<lambda>r. \<not> is_ok r) (deliver lib a' b' ps)"
proof (rule out_of_step_deliver [OF assms(1,2)])
  show "out_of_step a' b'"
    using assms(3-5)
    by (auto simp: out_of_step_def in_step_def channel_open_def channel_seal_def advance_def Let_def
        split: option.splits)
qed

section \<open>Witnesses\<close>

text \<open>
  A concrete library: the secret of two keys is their sum, and a sealed message carries its nonce,
  in a form that no other nonce is an initial part of, before the plaintext.
\<close>
definition tag_of :: "bytes \<Rightarrow> bytes" where
  "tag_of n = concat (map (\<lambda>x. [1, x]) n) @ [0]"

definition plain_channel :: "(u8, bytes) channel_lib" where
  "plain_channel = \<lparr>
     ka_public = (\<lambda>x. Some [x]),
     ka_agree = (\<lambda>x p. case p of [] \<Rightarrow> None | y # _ \<Rightarrow> Some [x + y]),
     aead_key = Some,
     aead_seal = (\<lambda>k n p. Some (tag_of n @ p)),
     aead_open = (\<lambda>k n c. if take (length (tag_of n)) c = tag_of n
                          then Some (drop (length (tag_of n)) c) else None)\<rparr>"

lemma tag_of_prefix: "take (length (tag_of n')) (tag_of n @ p) = tag_of n' \<Longrightarrow> n = n'"
proof (induction n arbitrary: n')
  case Nil
  then show ?case by (cases n') (auto simp: tag_of_def)
next
  case (Cons x n)
  then show ?case by (cases n') (auto simp: tag_of_def)
qed

lemma plain_channel_ok:
  "agreement_ok plain_channel" "aead_total plain_channel" "aead_ok plain_channel"
  by (auto simp: agreement_ok_def aead_total_def aead_ok_def plain_channel_def add.commute)

lemma plain_channel_bound: "aead_nonce_bound plain_channel"
  unfolding aead_nonce_bound_def plain_channel_def channel_lib.select_convs option.inject
  using tag_of_prefix by metis

definition plain_end :: "bool \<Rightarrow> bytes encrypted_channel" where
  "plain_end ini =
     (let (s, o') = (if ini then ([0, 0, 0, 1], [0, 0, 0, 2]) else ([0, 0, 0, 2], [0, 0, 0, 1]))
      in \<lparr>ec_sealing_key = \<lparr>bk_key = [8], bk_nonces = counter_nonce_new s\<rparr>,
          ec_opening_key = \<lparr>bk_key = [8], bk_nonces = counter_nonce_new o'\<rparr>\<rparr>)"

lemma plain_end_new: "encrypted_channel_new plain_channel [8] ini = Ok (plain_end ini)"
  by (simp add: encrypted_channel_new_def plain_channel_def plain_end_def)

theorem channel_nonces_unique_witness:
  "\<exists>k. seal_each plain_channel (plain_end True) [[5], [6]] =
      map (\<lambda>(i, p). seal_under plain_channel k (nonce_at [0, 0, 0, 1] i) p) (enumerate 0 [[5], [6]])"
  using channel_nonces_unique [OF plain_end_new plain_end_new] by blast

theorem channel_conversation_witness:
  "converse plain_channel (plain_end True) (plain_end False) [(True, [1]), (False, [2]), (True, [3])]
     = Ok [[1], [2], [3]]"
proof -
  have "generate_ephemeral_key plain_channel (Some x) = Ok (x, [x])" for x
    by (simp add: generate_ephemeral_key_def plain_channel_def)
  note keys = this [of 3] this [of 5]
  have "agree plain_channel 3 [5] = Ok [8]"
    by (simp add: agree_def plain_channel_def)
  from channel_conversation [OF plain_channel_ok(1,3,2) keys this plain_end_new,
      of "[(True, [1]), (False, [2]), (True, [3])]"]
  show ?thesis by (auto simp: plain_end_new)
qed

theorem one_stray_message_kills_channel_witness:
  "list_all (\<lambda>r. \<not> is_ok r) (deliver plain_channel (plain_end True)
      (fst (channel_open plain_channel (plain_end False) [0])) [[1], [2]])"
proof (rule one_stray_message_kills_channel [OF plain_channel_bound plain_channel_ok(2) in_step_new,
      where junk = "[0]" and lost = "[]"])
  show "encrypted_channel_new plain_channel [8] True = Ok (plain_end True)"
    "encrypted_channel_new plain_channel [8] False = Ok (plain_end False)"
    by (rule plain_end_new)+
  show "cn_counter (bk_nonces (ec_sealing_key (plain_end True))) \<noteq> - 1"
    by (simp add: plain_end_def counter_nonce_new_def)
qed simp

end
