(* ===== verification/Channel_Tests.thy ===== *)
theory Channel_Tests
  imports Channel Test_Script
begin

text \<open>
  The unit tests of \<open>p2p/src/channel.rs\<close>, run on the model for every library that behaves as
  documented. The private keys are what the generator returns. The two tests that
  rely on the strength of the ciphers (a tampered ciphertext, two unrelated key agreements) are in
  \<open>Library_Tests\<close>.
\<close>

definition channel_lib_ok :: "('p, 'k) channel_lib \<Rightarrow> bool" where
  "channel_lib_ok lib \<longleftrightarrow> agreement_ok lib \<and> aead_total lib \<and> aead_ok lib \<and> aead_nonce_bound lib"

text \<open>Two private keys with which the library gets as far as a cipher key.\<close>
definition keys_ok :: "('p, 'k) channel_lib \<Rightarrow> 'p \<Rightarrow> 'p \<Rightarrow> bytes \<Rightarrow> 'k \<Rightarrow> bool" where
  "keys_ok lib a b secret k \<longleftrightarrow>
     (\<exists>pa pb. ka_public lib a = Some pa \<and> ka_public lib b = Some pb
        \<and> ka_agree lib a pb = Some secret \<and> ka_agree lib b pa = Some secret
        \<and> aead_key lib secret = Some k)"

section \<open>Key agreement\<close>

definition test_key_agreement_roundtrip :: "('p, 'k) channel_lib \<Rightarrow> 'p \<Rightarrow> 'p \<Rightarrow> bool" where
  "test_key_agreement_roundtrip lib a b =
     unwrap (generate_ephemeral_key lib (Some a)) (\<lambda>(priv_a, pub_a).
     unwrap (generate_ephemeral_key lib (Some b)) (\<lambda>(priv_b, pub_b).
     unwrap (agree lib priv_a pub_b) (\<lambda>secret_a.
     unwrap (agree lib priv_b pub_a) (\<lambda>secret_b.
       length secret_a = 32 \<and> secret_a = secret_b))))"

definition make_channel_pair ::
    "('p, 'k) channel_lib \<Rightarrow> 'p \<Rightarrow> 'p \<Rightarrow> ('k encrypted_channel \<Rightarrow> 'k encrypted_channel \<Rightarrow> bool) \<Rightarrow> bool"
  where
  "make_channel_pair lib a b rest =
     unwrap (generate_ephemeral_key lib (Some a)) (\<lambda>(priv_a, pub_a).
     unwrap (generate_ephemeral_key lib (Some b)) (\<lambda>(priv_b, pub_b).
     unwrap (agree lib priv_a pub_b) (\<lambda>secret_a.
     unwrap (agree lib priv_b pub_a) (\<lambda>secret_b.
       secret_a = secret_b
       \<and> unwrap (encrypted_channel_new lib secret_a True) (\<lambda>chan_a.
          unwrap (encrypted_channel_new lib secret_b False) (\<lambda>chan_b. rest chan_a chan_b))))))"

lemmas key_eval [test_eval] = generate_ephemeral_key_def agree_def

lemma key_agreement_roundtrip_passes:
  assumes "keys_ok lib a b secret k" "length secret = 32"
  shows "test_key_agreement_roundtrip lib a b"
  using assms by (auto simp: keys_ok_def test_key_agreement_roundtrip_def test_eval)

text \<open>The two ends of a channel as \<open>EncryptedChannel::new\<close> makes them.\<close>
definition new_end :: "'k \<Rightarrow> bool \<Rightarrow> 'k encrypted_channel" where
  "new_end k initiator =
     \<lparr>ec_sealing_key = \<lparr>bk_key = k, bk_nonces =
        \<lparr>cn_prefix = (if initiator then [0, 0, 0, 1] else [0, 0, 0, 2]), cn_counter = 0\<rparr>\<rparr>,
      ec_opening_key = \<lparr>bk_key = k, bk_nonces =
        \<lparr>cn_prefix = (if initiator then [0, 0, 0, 2] else [0, 0, 0, 1]), cn_counter = 0\<rparr>\<rparr>\<rparr>"

lemma make_channel_pair_eq:
  assumes "keys_ok lib a b secret k"
  shows "make_channel_pair lib a b rest \<longleftrightarrow> rest (new_end k True) (new_end k False)"
  using assms
  by (auto simp: keys_ok_def make_channel_pair_def encrypted_channel_new_def counter_nonce_new_def
      new_end_def test_eval)

section \<open>Sealing and opening\<close>

text \<open>\<open>from.seal(plaintext).unwrap()\<close>, and \<open>to.open(&ciphertext).unwrap()\<close>.\<close>
definition sealed ::
    "('p, 'k) channel_lib \<Rightarrow> 'k encrypted_channel \<Rightarrow> bytes
      \<Rightarrow> ('k encrypted_channel \<Rightarrow> bytes \<Rightarrow> bool) \<Rightarrow> bool" where
  "sealed lib ch plaintext rest =
     (let (ch, r) = channel_seal lib ch plaintext in unwrap r (rest ch))"

definition opened ::
    "('p, 'k) channel_lib \<Rightarrow> 'k encrypted_channel \<Rightarrow> bytes
      \<Rightarrow> ('k encrypted_channel \<Rightarrow> bytes \<Rightarrow> bool) \<Rightarrow> bool" where
  "opened lib ch ciphertext rest =
     (let (ch, r) = channel_open lib ch ciphertext in unwrap r (rest ch))"

definition test_seal_and_open_roundtrip :: "('p, 'k) channel_lib \<Rightarrow> 'p \<Rightarrow> 'p \<Rightarrow> bytes \<Rightarrow> bool" where
  "test_seal_and_open_roundtrip lib a b plaintext =
     make_channel_pair lib a b (\<lambda>alice bob.
       sealed lib alice plaintext (\<lambda>alice ciphertext.
         take (length plaintext) ciphertext \<noteq> plaintext
         \<and> opened lib bob ciphertext (\<lambda>bob decrypted. decrypted = plaintext)))"

definition test_bidirectional_communication ::
    "('p, 'k) channel_lib \<Rightarrow> 'p \<Rightarrow> 'p \<Rightarrow> bytes \<Rightarrow> bytes \<Rightarrow> bytes \<Rightarrow> bool" where
  "test_bidirectional_communication lib a b ping pong message2 =
     make_channel_pair lib a b (\<lambda>alice bob.
       sealed lib alice ping (\<lambda>alice ct1. opened lib bob ct1 (\<lambda>bob pt1.
       pt1 = ping \<and>
       sealed lib bob pong (\<lambda>bob ct2. opened lib alice ct2 (\<lambda>alice pt2.
       pt2 = pong \<and>
       sealed lib alice message2 (\<lambda>alice ct3. opened lib bob ct3 (\<lambda>bob pt3.
       pt3 = message2)))))))"

definition test_wrong_direction_rejected :: "('p, 'k) channel_lib \<Rightarrow> 'p \<Rightarrow> 'p \<Rightarrow> bytes \<Rightarrow> bool" where
  "test_wrong_direction_rejected lib a b self_talk =
     make_channel_pair lib a b (\<lambda>alice _.
       sealed lib alice self_talk (\<lambda>alice ciphertext.
         let (alice, r) = channel_open lib alice ciphertext in is_err r))"

definition test_empty_plaintext :: "('p, 'k) channel_lib \<Rightarrow> 'p \<Rightarrow> 'p \<Rightarrow> bool" where
  "test_empty_plaintext lib a b =
     make_channel_pair lib a b (\<lambda>alice bob.
       sealed lib alice [] (\<lambda>alice ct. opened lib bob ct (\<lambda>bob pt. pt = [])))"

definition test_large_message :: "('p, 'k) channel_lib \<Rightarrow> 'p \<Rightarrow> 'p \<Rightarrow> bool" where
  "test_large_message lib a b =
     make_channel_pair lib a b (\<lambda>alice bob.
       let big = replicate (64 * 1024) 0xAB
       in sealed lib alice big (\<lambda>alice ct. opened lib bob ct (\<lambda>bob pt. pt = big)))"

text \<open>The state of an end after it has sealed \<open>i\<close> and opened \<open>j\<close> messages.\<close>
definition end_at :: "'k \<Rightarrow> bool \<Rightarrow> u64 \<Rightarrow> u64 \<Rightarrow> 'k encrypted_channel" where
  "end_at k initiator i j =
     (new_end k initiator)
       \<lparr>ec_sealing_key := (ec_sealing_key (new_end k initiator))
          \<lparr>bk_nonces := \<lparr>cn_prefix = cn_prefix (bk_nonces (ec_sealing_key (new_end k initiator))),
             cn_counter = i\<rparr>\<rparr>,
        ec_opening_key := (ec_opening_key (new_end k initiator))
          \<lparr>bk_nonces := \<lparr>cn_prefix = cn_prefix (bk_nonces (ec_opening_key (new_end k initiator))),
             cn_counter = j\<rparr>\<rparr>\<rparr>"

lemma new_end_at: "new_end k initiator = end_at k initiator 0 0"
  by (simp add: end_at_def new_end_def)

definition seal_prefix :: "bool \<Rightarrow> bytes" where
  "seal_prefix initiator = (if initiator then [0, 0, 0, 1] else [0, 0, 0, 2])"

lemma end_at_eq:
  "end_at k initiator i j =
     \<lparr>ec_sealing_key = \<lparr>bk_key = k, bk_nonces = \<lparr>cn_prefix = seal_prefix initiator, cn_counter = i\<rparr>\<rparr>,
      ec_opening_key = \<lparr>bk_key = k, bk_nonces = \<lparr>cn_prefix = seal_prefix (\<not> initiator), cn_counter = j\<rparr>\<rparr>\<rparr>"
  by (simp add: end_at_def new_end_def seal_prefix_def)

lemma sealed_iff:
  assumes "channel_lib_ok lib" "i \<noteq> - 1"
  shows "\<exists>c. aead_seal lib k (seal_prefix initiator @ to_le_bytes i) p = Some c
    \<and> (\<forall>rest. sealed lib (end_at k initiator i j) p rest \<longleftrightarrow> rest (end_at k initiator (i + 1) j) c)"
proof -
  obtain c where "aead_seal lib k (seal_prefix initiator @ to_le_bytes i) p = Some c"
    using assms(1) unfolding channel_lib_ok_def aead_total_def by blast
  then show ?thesis
    using assms(2) by (simp add: sealed_def channel_seal_def advance_def end_at_eq)
qed

text \<open>A message sealed by one end and opened by the other, both at the same count.\<close>
lemma sealed_opened:
  assumes "channel_lib_ok lib" "i \<noteq> - 1"
  shows "sealed lib (end_at k initiator i j) p (\<lambda>ch ct.
      opened lib (end_at k (\<not> initiator) j' i) ct (rest ch)) \<longleftrightarrow>
    rest (end_at k initiator (i + 1) j) (end_at k (\<not> initiator) j' (i + 1)) p"
proof -
  obtain c where c: "aead_seal lib k (seal_prefix initiator @ to_le_bytes i) p = Some c"
    and s: "\<forall>rest. sealed lib (end_at k initiator i j) p rest
      \<longleftrightarrow> rest (end_at k initiator (i + 1) j) c"
    using sealed_iff [OF assms] by blast
  then have "aead_open lib k (seal_prefix initiator @ to_le_bytes i) c = Some p"
    using assms(1) by (simp add: channel_lib_ok_def aead_ok_def)
  with s assms(2) show ?thesis
    by (simp add: opened_def channel_open_def advance_def end_at_eq)
qed

lemmas sealed_opened_first = sealed_opened [of _ 0 _ True 0 _ 0, simplified]

lemma bidirectional_communication_passes:
  assumes "channel_lib_ok lib" "keys_ok lib a b secret k"
  shows "test_bidirectional_communication lib a b ping pong message2"
  using sealed_opened [OF assms(1), of 0 k True 0] sealed_opened [OF assms(1), of 0 k False 1]
    sealed_opened [OF assms(1), of 1 k True 1]
  by (simp add: test_bidirectional_communication_def make_channel_pair_eq [OF assms(2)] new_end_at)

lemma length_tests_pass:
  assumes "channel_lib_ok lib" "keys_ok lib a b secret k"
  shows "test_empty_plaintext lib a b" and "test_large_message lib a b"
  by (simp_all add: test_empty_plaintext_def test_large_message_def Let_def new_end_at
      make_channel_pair_eq [OF assms(2)] sealed_opened_first [OF assms(1)])

text \<open>The last assertion on the ciphertext needs a cipher that does not copy the plaintext.\<close>
lemma seal_and_open_roundtrip_passes:
  assumes "channel_lib_ok lib" "keys_ok lib a b secret k"
    and "\<And>n c. aead_seal lib k n plaintext = Some c \<Longrightarrow> take (length plaintext) c \<noteq> plaintext"
  shows "test_seal_and_open_roundtrip lib a b plaintext"
proof -
  obtain c where c: "aead_seal lib k (seal_prefix True @ to_le_bytes 0) plaintext = Some c"
    and s: "\<forall>rest. sealed lib (end_at k True 0 0) plaintext rest \<longleftrightarrow> rest (end_at k True 1 0) c"
    using sealed_iff [OF assms(1), of 0 k True plaintext 0] by auto
  from c have "aead_open lib k (seal_prefix True @ to_le_bytes 0) c = Some plaintext"
    using assms(1) by (simp add: channel_lib_ok_def aead_ok_def)
  with s assms(3) [OF c] show ?thesis
    by (simp add: test_seal_and_open_roundtrip_def make_channel_pair_eq [OF assms(2)] new_end_at
        opened_def channel_open_def advance_def end_at_eq)
qed

text \<open>Alice opens with the prefix of the other direction, so under another nonce.\<close>
lemma wrong_direction_rejected_passes:
  assumes "channel_lib_ok lib" "keys_ok lib a b secret k"
  shows "test_wrong_direction_rejected lib a b self_talk"
proof -
  obtain c where c: "aead_seal lib k (seal_prefix True @ to_le_bytes 0) self_talk = Some c"
    and s: "\<forall>rest. sealed lib (end_at k True 0 0) self_talk rest \<longleftrightarrow> rest (end_at k True 1 0) c"
    using sealed_iff [OF assms(1), of 0 k True self_talk 0] by auto
  have "seal_prefix True @ to_le_bytes 0 \<noteq> seal_prefix False @ to_le_bytes 0"
    by (simp add: seal_prefix_def)
  with c have "aead_open lib k (seal_prefix False @ to_le_bytes 0) c = None"
    using assms(1) unfolding channel_lib_ok_def aead_nonce_bound_def by blast
  with s show ?thesis
    by (simp add: test_wrong_direction_rejected_def make_channel_pair_eq [OF assms(2)] new_end_at
        channel_open_def advance_def end_at_eq)
qed

end
