(* ===== verification/Library_Tests.thy ===== *)
theory Library_Tests
  imports Channel_Tests Auth_Tests Room_State_Tests
begin

text \<open>
  The unit tests that rely on what a library does beyond the contracts used elsewhere: serde's
  serialization, the system's random generator, and the strength of the ciphers. What a test relies on
  is an assumption of its lemma, for the values the test uses.
\<close>

section \<open>Serialization\<close>

text \<open>\<open>serde_json::to_string\<close> and \<open>from_str\<close> for one derived type.\<close>
record 'a serde =
  to_json :: "'a \<Rightarrow> (string, string) result"
  from_json :: "string \<Rightarrow> (string, 'a) result"

text \<open>What is written is read back.\<close>
definition reads_back :: "'a serde \<Rightarrow> 'a \<Rightarrow> bool" where
  "reads_back ser x \<longleftrightarrow> (\<exists>s. to_json ser x = Ok s \<and> from_json ser s = Ok x)"

text \<open>\<open>from_str(&to_string(&x).unwrap()).unwrap()\<close>.\<close>
definition reread :: "'a serde \<Rightarrow> 'a \<Rightarrow> ('a \<Rightarrow> bool) \<Rightarrow> bool" where
  "reread ser x rest = unwrap (to_json ser x) (\<lambda>json. unwrap (from_json ser json) rest)"

lemma reread_back: "reads_back ser x \<Longrightarrow> reread ser x rest \<longleftrightarrow> rest x"
  by (auto simp: reads_back_def reread_def)

definition test_public_key_serialization_roundtrip ::
    "'kp crypto_lib \<Rightarrow> public_key_bytes serde \<Rightarrow> bytes option \<Rightarrow> bool" where
  "test_public_key_serialization_roundtrip lib ser rand =
     generated lib rand (\<lambda>i.
       let pk = identity_public_key lib i in reread ser pk (\<lambda>deserialized. pk = deserialized))"

definition test_signature_serialization_roundtrip ::
    "'kp crypto_lib \<Rightarrow> signature serde \<Rightarrow> bytes option \<Rightarrow> bytes \<Rightarrow> bool" where
  "test_signature_serialization_roundtrip lib ser rand test =
     generated lib rand (\<lambda>i.
       let sg = identity_sign lib i test
       in reread ser sg (\<lambda>deserialized. sig_sig sg = sig_sig deserialized))"

lemma key_serialization_tests_pass:
  assumes "generates lib rand kp" "\<And>pk. reads_back pks pk" "\<And>sg. reads_back sgs sg"
  shows "test_public_key_serialization_roundtrip lib pks rand"
    and "test_signature_serialization_roundtrip lib sgs rand msg"
  using generatesD [OF assms(1)]
  by (auto simp: test_public_key_serialization_roundtrip_def test_signature_serialization_roundtrip_def
      reread_back [OF assms(2)] reread_back [OF assms(3)] Let_def)

definition test_snapshot_serialization_roundtrip ::
    "'v state_snapshot serde \<Rightarrow> 'v \<Rightarrow> timestamp \<Rightarrow> timestamp \<Rightarrow> bool" where
  "test_snapshot_serialization_roundtrip ser nested t1 t2 =
     (let sync = init_room make_sync ''room:game'';
          (sync, _, r) = sync_set sync ''room:game'' ''agent:alice'' ''k'' nested t1
      in is_ok r \<and>
         unwrap (snapshot sync ''room:game'' t2) (\<lambda>snap.
         reread ser snap (\<lambda>deserialized.
           sn_room_id deserialized = ''room:game''
           \<and> hm_len (sn_entries deserialized) = 1
           \<and> unwrap_some (hm_get (sn_entries deserialized) ''k'') (\<lambda>e. se_value e = nested))))"

definition test_delta_serialization_roundtrip :: "'v state_delta serde \<Rightarrow> 'v \<Rightarrow> timestamp \<Rightarrow> bool" where
  "test_delta_serialization_roundtrip ser v42 t =
     (let sync = init_room make_sync ''room:game'';
          (sync, _, r) = sync_set sync ''room:game'' ''agent:alice'' ''k'' v42 t
      in is_ok r \<and>
         unwrap (build_delta sync ''room:game'' ''agent:alice'' vc_default) (\<lambda>delta.
         reread ser delta (\<lambda>deserialized.
           sd_room_id deserialized = ''room:game''
           \<and> length (sd_entries deserialized) = 1
           \<and> sd_entries deserialized \<noteq> [] \<and> se_value (sd_entries deserialized ! 0) = v42)))"

lemma state_serialization_tests_pass:
  assumes "\<And>snap. reads_back sns snap" "\<And>d. reads_back sds d"
  shows "test_snapshot_serialization_roundtrip sns nested t1 t2"
    and "test_delta_serialization_roundtrip sds v42 t"
  by (simp_all add: test_snapshot_serialization_roundtrip_def test_delta_serialization_roundtrip_def
      reread_back [OF assms(1)] reread_back [OF assms(2)] test_eval hm_eval)

section \<open>Randomness\<close>

text \<open>\<open>drawn\<close> and \<open>drawn2\<close> are what the generator hands out in the two calls.\<close>
definition test_random_bytes_returns_requested_length :: "(nat \<Rightarrow> u8) \<Rightarrow> (nat \<Rightarrow> u8) \<Rightarrow> bool" where
  "test_random_bytes_returns_requested_length drawn drawn2 =
     unwrap (random_bytes 32 (Some drawn)) (\<lambda>bytes.
       length bytes = 32
       \<and> unwrap (random_bytes 32 (Some drawn2)) (\<lambda>bytes2. bytes \<noteq> bytes2))"

lemma random_bytes_returns_requested_length_passes:
  "i < 32 \<Longrightarrow> drawn i \<noteq> drawn2 i \<Longrightarrow> test_random_bytes_returns_requested_length drawn drawn2"
  by (auto simp: test_random_bytes_returns_requested_length_def random_bytes_def map_eq_conv
      simp del: upt_rec_numeral)

definition test_different_keys_different_secrets ::
    "('p, 'k) channel_lib \<Rightarrow> 'p \<Rightarrow> 'p \<Rightarrow> 'p \<Rightarrow> 'p \<Rightarrow> bool" where
  "test_different_keys_different_secrets lib a b c d =
     unwrap (generate_ephemeral_key lib (Some a)) (\<lambda>(priv_a, _).
     unwrap (generate_ephemeral_key lib (Some c)) (\<lambda>(_, pub_c).
     unwrap (agree lib priv_a pub_c) (\<lambda>secret_ac.
     unwrap (generate_ephemeral_key lib (Some b)) (\<lambda>(_, pub_b).
     unwrap (generate_ephemeral_key lib (Some d)) (\<lambda>(priv_d, _).
     unwrap (agree lib priv_d pub_b) (\<lambda>secret_bd.
       secret_ac \<noteq> secret_bd))))))"

lemma different_keys_different_secrets_passes:
  assumes "ka_public lib a = Some pa" "ka_public lib b = Some pb" "ka_public lib c = Some pc"
    "ka_public lib d = Some pd" "ka_agree lib a pc = Some s1" "ka_agree lib d pb = Some s2" "s1 \<noteq> s2"
  shows "test_different_keys_different_secrets lib a b c d"
  using assms by (simp add: test_different_keys_different_secrets_def test_eval)

section \<open>Forged ciphertexts\<close>

definition test_tampered_ciphertext_rejected :: "('p, 'k) channel_lib \<Rightarrow> 'p \<Rightarrow> 'p \<Rightarrow> bytes \<Rightarrow> bool" where
  "test_tampered_ciphertext_rejected lib a b secret_data =
     make_channel_pair lib a b (\<lambda>alice bob.
       sealed lib alice secret_data (\<lambda>alice ciphertext.
         ciphertext \<noteq> []
         \<and> (let ciphertext = ciphertext[0 := xor (ciphertext ! 0) 0xff];
                (bob, r) = channel_open lib bob ciphertext
            in is_err r)))"

text \<open>The cipher makes no empty ciphertext, and one whose first byte is flipped does not open.\<close>
lemma tampered_ciphertext_rejected_passes:
  assumes "channel_lib_ok lib" "keys_ok lib a b secret k"
    and "\<And>n c. aead_seal lib k n secret_data = Some c \<Longrightarrow>
      c \<noteq> [] \<and> aead_open lib k n (c[0 := xor (c ! 0) 0xff]) = None"
  shows "test_tampered_ciphertext_rejected lib a b secret_data"
proof -
  obtain c where c: "aead_seal lib k (seal_prefix True @ to_le_bytes 0) secret_data = Some c"
    and s: "\<forall>rest. sealed lib (end_at k True 0 0) secret_data rest \<longleftrightarrow> rest (end_at k True 1 0) c"
    using sealed_iff [OF assms(1), of 0 k True secret_data 0] by auto
  with assms(3) [OF c] show ?thesis
    by (simp add: test_tampered_ciphertext_rejected_def make_channel_pair_eq [OF assms(2)] new_end_at
        channel_open_def advance_def end_at_eq Let_def)
qed

end
